(* ===== verification/Prelude.thy ===== *)
theory Prelude
  imports Main "HOL-Library.Word" "HOL-Library.AList"
begin

text \<open>
  Shared vocabulary of the development: bytes and Python strings, the exception-sum
  combinators every component uses, state actions (a computation over an explicit state
  that may raise and keeps the state it reached), and the generic list lemmas and
  collections of facts the component proofs draw on.
\<close>

unbundle bit_operations_syntax

section \<open>Bytes and strings\<close>

text \<open>
  A Python \<open>bytes\<close> object is a list of 8-bit words; a Python \<open>str\<close> is a list of code
  points. \<open>pys\<close> turns an ASCII literal into such a list.
\<close>

type_synonym byte = "8 word"
type_synonym bytes = "byte list"
type_synonym pystr = "nat list"
type_synonym method_sig = "int \<times> int"

definition pys :: "string \<Rightarrow> pystr" where
  "pys s = map of_char s"

definition pyb :: "string \<Rightarrow> bytes" where
  "pyb s = map (\<lambda>c. word_of_nat (of_char c)) s"

text \<open>Python slicing \<open>buf[a:a+n]\<close>: silently cut at the end of the buffer.\<close>

definition slice :: "'a list \<Rightarrow> nat \<Rightarrow> nat \<Rightarrow> 'a list" where
  "slice buf a n = take n (drop a buf)"

section \<open>Collections of facts\<close>

named_theorems codec_simps \<open>equations of writers and readers that meet on a concrete prefix\<close>
named_theorems act_simps \<open>unfolding of the state actions\<close>
named_theorems frame_inv \<open>preservation facts of a component's invariant\<close>

section \<open>Results that may be errors\<close>

definition bindE :: "'e + 'a \<Rightarrow> ('a \<Rightarrow> 'e + 'b) \<Rightarrow> 'e + 'b" where
  "bindE m f = (case m of Inl e \<Rightarrow> Inl e | Inr x \<Rightarrow> f x)"

lemma bindE_simps [simp]:
  "bindE (Inl e) f = Inl e"
  "bindE (Inr x) f = f x"
  by (simp_all add: bindE_def)

lemma bindE_eq_Inr:
  "bindE m f = Inr y \<longleftrightarrow> (\<exists>x. m = Inr x \<and> f x = Inr y)"
  by (cases m) auto

lemma bindE_eq_Inl:
  "bindE m f = Inl e \<longleftrightarrow> m = Inl e \<or> (\<exists>x. m = Inr x \<and> f x = Inl e)"
  by (cases m) auto

lemma bindE_InrE [elim!]:
  assumes "bindE m f = Inr y"
  obtains x where "m = Inr x" and "f x = Inr y"
  using assms by (auto simp: bindE_eq_Inr)

lemma bindE_assoc: "bindE (bindE m f) g = bindE m (\<lambda>x. bindE (f x) g)"
  by (cases m) auto

text \<open>\<open>d.get(k)\<close> and \<open>d[k]\<close> of a dictionary kept as an association list.\<close>

definition get_or :: "'e \<Rightarrow> 'a option \<Rightarrow> 'e + 'a" where
  "get_or e m = (case m of None \<Rightarrow> Inl e | Some x \<Rightarrow> Inr x)"

lemma get_or_simps [simp]:
  "get_or e None = Inl e"
  "get_or e (Some x) = Inr x"
  by (simp_all add: get_or_def)

lemma get_or_eq_Inr [simp]: "get_or e m = Inr x \<longleftrightarrow> m = Some x"
  by (cases m) auto

section \<open>State actions\<close>

text \<open>
  A Python method over mutable state: it returns a value or raises, and in both cases
  leaves a state behind, since an exception does not undo the assignments before it.
\<close>

type_synonym ('s, 'e, 'a) act = "'s \<Rightarrow> ('e + 'a) \<times> 's"

definition retA :: "'a \<Rightarrow> ('s, 'e, 'a) act" where
  "retA x s = (Inr x, s)"

definition raiseA :: "'e \<Rightarrow> ('s, 'e, 'a) act" where
  "raiseA e s = (Inl e, s)"

definition bindA :: "('s, 'e, 'a) act \<Rightarrow> ('a \<Rightarrow> ('s, 'e, 'b) act) \<Rightarrow> ('s, 'e, 'b) act" where
  "bindA m f s = (case m s of (Inl e, s') \<Rightarrow> (Inl e, s') | (Inr x, s') \<Rightarrow> f x s')"

definition modA :: "('s \<Rightarrow> 's) \<Rightarrow> ('s, 'e, unit) act" where
  "modA f s = (Inr (), f s)"

definition getA :: "('s \<Rightarrow> 'a) \<Rightarrow> ('s, 'e, 'a) act" where
  "getA f s = (Inr (f s), s)"

definition liftA :: "'e + 'a \<Rightarrow> ('s, 'e, 'a) act" where
  "liftA r s = (r, s)"

text \<open>\<open>try: m finally: f\<close> and \<open>try: m except: h\<close>.\<close>

definition finallyA :: "('s, 'e, 'a) act \<Rightarrow> ('s \<Rightarrow> 's) \<Rightarrow> ('s, 'e, 'a) act" where
  "finallyA m f s = (case m s of (r, s') \<Rightarrow> (r, f s'))"

definition catchA :: "('s, 'e, 'a) act \<Rightarrow> ('e \<Rightarrow> ('s, 'e, 'a) act) \<Rightarrow> ('s, 'e, 'a) act" where
  "catchA m h s = (case m s of (Inl e, s') \<Rightarrow> h e s' | (Inr x, s') \<Rightarrow> (Inr x, s'))"

text \<open>\<open>for x in xs: f(x)\<close>, left by the first exception.\<close>

fun forA :: "'x list \<Rightarrow> ('x \<Rightarrow> ('s, 'e, unit) act) \<Rightarrow> ('s, 'e, unit) act" where
  "forA [] f s = (Inr (), s)"
| "forA (x # xs) f s = bindA (f x) (\<lambda>_. forA xs f) s"

lemma act_simps_base [act_simps, simp]:
  "retA x s = (Inr x, s)"
  "raiseA e s = (Inl e, s)"
  "modA f s = (Inr (), f s)"
  "getA g s = (Inr (g s), s)"
  "liftA r s = (r, s)"
  by (simp_all add: retA_def raiseA_def modA_def getA_def liftA_def)

lemmas act_defs [act_simps] = bindA_def finallyA_def catchA_def

lemma bindA_cases:
  assumes "bindA m f s = (r, s')"
  obtains (raised) e where "m s = (Inl e, s')" and "r = Inl e"
    | (ok) x t where "m s = (Inr x, t)" and "f x t = (r, s')"
  using assms by (auto simp: bindA_def split: prod.splits sum.splits)

lemma bindA_Inr [simp]: "m s = (Inr x, t) \<Longrightarrow> bindA m f s = f x t"
  by (simp add: bindA_def)

lemma bindA_Inl [simp]: "m s = (Inl e, t) \<Longrightarrow> bindA m f s = (Inl e, t)"
  by (simp add: bindA_def)

section \<open>Lists\<close>

lemma slice_append_exact [simp]:
  "slice (pre @ xs @ post) (length pre) (length xs) = xs"
  by (simp add: slice_def)

lemma slice_append_exact':
  "off = length pre \<Longrightarrow> n = length xs \<Longrightarrow> slice (pre @ xs @ post) off n = xs"
  by simp

lemma slice_slice: "slice xs a n @ slice xs (a + n) m = slice xs a (n + m)"
  by (simp add: slice_def take_add add.commute [of a n])

text \<open>Splitting at the first separator.\<close>

lemma until_separator:
  assumes "x \<notin> set xs"
  shows "takeWhile (\<lambda>y. y \<noteq> x) (xs @ x # ys) = xs" and "dropWhile (\<lambda>y. y \<noteq> x) (xs @ x # ys) = x # ys"
  using assms by (induction xs) auto

lemma length_slice: "length (slice buf a n) = min n (length buf - a)"
  by (simp add: slice_def)

lemma nth_append_length' [simp]: "off = length pre \<Longrightarrow> (pre @ x # post) ! off = x"
  by simp

text \<open>\<open>d.update(upds)\<close>.\<close>

lemma map_of_fold_update:
  "distinct (map fst upds) \<Longrightarrow>
    map_of (fold (\<lambda>(k, v). AList.update k v) upds d) k = (case map_of upds k of Some v \<Rightarrow> Some v | None \<Rightarrow> map_of d k)"
proof (induction upds arbitrary: d)
  case (Cons u upds)
  obtain j v where u: "u = (j, v)" by (cases u)
  have "j = k \<Longrightarrow> map_of upds k = None" using Cons.prems by (auto simp: u map_of_eq_None_iff)
  then show ?case using Cons by (auto simp: u AList.update_conv' split: option.split)
qed simp

end
