(* ===== verification/Utf8.thy ===== *)
theory Utf8
  imports Prelude
begin

text \<open>
  The UTF-8 codec with the \<open>surrogatepass\<close> error handler, which \<open>str_to_bytes\<close> and
  \<open>bytes_to_str\<close> of utils.py use throughout the library, and the strict UTF-8 codec that
  message bodies use. A code point is a number below 0x110000; decoding rejects overlong
  forms, stray continuation bytes, truncation and values above 0x10FFFF, and accepts encoded
  surrogates only with \<open>surrogatepass\<close>.
\<close>

definition valid_str :: "pystr \<Rightarrow> bool" where
  "valid_str s \<longleftrightarrow> (\<forall>c \<in> set s. c < 0x110000)"

definition is_surrogate :: "nat \<Rightarrow> bool" where
  "is_surrogate c \<longleftrightarrow> 0xD800 \<le> c \<and> c \<le> 0xDFFF"

definition enc_cp :: "nat \<Rightarrow> nat list" where
  "enc_cp c =
    (if c < 0x80 then [c]
     else if c < 0x800 then [0xC0 + c div 64, 0x80 + c mod 64]
     else if c < 0x10000 then [0xE0 + c div 4096, 0x80 + c div 64 mod 64, 0x80 + c mod 64]
     else [0xF0 + c div 262144, 0x80 + c div 4096 mod 64, 0x80 + c div 64 mod 64,
           0x80 + c mod 64])"

definition cont :: "nat \<Rightarrow> bool" where
  "cont b \<longleftrightarrow> 0x80 \<le> b \<and> b \<le> 0xBF"

text \<open>One code point off the front: its value and the number of bytes it took.\<close>

definition dec_cp :: "nat list \<Rightarrow> (nat \<times> nat list) option" where
  "dec_cp bs = (case bs of
     [] \<Rightarrow> None
   | b0 # r0 \<Rightarrow>
       if b0 < 0x80 then Some (b0, r0)
       else (case r0 of
         [] \<Rightarrow> None
       | b1 # r1 \<Rightarrow>
           if 0xC2 \<le> b0 \<and> b0 \<le> 0xDF then
             (if cont b1 then Some ((b0 - 0xC0) * 64 + (b1 - 0x80), r1) else None)
           else (case r1 of
             [] \<Rightarrow> None
           | b2 # r2 \<Rightarrow>
               if 0xE0 \<le> b0 \<and> b0 \<le> 0xEF then
                 (if cont b1 \<and> cont b2 \<and> (b0 = 0xE0 \<longrightarrow> 0xA0 \<le> b1)
                  then Some ((b0 - 0xE0) * 4096 + (b1 - 0x80) * 64 + (b2 - 0x80), r2)
                  else None)
               else (case r2 of
                 [] \<Rightarrow> None
               | b3 # r3 \<Rightarrow>
                   if 0xF0 \<le> b0 \<and> b0 \<le> 0xF4 \<and> cont b1 \<and> cont b2 \<and> cont b3
                      \<and> (b0 = 0xF0 \<longrightarrow> 0x90 \<le> b1) \<and> (b0 = 0xF4 \<longrightarrow> b1 \<le> 0x8F)
                   then Some ((b0 - 0xF0) * 262144 + (b1 - 0x80) * 4096 + (b2 - 0x80) * 64
                              + (b3 - 0x80), r3)
                   else None))))"

lemma dec_cp_shorter: "dec_cp bs = Some (c, r) \<Longrightarrow> length r < length bs"
  by (auto simp: dec_cp_def split: list.splits if_splits)

function dec_str :: "nat list \<Rightarrow> pystr option" where
  "dec_str bs =
     (if bs = [] then Some []
      else (case dec_cp bs of
        None \<Rightarrow> None
      | Some (c, r) \<Rightarrow> map_option (Cons c) (dec_str r)))"
  by pat_completeness auto
termination
  by (relation "measure length") (auto dest: dec_cp_shorter)

declare dec_str.simps [simp del]

lemma dec_str_Nil [simp]: "dec_str [] = Some []"
  by (subst dec_str.simps) simp

definition utf8_encode :: "pystr \<Rightarrow> bytes" where
  "utf8_encode s = map word_of_nat (concat (map enc_cp s))"

definition utf8_decode :: "bytes \<Rightarrow> pystr option" where
  "utf8_decode bs = dec_str (map unat bs)"

definition utf8_encode_strict :: "pystr \<Rightarrow> bytes option" where
  "utf8_encode_strict s = (if list_ex is_surrogate s then None else Some (utf8_encode s))"

definition utf8_decode_strict :: "bytes \<Rightarrow> pystr option" where
  "utf8_decode_strict bs = (case utf8_decode bs of
     None \<Rightarrow> None
   | Some s \<Rightarrow> if list_ex is_surrogate s then None else Some s)"

lemma enc_cp_byte: "c < 0x110000 \<Longrightarrow> b \<in> set (enc_cp c) \<Longrightarrow> b < 256"
  by (auto simp: enc_cp_def split: if_splits)

lemma enc_cp_nonempty [simp]: "enc_cp c \<noteq> []"
  by (simp add: enc_cp_def)

lemma mod64_le [simp]: "(x :: nat) mod 64 \<le> 63"
  using mod_less_divisor [of 64 x] by linarith

lemma dec_cp_enc_cp:
  assumes "c < 0x110000"
  shows "dec_cp (enc_cp c @ r) = Some (c, r)"
proof -
  consider "c < 0x80" | "0x80 \<le> c" "c < 0x800" | "0x800 \<le> c" "c < 0x10000" | "0x10000 \<le> c"
    by linarith
  then show ?thesis
  proof cases
    case 1
    then show ?thesis by (simp add: enc_cp_def dec_cp_def)
  next
    case 2
    then have "2 \<le> c div 64" "c div 64 < 32" by auto
    with 2 show ?thesis by (simp add: enc_cp_def dec_cp_def cont_def)
  next
    case 3
    have "c div 4096 = c div 64 div 64" by (simp add: div_mult2_eq [symmetric])
    moreover have "c div 64 div 64 * 4096 + c div 64 mod 64 * 64 + c mod 64 = c"
      using div_mult_mod_eq [of c 64] div_mult_mod_eq [of "c div 64" 64] by linarith
    moreover have "c div 4096 < 16" "32 \<le> c div 64" using 3 by auto
    moreover from this(2) have "0 < c div 64 div 64 \<or> 32 \<le> c div 64 mod 64"
      by (cases "c div 64 < 64") auto
    ultimately show ?thesis using 3
      by (simp add: enc_cp_def dec_cp_def cont_def)
  next
    case 4
    have a: "c div 262144 = c div 64 div 64 div 64" "c div 4096 = c div 64 div 64"
      by (simp_all add: div_mult2_eq [symmetric])
    have b: "c div 64 div 64 div 64 * 262144 + c div 64 div 64 mod 64 * 4096
        + c div 64 mod 64 * 64 + c mod 64 = c"
      using div_mult_mod_eq [of c 64] div_mult_mod_eq [of "c div 64" 64]
        div_mult_mod_eq [of "c div 64 div 64" 64] by linarith
    have d: "c div 262144 < 5" "16 \<le> c div 64 div 64" "c div 64 div 64 < 272"
      using assms 4 by (auto simp: div_mult2_eq [symmetric])
    have "0 < c div 64 div 64 div 64 \<or> 16 \<le> c div 64 div 64 mod 64"
      using d(2) by (cases "c div 64 div 64 < 64") auto
    then show ?thesis using 4 assms a b d
      by (simp add: enc_cp_def dec_cp_def cont_def)
  qed
qed

lemma dec_str_enc:
  "valid_str s \<Longrightarrow> dec_str (concat (map enc_cp s)) = Some s"
proof (induction s)
  case Nil
  then show ?case by simp
next
  case (Cons c s)
  then show ?case
    by (subst dec_str.simps) (simp add: valid_str_def dec_cp_enc_cp)
qed

lemma utf8_roundtrip [simp]:
  assumes "valid_str s"
  shows "utf8_decode (utf8_encode s) = Some s"
proof -
  have "map unat (map word_of_nat (concat (map enc_cp s)) :: bytes) = concat (map enc_cp s)"
    using assms enc_cp_byte
    by (force simp: valid_str_def unat_of_nat intro!: map_idI mod_less)
  then show ?thesis
    using assms by (simp add: utf8_decode_def utf8_encode_def dec_str_enc)
qed

end
