(* ===== verification/Method_Spec.thy ===== *)
theory Method_Spec
  imports Prelude
begin

text \<open>
  spec.py: the AMQP 0-9-1 classes and methods as (class id, method id) pairs, and the
  \<open>method_t\<close> tuple that describes an inbound method: its signature, the wire format of its
  arguments and whether a content follows.
\<close>

record method_t =
  m_sig :: method_sig
  m_args :: "string option"
  m_content :: bool

definition spec_method :: "method_sig \<Rightarrow> string option \<Rightarrow> bool \<Rightarrow> method_t" where
  "spec_method sig args content = \<lparr>m_sig = sig, m_args = args, m_content = content\<rparr>"

section \<open>Connection\<close>

definition Connection_CLASS_ID :: int where "Connection_CLASS_ID = 10"
definition Connection_Start :: method_sig where "Connection_Start = (10, 10)"
definition Connection_StartOk :: method_sig where "Connection_StartOk = (10, 11)"
definition Connection_Secure :: method_sig where "Connection_Secure = (10, 20)"
definition Connection_SecureOk :: method_sig where "Connection_SecureOk = (10, 21)"
definition Connection_Tune :: method_sig where "Connection_Tune = (10, 30)"
definition Connection_TuneOk :: method_sig where "Connection_TuneOk = (10, 31)"
definition Connection_Open :: method_sig where "Connection_Open = (10, 40)"
definition Connection_OpenOk :: method_sig where "Connection_OpenOk = (10, 41)"
definition Connection_Close :: method_sig where "Connection_Close = (10, 50)"
definition Connection_CloseOk :: method_sig where "Connection_CloseOk = (10, 51)"
definition Connection_Blocked :: method_sig where "Connection_Blocked = (10, 60)"
definition Connection_Unblocked :: method_sig where "Connection_Unblocked = (10, 61)"

section \<open>Channel\<close>

definition Channel_Open :: method_sig where "Channel_Open = (20, 10)"
definition Channel_OpenOk :: method_sig where "Channel_OpenOk = (20, 11)"
definition Channel_Flow :: method_sig where "Channel_Flow = (20, 20)"
definition Channel_FlowOk :: method_sig where "Channel_FlowOk = (20, 21)"
definition Channel_Close :: method_sig where "Channel_Close = (20, 40)"
definition Channel_CloseOk :: method_sig where "Channel_CloseOk = (20, 41)"

section \<open>Exchange\<close>

definition Exchange_Declare :: method_sig where "Exchange_Declare = (40, 10)"
definition Exchange_DeclareOk :: method_sig where "Exchange_DeclareOk = (40, 11)"
definition Exchange_Delete :: method_sig where "Exchange_Delete = (40, 20)"
definition Exchange_DeleteOk :: method_sig where "Exchange_DeleteOk = (40, 21)"
definition Exchange_Bind :: method_sig where "Exchange_Bind = (40, 30)"
definition Exchange_BindOk :: method_sig where "Exchange_BindOk = (40, 31)"
definition Exchange_Unbind :: method_sig where "Exchange_Unbind = (40, 40)"
definition Exchange_UnbindOk :: method_sig where "Exchange_UnbindOk = (40, 51)"

section \<open>Queue\<close>

definition Queue_Declare :: method_sig where "Queue_Declare = (50, 10)"
definition Queue_DeclareOk :: method_sig where "Queue_DeclareOk = (50, 11)"
definition Queue_Bind :: method_sig where "Queue_Bind = (50, 20)"
definition Queue_BindOk :: method_sig where "Queue_BindOk = (50, 21)"
definition Queue_Purge :: method_sig where "Queue_Purge = (50, 30)"
definition Queue_PurgeOk :: method_sig where "Queue_PurgeOk = (50, 31)"
definition Queue_Delete :: method_sig where "Queue_Delete = (50, 40)"
definition Queue_DeleteOk :: method_sig where "Queue_DeleteOk = (50, 41)"
definition Queue_Unbind :: method_sig where "Queue_Unbind = (50, 50)"
definition Queue_UnbindOk :: method_sig where "Queue_UnbindOk = (50, 51)"

section \<open>Basic\<close>

definition Basic_CLASS_ID :: int where "Basic_CLASS_ID = 60"
definition Basic_Qos :: method_sig where "Basic_Qos = (60, 10)"
definition Basic_QosOk :: method_sig where "Basic_QosOk = (60, 11)"
definition Basic_Consume :: method_sig where "Basic_Consume = (60, 20)"
definition Basic_ConsumeOk :: method_sig where "Basic_ConsumeOk = (60, 21)"
definition Basic_Cancel :: method_sig where "Basic_Cancel = (60, 30)"
definition Basic_CancelOk :: method_sig where "Basic_CancelOk = (60, 31)"
definition Basic_Publish :: method_sig where "Basic_Publish = (60, 40)"
definition Basic_Return :: method_sig where "Basic_Return = (60, 50)"
definition Basic_Deliver :: method_sig where "Basic_Deliver = (60, 60)"
definition Basic_Get :: method_sig where "Basic_Get = (60, 70)"
definition Basic_GetOk :: method_sig where "Basic_GetOk = (60, 71)"
definition Basic_GetEmpty :: method_sig where "Basic_GetEmpty = (60, 72)"
definition Basic_Ack :: method_sig where "Basic_Ack = (60, 80)"
definition Basic_Nack :: method_sig where "Basic_Nack = (60, 120)"
definition Basic_Reject :: method_sig where "Basic_Reject = (60, 90)"
definition Basic_RecoverAsync :: method_sig where "Basic_RecoverAsync = (60, 100)"
definition Basic_Recover :: method_sig where "Basic_Recover = (60, 110)"
definition Basic_RecoverOk :: method_sig where "Basic_RecoverOk = (60, 111)"

section \<open>Confirm and Tx\<close>

definition Confirm_Select :: method_sig where "Confirm_Select = (85, 10)"
definition Confirm_SelectOk :: method_sig where "Confirm_SelectOk = (85, 11)"
definition Tx_Select :: method_sig where "Tx_Select = (90, 10)"
definition Tx_SelectOk :: method_sig where "Tx_SelectOk = (90, 11)"
definition Tx_Commit :: method_sig where "Tx_Commit = (90, 20)"
definition Tx_CommitOk :: method_sig where "Tx_CommitOk = (90, 21)"
definition Tx_Rollback :: method_sig where "Tx_Rollback = (90, 30)"
definition Tx_RollbackOk :: method_sig where "Tx_RollbackOk = (90, 31)"

lemmas connection_sigs =
  Connection_Start_def Connection_StartOk_def Connection_Secure_def Connection_SecureOk_def
  Connection_Tune_def Connection_TuneOk_def Connection_Open_def Connection_OpenOk_def
  Connection_Close_def Connection_CloseOk_def Connection_Blocked_def Connection_Unblocked_def

lemmas channel_sigs =
  Channel_Open_def Channel_OpenOk_def Channel_Flow_def Channel_FlowOk_def
  Channel_Close_def Channel_CloseOk_def

lemmas exchange_queue_sigs =
  Exchange_Declare_def Exchange_DeclareOk_def Exchange_Delete_def Exchange_DeleteOk_def
  Exchange_Bind_def Exchange_BindOk_def Exchange_Unbind_def Exchange_UnbindOk_def
  Queue_Declare_def Queue_DeclareOk_def Queue_Bind_def Queue_BindOk_def
  Queue_Purge_def Queue_PurgeOk_def Queue_Delete_def Queue_DeleteOk_def
  Queue_Unbind_def Queue_UnbindOk_def

lemmas basic_sigs =
  Basic_Qos_def Basic_QosOk_def Basic_Consume_def Basic_ConsumeOk_def Basic_Cancel_def
  Basic_CancelOk_def Basic_Publish_def Basic_Return_def Basic_Deliver_def Basic_Get_def
  Basic_GetOk_def Basic_GetEmpty_def Basic_Ack_def Basic_Nack_def Basic_Reject_def
  Basic_RecoverAsync_def Basic_Recover_def Basic_RecoverOk_def

lemmas extension_sigs =
  Confirm_Select_def Confirm_SelectOk_def Tx_Select_def Tx_SelectOk_def Tx_Commit_def
  Tx_CommitOk_def Tx_Rollback_def Tx_RollbackOk_def

lemmas sig_defs =
  connection_sigs channel_sigs exchange_queue_sigs basic_sigs extension_sigs

text \<open>Every signature of spec.py, in its order.\<close>

definition spec_methods :: "method_sig list" where
  "spec_methods =
    [Connection_Start, Connection_StartOk, Connection_Secure, Connection_SecureOk,
     Connection_Tune, Connection_TuneOk, Connection_Open, Connection_OpenOk,
     Connection_Close, Connection_CloseOk, Connection_Blocked, Connection_Unblocked,
     Channel_Open, Channel_OpenOk, Channel_Flow, Channel_FlowOk, Channel_Close,
     Channel_CloseOk,
     Exchange_Declare, Exchange_DeclareOk, Exchange_Delete, Exchange_DeleteOk,
     Exchange_Bind, Exchange_BindOk, Exchange_Unbind, Exchange_UnbindOk,
     Queue_Declare, Queue_DeclareOk, Queue_Bind, Queue_BindOk, Queue_Purge, Queue_PurgeOk,
     Queue_Delete, Queue_DeleteOk, Queue_Unbind, Queue_UnbindOk,
     Basic_Qos, Basic_QosOk, Basic_Consume, Basic_ConsumeOk, Basic_Cancel, Basic_CancelOk,
     Basic_Publish, Basic_Return, Basic_Deliver, Basic_Get, Basic_GetOk, Basic_GetEmpty,
     Basic_Ack, Basic_Nack, Basic_Reject, Basic_RecoverAsync, Basic_Recover,
     Basic_RecoverOk,
     Confirm_Select, Confirm_SelectOk,
     Tx_Select, Tx_SelectOk, Tx_Commit, Tx_CommitOk, Tx_Rollback, Tx_RollbackOk]"

lemma spec_methods_distinct: "distinct spec_methods"
  by (simp add: spec_methods_def sig_defs)

end
