(* ===== verification/Struct_Pack.thy ===== *)
theory Struct_Pack
  imports Prelude
begin

text \<open>
  The big-endian integer formats of Python's \<open>struct\<close> module that the library uses:
  \<open>B H I Q\<close> (unsigned, 1, 2, 4 and 8 bytes) and \<open>b h i q\<close> (signed). Packing a value out
  of range and unpacking past the end of the buffer both raise \<open>struct.error\<close>; here both
  are \<open>None\<close>, which the callers turn into that exception.
\<close>

fun be_bytes :: "nat \<Rightarrow> int \<Rightarrow> bytes" where
  "be_bytes 0 v = []"
| "be_bytes (Suc n) v = be_bytes n (v div 256) @ [word_of_int v]"

fun be_int :: "bytes \<Rightarrow> int" where
  "be_int bs = foldl (\<lambda>a b. a * 256 + uint b) 0 bs"

declare be_int.simps [simp del]

definition pack_u :: "nat \<Rightarrow> int \<Rightarrow> bytes option" where
  "pack_u n v = (if 0 \<le> v \<and> v < 256 ^ n then Some (be_bytes n v) else None)"

definition pack_s :: "nat \<Rightarrow> int \<Rightarrow> bytes option" where
  "pack_s n v =
     (if - (256 ^ n div 2) \<le> v \<and> v < 256 ^ n div 2 then Some (be_bytes n v) else None)"

definition unpack_u :: "nat \<Rightarrow> bytes \<Rightarrow> nat \<Rightarrow> int option" where
  "unpack_u n buf off =
     (if off + n \<le> length buf then Some (be_int (slice buf off n)) else None)"

definition to_signed :: "nat \<Rightarrow> int \<Rightarrow> int" where
  "to_signed n v = (if v < 256 ^ n div 2 then v else v - 256 ^ n)"

definition unpack_s :: "nat \<Rightarrow> bytes \<Rightarrow> nat \<Rightarrow> int option" where
  "unpack_s n buf off = map_option (to_signed n) (unpack_u n buf off)"

section \<open>Round trips\<close>

lemma length_be_bytes [simp]: "length (be_bytes n v) = n"
  by (induction n arbitrary: v) auto

lemma be_int_Nil [simp]: "be_int [] = 0"
  by (simp add: be_int.simps)

lemma be_int_snoc [simp]: "be_int (bs @ [b]) = be_int bs * 256 + uint b"
  by (simp add: be_int.simps)

lemma be_int_be_bytes: "be_int (be_bytes n v) = v mod 256 ^ n"
proof (induction n arbitrary: v)
  case 0
  then show ?case by simp
next
  case (Suc n)
  have "v mod 256 ^ Suc n = v div 256 mod 256 ^ n * 256 + v mod 256"
    by (simp add: mod_mult2_eq' zmod_zmult2_eq)
  then show ?case
    using Suc by (simp add: uint_word_of_int)
qed

lemma be_int_range: "0 \<le> be_int bs \<and> be_int bs < 256 ^ length bs"
proof (induction bs rule: rev_induct)
  case Nil
  then show ?case by simp
next
  case (snoc b bs)
  have "0 \<le> uint b" "uint b < 256"
    using uint_lt2p [of b] by simp_all
  with snoc show ?case by simp
qed

lemma be_bytes_be_int: "be_bytes (length bs) (be_int bs) = bs"
proof (induction bs rule: rev_induct)
  case Nil
  then show ?case by simp
next
  case (snoc b bs)
  have b: "0 \<le> uint b" "uint b < 256"
    using uint_lt2p [of b] by simp_all
  then have d: "(be_int bs * 256 + uint b) div 256 = be_int bs" by simp
  have "uint (word_of_int (be_int bs * 256 + uint b) :: byte) = uint b"
    using b by (simp only: uint_word_of_int) simp
  then have "word_of_int (be_int bs * 256 + uint b) = (b :: byte)"
    by (rule word_uint_eqI)
  with snoc d show ?case by simp
qed

lemma pack_u_SomeD: "pack_u n v = Some bs \<Longrightarrow> length bs = n \<and> bs = be_bytes n v"
  by (auto simp: pack_u_def split: if_splits)

lemma pack_s_SomeD: "pack_s n v = Some bs \<Longrightarrow> length bs = n \<and> bs = be_bytes n v"
  by (auto simp: pack_s_def split: if_splits)

lemma unpack_u_pack_u [codec_simps]:
  assumes "pack_u n v = Some bs" and "off = length pre"
  shows "unpack_u n (pre @ bs @ post) off = Some v"
proof -
  from assms(1) have "length bs = n" "bs = be_bytes n v" "0 \<le> v" "v < 256 ^ n"
    by (auto simp: pack_u_def split: if_splits)
  then show ?thesis using assms(2)
    by (simp add: unpack_u_def be_int_be_bytes slice_append_exact')
qed

lemma to_signed_mod:
  assumes "- (256 ^ n div 2) \<le> v" "v < 256 ^ n div 2" "0 < n"
  shows "to_signed n (v mod 256 ^ n) = v"
proof (cases "0 \<le> v")
  case True
  then have "v mod 256 ^ n = v" using assms by (intro mod_pos_pos_trivial) linarith+
  with assms show ?thesis by (simp add: to_signed_def)
next
  case False
  have "even (256 ^ n :: int)" using assms by simp
  then have h: "(256 :: int) ^ n = 2 * (256 ^ n div 2)" by simp
  have "v mod 256 ^ n = (v + 256 ^ n) mod 256 ^ n" by simp
  also have "\<dots> = v + 256 ^ n"
    using assms h False by (intro mod_pos_pos_trivial) linarith+
  finally show ?thesis
    using assms h False by (simp add: to_signed_def)
qed

lemma unpack_s_pack_s [codec_simps]:
  assumes "pack_s n v = Some bs" and "off = length pre" and "0 < n"
  shows "unpack_s n (pre @ bs @ post) off = Some v"
proof -
  from assms(1) have "length bs = n" "bs = be_bytes n v"
    and r: "- (256 ^ n div 2) \<le> v" "v < 256 ^ n div 2"
    by (auto simp: pack_s_def split: if_splits)
  then show ?thesis using assms(2,3)
    by (simp add: unpack_s_def unpack_u_def be_int_be_bytes slice_append_exact' to_signed_mod)
qed

lemma unpack_u_range: "unpack_u n buf off = Some v \<Longrightarrow> 0 \<le> v \<and> v < 256 ^ n"
  using be_int_range [of "slice buf off n"]
  by (auto simp: unpack_u_def length_slice split: if_splits)

lemma unpack_s_range:
  assumes "unpack_s n buf off = Some v" and "0 < n"
  shows "- (256 ^ n div 2) \<le> v \<and> v < 256 ^ n div 2"
proof -
  obtain u where u: "unpack_u n buf off = Some u" and v: "v = to_signed n u"
    using assms(1) by (auto simp: unpack_s_def)
  have "(256 :: int) ^ n = 2 * (256 ^ n div 2)"
    using assms(2) by simp
  then show ?thesis
    using unpack_u_range [OF u] v by (auto simp: to_signed_def)
qed

lemma pack_u_unpack_u:
  assumes "unpack_u n buf off = Some v"
  shows "pack_u n v = Some (slice buf off n)"
proof -
  from assms have l: "length (slice buf off n) = n" and v: "v = be_int (slice buf off n)"
    by (auto simp: unpack_u_def length_slice split: if_splits)
  show ?thesis
    using unpack_u_range [OF assms] be_bytes_be_int [of "slice buf off n"] l v
    by (simp add: pack_u_def)
qed

lemma unpack_u_bound: "unpack_u n buf off = Some v \<Longrightarrow> off + n \<le> length buf"
  by (simp add: unpack_u_def split: if_splits)

lemma unpack_s_bound: "unpack_s n buf off = Some v \<Longrightarrow> off + n \<le> length buf"
  by (auto simp: unpack_s_def dest: unpack_u_bound)

end
