(* ===== verification/Exceptions.thy ===== *)
theory Exceptions
  imports Method_Spec Struct_Pack
begin

text \<open>
  exceptions.py: the AMQP exception classes with their reply codes, the subclass relation
  (as a partial order, so that \<open>isinstance\<close> is \<open>\<le>\<close>), the construction of an error from a
  broker's reply code, and the exceptions of the language that the modelled code can raise.
\<close>

section \<open>The class hierarchy\<close>

datatype amqp_class =
    AMQPError | ConnectionError | ChannelError
  | RecoverableChannelError | IrrecoverableChannelError
  | RecoverableConnectionError | IrrecoverableConnectionError
  | Blocked | ConsumerCancelled
  | ContentTooLarge | NoConsumers | ConnectionForced | InvalidPath | AccessRefused
  | NotFound | ResourceLocked | PreconditionFailed | FrameError | FrameSyntaxError
  | InvalidCommand | ChannelNotOpen | UnexpectedFrame | ResourceError | NotAllowed
  | AMQPNotImplementedError | InternalError

fun parent :: "amqp_class \<Rightarrow> amqp_class option" where
  "parent AMQPError = None"
| "parent ConnectionError = Some AMQPError"
| "parent ChannelError = Some AMQPError"
| "parent RecoverableChannelError = Some ChannelError"
| "parent IrrecoverableChannelError = Some ChannelError"
| "parent RecoverableConnectionError = Some ConnectionError"
| "parent IrrecoverableConnectionError = Some ConnectionError"
| "parent Blocked = Some RecoverableConnectionError"
| "parent ConsumerCancelled = Some RecoverableConnectionError"
| "parent ContentTooLarge = Some RecoverableChannelError"
| "parent NoConsumers = Some RecoverableChannelError"
| "parent ConnectionForced = Some RecoverableConnectionError"
| "parent InvalidPath = Some IrrecoverableConnectionError"
| "parent AccessRefused = Some IrrecoverableChannelError"
| "parent NotFound = Some IrrecoverableChannelError"
| "parent ResourceLocked = Some RecoverableChannelError"
| "parent PreconditionFailed = Some IrrecoverableChannelError"
| "parent FrameError = Some IrrecoverableConnectionError"
| "parent FrameSyntaxError = Some IrrecoverableConnectionError"
| "parent InvalidCommand = Some IrrecoverableConnectionError"
| "parent ChannelNotOpen = Some IrrecoverableConnectionError"
| "parent UnexpectedFrame = Some IrrecoverableConnectionError"
| "parent ResourceError = Some RecoverableConnectionError"
| "parent NotAllowed = Some IrrecoverableConnectionError"
| "parent AMQPNotImplementedError = Some IrrecoverableConnectionError"
| "parent InternalError = Some IrrecoverableConnectionError"

definition class_depth :: "amqp_class \<Rightarrow> nat" where
  "class_depth c =
    (if c = AMQPError then 0
     else if c \<in> {ConnectionError, ChannelError} then 1
     else if c \<in> {RecoverableChannelError, IrrecoverableChannelError,
                  RecoverableConnectionError, IrrecoverableConnectionError} then 2
     else 3)"

lemma class_depth_parent: "parent c = Some d \<Longrightarrow> class_depth d < class_depth c"
  by (cases c) (auto simp: class_depth_def)

text \<open>The classes an \<open>isinstance\<close> test on a \<open>c\<close> object accepts, nearest first.\<close>

function mro :: "amqp_class \<Rightarrow> amqp_class list" where
  "mro c = c # (case parent c of None \<Rightarrow> [] | Some d \<Rightarrow> mro d)"
  by pat_completeness auto
termination
  by (relation "measure class_depth") (auto dest: class_depth_parent)

declare mro.simps [simp del]

lemma mro_self: "c \<in> set (mro c)"
  by (subst mro.simps) simp

lemma mro_depth: "d \<in> set (mro c) \<Longrightarrow> d = c \<or> class_depth d < class_depth c"
proof (induction c rule: mro.induct)
  case (1 c)
  show ?case
  proof (cases "parent c")
    case None
    with "1.prems" show ?thesis by (simp add: mro.simps [of c])
  next
    case (Some p)
    with "1.prems" have "d = c \<or> d \<in> set (mro p)" by (simp add: mro.simps [of c])
    then show ?thesis using "1.IH" [OF Some] class_depth_parent [OF Some] by auto
  qed
qed

lemma mro_trans: "d \<in> set (mro c) \<Longrightarrow> e \<in> set (mro d) \<Longrightarrow> e \<in> set (mro c)"
proof (induction c rule: mro.induct)
  case (1 c)
  show ?case
  proof (cases "d = c")
    case True
    with "1.prems" show ?thesis by simp
  next
    case False
    with "1.prems"(1) obtain p where p: "parent c = Some p" "d \<in> set (mro p)"
      by (cases "parent c") (auto simp: mro.simps [of c])
    then have "e \<in> set (mro p)" using "1.IH" "1.prems"(2) by blast
    with p show ?thesis by (simp add: mro.simps [of c])
  qed
qed

instantiation amqp_class :: order
begin

definition less_eq_amqp_class :: "amqp_class \<Rightarrow> amqp_class \<Rightarrow> bool" where
  "less_eq_amqp_class c d \<longleftrightarrow> d \<in> set (mro c)"

definition less_amqp_class :: "amqp_class \<Rightarrow> amqp_class \<Rightarrow> bool" where
  "less_amqp_class c d \<longleftrightarrow> c \<le> d \<and> c \<noteq> d"

instance
proof
  fix c d e :: amqp_class
  have anti: "c \<le> d \<Longrightarrow> d \<le> c \<Longrightarrow> c = d"
    using mro_depth [of c d] mro_depth [of d c] by (auto simp: less_eq_amqp_class_def)
  then show "c \<le> d \<Longrightarrow> d \<le> c \<Longrightarrow> c = d" .
  show "c < d \<longleftrightarrow> c \<le> d \<and> \<not> d \<le> c"
    using anti by (auto simp: less_amqp_class_def less_eq_amqp_class_def mro_self)
  show "c \<le> c" by (simp add: less_eq_amqp_class_def mro_self)
  show "c \<le> d \<Longrightarrow> d \<le> e \<Longrightarrow> c \<le> e"
    using mro_trans by (auto simp: less_eq_amqp_class_def)
qed

end

text \<open>\<open>isinstance(c(), d)\<close>, by evaluation of the chain of parents.\<close>

lemma class_le_iff:
  "c \<le> (d :: amqp_class) \<longleftrightarrow> c = d \<or> (case parent c of None \<Rightarrow> False | Some p \<Rightarrow> p \<le> d)"
  by (auto simp: less_eq_amqp_class_def mro.simps [of c] split: option.splits)

fun class_code :: "amqp_class \<Rightarrow> int" where
  "class_code ContentTooLarge = 311"
| "class_code NoConsumers = 313"
| "class_code ConnectionForced = 320"
| "class_code InvalidPath = 402"
| "class_code AccessRefused = 403"
| "class_code NotFound = 404"
| "class_code ResourceLocked = 405"
| "class_code PreconditionFailed = 406"
| "class_code FrameError = 501"
| "class_code FrameSyntaxError = 502"
| "class_code InvalidCommand = 503"
| "class_code ChannelNotOpen = 504"
| "class_code UnexpectedFrame = 505"
| "class_code ResourceError = 506"
| "class_code NotAllowed = 530"
| "class_code AMQPNotImplementedError = 540"
| "class_code InternalError = 541"
| "class_code _ = 0"

section \<open>Error objects\<close>

text \<open>
  METHOD_NAME_MAP, with the second half the module adds in its last loop: the same names
  under the method id packed into one 32-bit number.
\<close>

definition METHOD_NAME_MAP :: "(method_sig \<times> string) list" where
  "METHOD_NAME_MAP =
    [((10, 10), ''Connection.start''),
     ((10, 11), ''Connection.start_ok''),
     ((10, 20), ''Connection.secure''),
     ((10, 21), ''Connection.secure_ok''),
     ((10, 30), ''Connection.tune''),
     ((10, 31), ''Connection.tune_ok''),
     ((10, 40), ''Connection.open''),
     ((10, 41), ''Connection.open_ok''),
     ((10, 50), ''Connection.close''),
     ((10, 51), ''Connection.close_ok''),
     ((20, 10), ''Channel.open''),
     ((20, 11), ''Channel.open_ok''),
     ((20, 20), ''Channel.flow''),
     ((20, 21), ''Channel.flow_ok''),
     ((20, 40), ''Channel.close''),
     ((20, 41), ''Channel.close_ok''),
     ((30, 10), ''Access.request''),
     ((30, 11), ''Access.request_ok''),
     ((40, 10), ''Exchange.declare''),
     ((40, 11), ''Exchange.declare_ok''),
     ((40, 20), ''Exchange.delete''),
     ((40, 21), ''Exchange.delete_ok''),
     ((40, 30), ''Exchange.bind''),
     ((40, 31), ''Exchange.bind_ok''),
     ((40, 40), ''Exchange.unbind''),
     ((40, 41), ''Exchange.unbind_ok''),
     ((50, 10), ''Queue.declare''),
     ((50, 11), ''Queue.declare_ok''),
     ((50, 20), ''Queue.bind''),
     ((50, 21), ''Queue.bind_ok''),
     ((50, 30), ''Queue.purge''),
     ((50, 31), ''Queue.purge_ok''),
     ((50, 40), ''Queue.delete''),
     ((50, 41), ''Queue.delete_ok''),
     ((50, 50), ''Queue.unbind''),
     ((50, 51), ''Queue.unbind_ok''),
     ((60, 10), ''Basic.qos''),
     ((60, 11), ''Basic.qos_ok''),
     ((60, 20), ''Basic.consume''),
     ((60, 21), ''Basic.consume_ok''),
     ((60, 30), ''Basic.cancel''),
     ((60, 31), ''Basic.cancel_ok''),
     ((60, 40), ''Basic.publish''),
     ((60, 50), ''Basic.return''),
     ((60, 60), ''Basic.deliver''),
     ((60, 70), ''Basic.get''),
     ((60, 71), ''Basic.get_ok''),
     ((60, 72), ''Basic.get_empty''),
     ((60, 80), ''Basic.ack''),
     ((60, 90), ''Basic.reject''),
     ((60, 100), ''Basic.recover_async''),
     ((60, 110), ''Basic.recover''),
     ((60, 111), ''Basic.recover_ok''),
     ((60, 120), ''Basic.nack''),
     ((90, 10), ''Tx.select''),
     ((90, 11), ''Tx.select_ok''),
     ((90, 20), ''Tx.commit''),
     ((90, 21), ''Tx.commit_ok''),
     ((90, 30), ''Tx.rollback''),
     ((90, 31), ''Tx.rollback_ok''),
     ((85, 10), ''Confirm.select''),
     ((85, 11), ''Confirm.select_ok'')]"

definition METHOD_NAME_MAP_packed :: "(int \<times> string) list" where
  "METHOD_NAME_MAP_packed =
     map (\<lambda>((c, m), name). (be_int (be_bytes 2 c @ be_bytes 2 m), name)) METHOD_NAME_MAP"

text \<open>
  An exception instance. \<open>reply_text\<close> is the text the constructor is given; where the source
  formats values into a diagnostic text, the model keeps the template of the text.
\<close>

record amqp_error =
  err_class :: amqp_class
  message :: "pystr option"
  reply_code :: int
  reply_text :: "pystr option"
  err_sig :: "method_sig option"
  method_name :: string

definition amqp_error_init ::
    "amqp_class \<Rightarrow> pystr option \<Rightarrow> method_sig option \<Rightarrow> string option \<Rightarrow> int option \<Rightarrow> amqp_error"
  where
  "amqp_error_init cls text sig name code =
    \<lparr>err_class = cls,
     message = text,
     reply_code = (case code of None \<Rightarrow> class_code cls
                   | Some c \<Rightarrow> if c = 0 then class_code cls else c),
     reply_text = text,
     err_sig = sig,
     method_name =
       (let n = (case name of None \<Rightarrow> [] | Some n \<Rightarrow> n)
        in case sig of
          None \<Rightarrow> n
        | Some sg \<Rightarrow>
            if n = [] then (case map_of METHOD_NAME_MAP sg of None \<Rightarrow> [] | Some m \<Rightarrow> m)
            else n)\<rparr>"

definition ERROR_MAP :: "(int \<times> amqp_class) list" where
  "ERROR_MAP =
    [(311, ContentTooLarge),
     (313, NoConsumers),
     (320, ConnectionForced),
     (402, InvalidPath),
     (403, AccessRefused),
     (404, NotFound),
     (405, ResourceLocked),
     (406, PreconditionFailed),
     (501, FrameError),
     (502, FrameSyntaxError),
     (503, InvalidCommand),
     (504, ChannelNotOpen),
     (505, UnexpectedFrame),
     (506, ResourceError),
     (530, NotAllowed),
     (540, AMQPNotImplementedError),
     (541, InternalError)]"

definition error_for_code ::
    "int \<Rightarrow> pystr \<Rightarrow> method_sig \<Rightarrow> amqp_class \<Rightarrow> amqp_error" where
  "error_for_code code text meth dflt =
    (case map_of ERROR_MAP code of
       Some cls \<Rightarrow> amqp_error_init cls (Some text) (Some meth) None (Some code)
     | None \<Rightarrow> amqp_error_init dflt (Some text) (Some meth) None (Some code))"

section \<open>The text of an error\<close>

text \<open>What \<open>format\<close> makes of an integer, and of the pair of a method signature.\<close>

fun decimal_digits :: "nat \<Rightarrow> pystr" where
  "decimal_digits n = (if n < 10 then [48 + n] else decimal_digits (n div 10) @ [48 + n mod 10])"

declare decimal_digits.simps [simp del]

definition str_int :: "int \<Rightarrow> pystr" where
  "str_int i = (if i < 0 then 45 # decimal_digits (nat (- i)) else decimal_digits (nat i))"

definition str_sig :: "method_sig \<Rightarrow> pystr" where
  "str_sig sig = pys ''('' @ str_int (fst sig) @ pys '', '' @ str_int (snd sig) @ pys '')''"

fun class_name :: "amqp_class \<Rightarrow> string" where
  "class_name AMQPError = ''AMQPError''"
| "class_name ConnectionError = ''ConnectionError''"
| "class_name ChannelError = ''ChannelError''"
| "class_name RecoverableChannelError = ''RecoverableChannelError''"
| "class_name IrrecoverableChannelError = ''IrrecoverableChannelError''"
| "class_name RecoverableConnectionError = ''RecoverableConnectionError''"
| "class_name IrrecoverableConnectionError = ''IrrecoverableConnectionError''"
| "class_name Blocked = ''Blocked''"
| "class_name ConsumerCancelled = ''ConsumerCancelled''"
| "class_name ContentTooLarge = ''ContentTooLarge''"
| "class_name NoConsumers = ''NoConsumers''"
| "class_name ConnectionForced = ''ConnectionForced''"
| "class_name InvalidPath = ''InvalidPath''"
| "class_name AccessRefused = ''AccessRefused''"
| "class_name NotFound = ''NotFound''"
| "class_name ResourceLocked = ''ResourceLocked''"
| "class_name PreconditionFailed = ''PreconditionFailed''"
| "class_name FrameError = ''FrameError''"
| "class_name FrameSyntaxError = ''FrameSyntaxError''"
| "class_name InvalidCommand = ''InvalidCommand''"
| "class_name ChannelNotOpen = ''ChannelNotOpen''"
| "class_name UnexpectedFrame = ''UnexpectedFrame''"
| "class_name ResourceError = ''ResourceError''"
| "class_name NotAllowed = ''NotAllowed''"
| "class_name AMQPNotImplementedError = ''AMQPNotImplementedError''"
| "class_name InternalError = ''InternalError''"

text \<open>\<open>AMQPError.method\<close>, as text, and \<open>AMQPError.__str__\<close>.\<close>

definition error_method :: "amqp_error \<Rightarrow> pystr option" where
  "error_method e = (if method_name e \<noteq> [] then Some (pys (method_name e)) else map_option str_sig (err_sig e))"

definition error_str :: "amqp_error \<Rightarrow> pystr" where
  "error_str e = (case error_method e of
     Some m \<Rightarrow> m @ pys '': ('' @ str_int (reply_code e) @ pys '') ''
       @ (case reply_text e of None \<Rightarrow> pys ''None'' | Some t \<Rightarrow> t)
   | None \<Rightarrow> (case reply_text e of
       Some t \<Rightarrow> if t \<noteq> [] then t else pys ''<'' @ pys (class_name (err_class e)) @ pys '': unknown error>''
     | None \<Rightarrow> pys ''<'' @ pys (class_name (err_class e)) @ pys '': unknown error>''))"

text \<open>An error the server reported ends with the server's text.\<close>

lemma error_for_code_str:
  "\<exists>prefix. error_str (error_for_code code text sig dflt) = prefix @ text"
  by (auto simp: error_str_def error_for_code_def amqp_error_init_def error_method_def split: option.splits)

section \<open>Everything the modelled code can raise\<close>

text \<open>
  \<open>Amqp\<close> is an exception of the library; the others are exceptions of Python and its
  standard library. \<open>OSErr\<close> carries the errno (\<open>None\<close> for an \<open>OSError\<close> built from a
  message only), \<open>SSLErr\<close> the part of the message that the code tests and the errno. \<open>UserExn\<close> is raised
  by a callback of the application. Two are no exceptions of the program: \<open>Waiting\<close> says that
  a blocking call has not returned yet when the modelled input ends, and \<open>OutOfFuel\<close> is what
  the fuelled functions return when their fuel ends, each with a theorem that it does not.
\<close>

datatype ssl_kind = SSL_timed_out | SSL_not_complete | SSL_other

datatype exn =
    Amqp amqp_error
  | MessageNacked
  | StructError | IndexError | KeyError | TypeError | ValueError | AttributeError
  | OverflowError | UnicodeDecodeError | UnicodeEncodeError | LookupError
  | NotImplementedExn | AssertionExn
  | SocketTimeout
  | OSErr "int option"
  | SSLErr ssl_kind "int option"
  | UserExn nat
  | Waiting
  | OutOfFuel

definition raise_amqp :: "amqp_class \<Rightarrow> string \<Rightarrow> exn" where
  "raise_amqp cls text = Amqp (amqp_error_init cls (Some (pys text)) None None None)"

definition is_instance :: "exn \<Rightarrow> amqp_class \<Rightarrow> bool" where
  "is_instance e cls = (case e of Amqp a \<Rightarrow> err_class a \<le> cls | _ \<Rightarrow> False)"

definition is_ValueError :: "exn \<Rightarrow> bool" where
  "is_ValueError e \<longleftrightarrow> e \<in> {ValueError, UnicodeDecodeError, UnicodeEncodeError}"

text \<open>\<open>socket.timeout\<close> and \<open>ssl.SSLError\<close> are subclasses of \<open>OSError\<close>.\<close>

definition is_OSError :: "exn \<Rightarrow> bool" where
  "is_OSError e = (case e of SocketTimeout \<Rightarrow> True | OSErr _ \<Rightarrow> True | SSLErr _ _ \<Rightarrow> True
                   | _ \<Rightarrow> False)"

definition exn_errno :: "exn \<Rightarrow> int option" where
  "exn_errno e = (case e of OSErr n \<Rightarrow> n | SSLErr _ n \<Rightarrow> n | _ \<Rightarrow> None)"

definition is_SSLError :: "exn \<Rightarrow> bool" where
  "is_SSLError e = (case e of SSLErr _ _ \<Rightarrow> True | _ \<Rightarrow> False)"

section \<open>Facts\<close>

lemma ERROR_MAP_code: "map_of ERROR_MAP code = Some cls \<Longrightarrow> class_code cls = code"
  by (auto simp: ERROR_MAP_def split: if_splits)

lemma ERROR_MAP_complete:
  "class_code cls \<noteq> 0 \<Longrightarrow> map_of ERROR_MAP (class_code cls) = Some cls"
  by (cases cls) (simp_all add: ERROR_MAP_def)

lemma error_for_code_class:
  "err_class (error_for_code code text meth dflt) =
     (case map_of ERROR_MAP code of Some cls \<Rightarrow> cls | None \<Rightarrow> dflt)"
  by (simp add: error_for_code_def amqp_error_init_def split: option.splits)

end
