(* ===== verification/Values.thy ===== *)
theory Values
  imports Utf8 Exceptions
begin

text \<open>
  The Python values that serialization.py writes and reads, as a datatype with one
  constructor per type its \<open>isinstance\<close> chain tests, and the operations of the language
  and its standard library that the code applies to them: truth value, \<open>int()\<close>, \<open>len()\<close>,
  IEEE 754 conversion as \<open>struct\<close> does it, decimals and dates.
\<close>

section \<open>IEEE 754 numbers\<close>

text \<open>
  A Python float is a binary64 number, kept as its 64-bit pattern; \<open>f32\<close> patterns are what
  the format \<open>>f\<close> carries. Narrowing rounds to nearest, ties to even.
\<close>

type_synonym f64 = "64 word"
type_synonym f32 = "32 word"

fun bitlen :: "nat \<Rightarrow> nat" where
  "bitlen n = (if n = 0 then 0 else Suc (bitlen (n div 2)))"

declare bitlen.simps [simp del]

definition round_half_even :: "nat \<Rightarrow> nat \<Rightarrow> nat" where
  "round_half_even n d =
    (let q = n div d; r = n mod d
     in if 2 * r < d then q else if 2 * r > d then q + 1 else q + q mod 2)"

text \<open>
  The pattern without sign of the float nearest to \<open>n / d\<close> (both positive), with \<open>p\<close> bits
  of precision and \<open>2 ^ emin\<close> the least subnormal.
\<close>

definition round_float :: "nat \<Rightarrow> int \<Rightarrow> nat \<Rightarrow> nat \<Rightarrow> nat" where
  "round_float p emin n d =
    (let k = int (bitlen n) - int (bitlen d);
         below = (if 0 \<le> k then n < d * 2 ^ nat k else n * 2 ^ nat (- k) < d);
         l = (if below then k - 1 else k);
         e = max (l - int (p - 1)) emin;
         m = (if 0 \<le> e then round_half_even n (d * 2 ^ nat e)
              else round_half_even (n * 2 ^ nat (- e)) d)
     in nat (e - emin) * 2 ^ (p - 1) + m)"

definition f64_inf :: nat where "f64_inf = 2047 * 2 ^ 52"
definition f32_inf :: nat where "f32_inf = 255 * 2 ^ 23"

definition f64_sign :: "f64 \<Rightarrow> bool" where "f64_sign w = (2 ^ 63 \<le> unat w)"
definition f64_mag :: "f64 \<Rightarrow> nat" where "f64_mag w = unat w mod 2 ^ 63"

definition f64_of :: "bool \<Rightarrow> nat \<Rightarrow> f64" where
  "f64_of s mag = word_of_nat ((if s then 2 ^ 63 else 0) + mag)"

text \<open>A finite magnitude as a fraction.\<close>

definition mag_frac :: "nat \<Rightarrow> int \<Rightarrow> nat \<Rightarrow> nat \<times> nat" where
  "mag_frac p emin mag =
    (let ex = mag div 2 ^ (p - 1); fr = mag mod 2 ^ (p - 1);
         m = (if ex = 0 then fr else fr + 2 ^ (p - 1));
         e = emin + int (if ex = 0 then 0 else ex - 1)
     in if 0 \<le> e then (m * 2 ^ nat e, 1) else (m, 2 ^ nat (- e)))"

text \<open>\<open>pack('>f', v)\<close> of a float: \<open>OverflowError\<close> when a finite value rounds to infinity.\<close>

definition f64_to_f32 :: "f64 \<Rightarrow> exn + f32" where
  "f64_to_f32 w =
    (let s = (if f64_sign w then 2 ^ 31 else 0); mag = f64_mag w
     in if mag > f64_inf then
          Inr (word_of_nat (s + f32_inf + 2 ^ 22 + (mag mod 2 ^ 51) div 2 ^ 29))
        else if mag = f64_inf then Inr (word_of_nat (s + f32_inf))
        else if mag = 0 then Inr (word_of_nat s)
        else (case mag_frac 53 (- 1074) mag of (n, d) \<Rightarrow>
          let m = round_float 24 (- 149) n d
          in if m \<ge> f32_inf then Inl OverflowError else Inr (word_of_nat (s + m))))"

definition f32_to_f64 :: "f32 \<Rightarrow> f64" where
  "f32_to_f64 w =
    (let s = (2 ^ 31 \<le> unat w); mag = unat w mod 2 ^ 31
     in if mag > f32_inf then f64_of s (f64_inf + 2 ^ 51 + (mag mod 2 ^ 22) * 2 ^ 29)
        else if mag = f32_inf then f64_of s f64_inf
        else if mag = 0 then f64_of s 0
        else (case mag_frac 24 (- 149) mag of (n, d) \<Rightarrow>
          f64_of s (round_float 53 (- 1074) n d)))"

text \<open>\<open>float(n)\<close> of an integer: \<open>None\<close> when it is too large.\<close>

definition int_to_f64 :: "int \<Rightarrow> f64 option" where
  "int_to_f64 i =
    (if i = 0 then Some 0
     else let m = round_float 53 (- 1074) (nat \<bar>i\<bar>) 1
          in if m \<ge> f64_inf then None else Some (f64_of (i < 0) m))"

text \<open>\<open>int(f)\<close>: truncation; infinities and NaNs raise.\<close>

definition f64_to_int :: "f64 \<Rightarrow> exn + int" where
  "f64_to_int w =
    (let mag = f64_mag w
     in if mag > f64_inf then Inl ValueError
        else if mag = f64_inf then Inl OverflowError
        else (case mag_frac 53 (- 1074) mag of (n, d) \<Rightarrow>
          Inr ((if f64_sign w then - 1 else 1) * int (n div d))))"

section \<open>Decimals\<close>

text \<open>
  \<open>decimal.Decimal\<close>: a sign, a coefficient and an exponent of ten, or a special value
  (an infinity, or a NaN that may be signalling).
\<close>

datatype decimal = DFin bool nat int | DInf bool | DNaN bool

text \<open>
  \<open>Decimal(n) / Decimal(10 ** d)\<close> in the default context: for the sizes the reader can
  produce the quotient is exact, and the division gives it the exponent nearest to 0, so
  trailing zeros are dropped while the exponent is negative.
\<close>

fun strip_zeros :: "nat \<Rightarrow> nat \<Rightarrow> nat \<times> nat" where
  "strip_zeros c 0 = (c, 0)"
| "strip_zeros c (Suc d) = (if c mod 10 = 0 then strip_zeros (c div 10) d else (c, Suc d))"

definition decimal_div_pow10 :: "int \<Rightarrow> nat \<Rightarrow> decimal" where
  "decimal_div_pow10 n d =
    (case strip_zeros (nat \<bar>n\<bar>) d of (c, k) \<Rightarrow> DFin (n < 0) c (- int k))"

text \<open>\<open>float(d)\<close>, correctly rounded; a signalling NaN has none.\<close>

definition decimal_to_f64 :: "decimal \<Rightarrow> f64 option" where
  "decimal_to_f64 v = (case v of
     DInf s \<Rightarrow> Some (f64_of s f64_inf)
   | DNaN sig \<Rightarrow> if sig then None else Some (f64_of False (f64_inf + 2 ^ 51))
   | DFin s c e \<Rightarrow>
       if c = 0 then Some (f64_of s 0)
       else Some (f64_of s (min f64_inf
         (if 0 \<le> e then round_float 53 (- 1074) (c * 10 ^ nat e) 1
          else round_float 53 (- 1074) c (10 ^ nat (- e))))))"

section \<open>Values\<close>

text \<open>
  \<open>VDateTime t u\<close> is a datetime by its instant in UTC: whole seconds since 1970 and the
  microseconds after them. \<open>VList\<close> stands for lists and tuples, which the code treats alike.
  A dict is its items in insertion order. \<open>VOther\<close> is an object of any other type, without
  length, iteration or numeric conversion.
\<close>

datatype pykey = KStr pystr | KBytes bytes | KOther

datatype pyval =
    VNone | VBool bool | VInt int | VFloat f64 | VStr pystr | VBytes bytes
  | VDecimal decimal | VDateTime int nat
  | VDict "(pykey \<times> pyval) list" | VList "pyval list" | VOther

fun truthy :: "pyval \<Rightarrow> bool" where
  "truthy VNone = False"
| "truthy (VBool b) = b"
| "truthy (VInt i) = (i \<noteq> 0)"
| "truthy (VFloat w) = (f64_mag w \<noteq> 0)"
| "truthy (VStr s) = (s \<noteq> [])"
| "truthy (VBytes b) = (b \<noteq> [])"
| "truthy (VDecimal (DFin s c e)) = (c \<noteq> 0)"
| "truthy (VDecimal _) = True"
| "truthy (VDateTime t u) = True"
| "truthy (VDict kvs) = (kvs \<noteq> [])"
| "truthy (VList xs) = (xs \<noteq> [])"
| "truthy VOther = True"

text \<open>\<open>val or d\<close>.\<close>

definition py_or :: "pyval \<Rightarrow> pyval \<Rightarrow> pyval" where
  "py_or v d = (if truthy v then v else d)"

text \<open>The value \<open>struct\<close> takes for an integer format: an int, and so also a bool.\<close>

fun as_index :: "pyval \<Rightarrow> exn + int" where
  "as_index (VInt i) = Inr i"
| "as_index (VBool b) = Inr (of_bool b)"
| "as_index _ = Inl StructError"

text \<open>The value \<open>struct\<close> takes for a float format.\<close>

fun as_float :: "pyval \<Rightarrow> exn + f64" where
  "as_float (VFloat w) = Inr w"
| "as_float (VInt i) = get_or StructError (int_to_f64 i)"
| "as_float (VBool b) = get_or StructError (int_to_f64 (of_bool b))"
| "as_float (VDecimal d) = get_or StructError (decimal_to_f64 d)"
| "as_float _ = Inl StructError"

text \<open>
  \<open>int(text)\<close>: optional white space and sign, then decimal digits with single underscores
  between them. Only ASCII is read; the digits of other scripts, which Python also accepts,
  are a \<open>ValueError\<close> here.
\<close>

definition is_space :: "nat \<Rightarrow> bool" where
  "is_space c \<longleftrightarrow> c \<in> {9, 10, 11, 12, 13, 32}"

fun parse_digits :: "nat \<Rightarrow> nat list \<Rightarrow> nat option" where
  "parse_digits acc [] = Some acc"
| "parse_digits acc (c # cs) =
    (if 48 \<le> c \<and> c \<le> 57 then parse_digits (acc * 10 + (c - 48)) cs
     else if c = 95 then (case cs of
         d # ds \<Rightarrow> if 48 \<le> d \<and> d \<le> 57 then parse_digits (acc * 10 + (d - 48)) ds else None
       | [] \<Rightarrow> None)
     else None)"

definition parse_nat :: "nat list \<Rightarrow> nat option" where
  "parse_nat cs = (case cs of
     c # _ \<Rightarrow> if 48 \<le> c \<and> c \<le> 57 then parse_digits 0 cs else None
   | [] \<Rightarrow> None)"

definition parse_int :: "nat list \<Rightarrow> int option" where
  "parse_int s =
    (let t = rev (dropWhile is_space (rev (dropWhile is_space s)))
     in case t of
       [] \<Rightarrow> None
     | c # cs \<Rightarrow>
         if c = 45 then map_option (\<lambda>n. - int n) (parse_nat cs)
         else if c = 43 then map_option int (parse_nat cs)
         else map_option int (parse_nat t))"

fun py_int :: "pyval \<Rightarrow> exn + int" where
  "py_int (VInt i) = Inr i"
| "py_int (VBool b) = Inr (of_bool b)"
| "py_int (VFloat w) = f64_to_int w"
| "py_int (VStr s) = get_or ValueError (parse_int s)"
| "py_int (VBytes b) = get_or ValueError (parse_int (map unat b))"
| "py_int (VDecimal (DFin s c e)) =
    Inr ((if s then - 1 else 1) *
         int (if 0 \<le> e then c * 10 ^ nat e else c div 10 ^ nat (- e)))"
| "py_int (VDecimal (DInf s)) = Inl OverflowError"
| "py_int (VDecimal (DNaN s)) = Inl ValueError"
| "py_int _ = Inl TypeError"

text \<open>The items \<open>for v in x\<close> yields.\<close>

fun py_iter :: "pyval \<Rightarrow> exn + pyval list" where
  "py_iter (VList xs) = Inr xs"
| "py_iter (VStr s) = Inr (map (\<lambda>c. VStr [c]) s)"
| "py_iter (VBytes b) = Inr (map (\<lambda>w. VInt (uint w)) b)"
| "py_iter (VDict kvs) = Inr (map (\<lambda>kv. case fst kv of
      KStr s \<Rightarrow> VStr s | KBytes b \<Rightarrow> VBytes b | KOther \<Rightarrow> VOther) kvs)"
| "py_iter _ = Inl TypeError"

text \<open>
  \<open>datetime.fromtimestamp(val, tz=utc)\<close> of an unsigned 64-bit count of seconds: years after
  9999 raise \<open>ValueError\<close>, then the C library's \<open>gmtime\<close> overflows (\<open>EOVERFLOW\<close>), then the
  value does not fit the platform's \<open>time_t\<close>.
\<close>

definition max_timestamp :: int where "max_timestamp = 253402300799"

definition from_timestamp :: "int \<Rightarrow> exn + pyval" where
  "from_timestamp v =
    (if v \<le> max_timestamp then Inr (VDateTime v 0)
     else if v \<le> 67768036191676799 then Inl ValueError
     else if v < 2 ^ 63 then Inl (OSErr (Some 75))
     else Inl OverflowError)"

text \<open>\<open>d[k] = v\<close>: an existing key keeps its place, a new one goes to the end.\<close>

definition dict_set :: "pykey \<Rightarrow> pyval \<Rightarrow> (pykey \<times> pyval) list \<Rightarrow> (pykey \<times> pyval) list" where
  "dict_set k v d = AList.update k v d"

lemma decimal_exact_10:
  "strip_zeros c d = (c', k) \<Longrightarrow> k \<le> d \<and> c = c' * 10 ^ (d - k)"
proof (induction c d rule: strip_zeros.induct)
  case (1 c)
  then show ?case by simp
next
  case (2 c d)
  show ?case
  proof (cases "c mod 10 = 0")
    case True
    with 2 have "k \<le> d" "c div 10 = c' * 10 ^ (d - k)" by auto
    moreover have "c = c div 10 * 10" using True by (simp add: mult.commute mod_0_imp_dvd)
    ultimately show ?thesis by (simp add: Suc_diff_le)
  next
    case False
    with "2.prems" show ?thesis by auto
  qed
qed

end
