(* ===== verification/Serialization.thy ===== *)
theory Serialization
  imports Values
begin

text \<open>
  The wire format of serialization.py: \<open>_write_item\<close>, \<open>_write_table\<close>, \<open>_write_array\<close> and
  \<open>dumps\<close> produce it, \<open>_read_item\<close> and \<open>loads\<close> read it. Buffers are read by index, as in
  the source, so an offset may run past the end of a truncated buffer. The mutually
  recursive readers are fuelled with one unit per byte left in the buffer and one or two
  more; theory Reader_Total shows that this is always enough.
\<close>

text \<open>\<open>struct\<close> errors as the exception, and the type octets of table fields.\<close>

definition spack_u :: "nat \<Rightarrow> int \<Rightarrow> exn + bytes" where
  "spack_u n v = get_or StructError (pack_u n v)"

definition spack_s :: "nat \<Rightarrow> int \<Rightarrow> exn + bytes" where
  "spack_s n v = get_or StructError (pack_s n v)"

definition sunpack_u :: "nat \<Rightarrow> bytes \<Rightarrow> nat \<Rightarrow> exn + int" where
  "sunpack_u n buf off = get_or StructError (unpack_u n buf off)"

definition sunpack_s :: "nat \<Rightarrow> bytes \<Rightarrow> nat \<Rightarrow> exn + int" where
  "sunpack_s n buf off = get_or StructError (unpack_s n buf off)"

definition tagb :: "char \<Rightarrow> byte" where
  "tagb c = word_of_nat (of_char c)"

text \<open>\<open>pstr_t(raw)\<close>: decode or raise.\<close>

definition pstr_t :: "bytes \<Rightarrow> exn + pystr" where
  "pstr_t raw = get_or UnicodeDecodeError (utf8_decode raw)"

section \<open>Writing\<close>

text \<open>\<open>pack('B', len(k)); k\<close> and the like: a length prefix of \<open>n\<close> bytes.\<close>

definition with_length :: "nat \<Rightarrow> bytes \<Rightarrow> exn + bytes" where
  "with_length n b = bindE (spack_u n (int (length b))) (\<lambda>l. Inr (l @ b))"

definition write_key :: "pykey \<Rightarrow> exn + bytes" where
  "write_key k = (case k of
     KStr s \<Rightarrow> with_length 1 (utf8_encode s)
   | KBytes b \<Rightarrow> with_length 1 b
   | KOther \<Rightarrow> Inl TypeError)"

text \<open>\<open>try: _write_item(...) except ValueError: raise FrameSyntaxError(...)\<close>.\<close>

definition value_error_as :: "string \<Rightarrow> exn + 'a \<Rightarrow> exn + 'a" where
  "value_error_as text r = (case r of
     Inl e \<Rightarrow> if is_ValueError e then Inl (raise_amqp FrameSyntaxError text) else Inl e
   | Inr x \<Rightarrow> Inr x)"

definition ILLEGAL_TABLE_TYPE :: string where
  "ILLEGAL_TABLE_TYPE = ''Table type {0!r} not handled by amqp.''"

definition ILLEGAL_TABLE_TYPE_WITH_KEY :: string where
  "ILLEGAL_TABLE_TYPE_WITH_KEY =
     ''Table type {0!r} for key {1!r} not handled by amqp. [value: {2!r}]''"

definition ILLEGAL_TABLE_TYPE_WITH_VALUE :: string where
  "ILLEGAL_TABLE_TYPE_WITH_VALUE =
     ''Table type {0!r} not handled by amqp. [value: {1!r}]''"

fun write_item :: "pyval \<Rightarrow> exn + bytes"
  and write_entries :: "(pykey \<times> pyval) list \<Rightarrow> exn + bytes"
  and write_elems :: "pyval list \<Rightarrow> exn + bytes"
where
  "write_item (VStr s) =
     bindE (with_length 4 (utf8_encode s)) (\<lambda>d. Inr (tagb (CHR ''S'') # d))"
| "write_item (VBytes b) =
     bindE (with_length 4 b) (\<lambda>d. Inr (tagb (CHR ''S'') # d))"
| "write_item (VBool b) =
     bindE (spack_u 1 (of_bool b)) (\<lambda>d. Inr (tagb (CHR ''t'') # d))"
| "write_item (VFloat w) =
     bindE (spack_u 8 (uint w)) (\<lambda>d. Inr (tagb (CHR ''d'') # d))"
| "write_item (VInt v) =
     (if v > 2147483647 \<or> v < - 2147483647
      then bindE (spack_s 8 v) (\<lambda>d. Inr (tagb (CHR ''L'') # d))
      else bindE (spack_s 4 v) (\<lambda>d. Inr (tagb (CHR ''I'') # d)))"
| "write_item (VDecimal v) = (case v of
     DFin sign c e \<Rightarrow>
       bindE (spack_u 1 (- e)) (\<lambda>x.
       bindE (spack_s 4 (if sign then - int c else int c)) (\<lambda>y.
       Inr (tagb (CHR ''D'') # x @ y)))
   | _ \<Rightarrow> Inl TypeError)"
| "write_item (VDateTime t u) =
     bindE (spack_u 8 t) (\<lambda>d. Inr (tagb (CHR ''T'') # d))"
| "write_item (VDict kvs) =
     bindE (write_entries kvs) (\<lambda>data.
     bindE (with_length 4 data) (\<lambda>d. Inr (tagb (CHR ''F'') # d)))"
| "write_item (VList xs) =
     bindE (write_elems xs) (\<lambda>data.
     bindE (with_length 4 data) (\<lambda>d. Inr (tagb (CHR ''A'') # d)))"
| "write_item VNone = Inr [tagb (CHR ''V'')]"
| "write_item VOther = Inl ValueError"
| "write_entries [] = Inr []"
| "write_entries ((k, v) # kvs) =
     bindE (write_key k) (\<lambda>kb.
     bindE (value_error_as ILLEGAL_TABLE_TYPE_WITH_KEY (write_item v)) (\<lambda>vb.
     bindE (write_entries kvs) (\<lambda>rest. Inr (kb @ vb @ rest))))"
| "write_elems [] = Inr []"
| "write_elems (v # vs) =
     bindE (value_error_as ILLEGAL_TABLE_TYPE_WITH_VALUE (write_item v)) (\<lambda>vb.
     bindE (write_elems vs) (\<lambda>rest. Inr (vb @ rest)))"

text \<open>\<open>_write_table\<close> and \<open>_write_array\<close>: the data behind its 32-bit length.\<close>

definition write_table :: "(pykey \<times> pyval) list \<Rightarrow> exn + bytes" where
  "write_table d = bindE (write_entries d) (with_length 4)"

definition write_array :: "pyval list \<Rightarrow> exn + bytes" where
  "write_array xs = bindE (write_elems xs) (with_length 4)"

text \<open>\<open>_flushbits\<close>.\<close>

fun flushbits :: "int list \<Rightarrow> exn + bytes" where
  "flushbits [] = Inr []"
| "flushbits (b # bs) =
     bindE (spack_u 1 b) (\<lambda>x. bindE (flushbits bs) (\<lambda>y. Inr (x @ y)))"

text \<open>
  One step of the loop of \<open>dumps\<close>, over \<open>bitcount\<close>, the pending octets \<open>bits\<close> and the
  bytes written so far. \<open>emit\<close> is the common shape of a branch: flush, then write.
\<close>

type_synonym dump_state = "nat \<times> int list \<times> bytes"

definition emit :: "dump_state \<Rightarrow> exn + bytes \<Rightarrow> exn + dump_state" where
  "emit st data = (case st of (bitcount, bits, out) \<Rightarrow>
     bindE (flushbits bits) (\<lambda>fl. bindE data (\<lambda>d. Inr (0, [], out @ fl @ d))))"

definition dump_str :: "nat \<Rightarrow> pyval \<Rightarrow> exn + bytes" where
  "dump_str n v = (case py_or v (VStr []) of
     VStr s \<Rightarrow> with_length n (utf8_encode s)
   | VBytes b \<Rightarrow> with_length n b
   | VDict kvs \<Rightarrow> bindE (spack_u n (int (length kvs))) (\<lambda>_. Inl TypeError)
   | VList xs \<Rightarrow> bindE (spack_u n (int (length xs))) (\<lambda>_. Inl TypeError)
   | _ \<Rightarrow> Inl TypeError)"

definition dumps_step :: "char \<Rightarrow> pyval \<Rightarrow> dump_state \<Rightarrow> exn + dump_state" where
  "dumps_step p val st = (case st of (bitcount, bits, out) \<Rightarrow>
    if p = CHR ''b'' then
      let v = (if truthy val then 1 else 0);
          shift = bitcount mod 8;
          bits' = (if shift = 0 then bits @ [0] else bits)
      in if bits' = [] then Inl IndexError
         else Inr (bitcount + 1,
                   butlast bits' @ [last bits' OR push_bit shift v], out)
    else if p = CHR ''o'' then emit st (bindE (as_index val) (spack_u 1))
    else if p = CHR ''B'' then emit st (bindE (py_int val) (spack_u 2))
    else if p = CHR ''l'' then emit st (bindE (as_index val) (spack_u 4))
    else if p = CHR ''L'' then emit st (bindE (as_index val) (spack_u 8))
    else if p = CHR ''f'' then
      emit st (bindE (as_float val) (\<lambda>d. bindE (f64_to_f32 d) (\<lambda>w. spack_u 4 (uint w))))
    else if p = CHR ''s'' then emit st (dump_str 1 val)
    else if p = CHR ''S'' \<or> p = CHR ''x'' then emit st (dump_str 4 val)
    else if p = CHR ''F'' then
      emit st (case py_or val (VDict []) of VDict d \<Rightarrow> write_table d
               | _ \<Rightarrow> Inl AttributeError)
    else if p = CHR ''A'' then
      emit st (bindE (py_iter (py_or val (VList []))) write_array)
    else if p = CHR ''T'' then
      (case val of
         VDateTime t u \<Rightarrow> bindE (spack_u 8 t) (\<lambda>d. Inr (bitcount, bits, out @ d))
       | _ \<Rightarrow> Inl AttributeError)
    else Inr st)"

fun dumps_loop :: "string \<Rightarrow> pyval list \<Rightarrow> dump_state \<Rightarrow> exn + dump_state" where
  "dumps_loop fmt [] st = Inr st"
| "dumps_loop [] (v # vs) st = Inl IndexError"
| "dumps_loop (p # ps) (v # vs) st =
     bindE (dumps_step p v st) (\<lambda>st'. dumps_loop ps vs st')"

definition dumps :: "string \<Rightarrow> pyval list \<Rightarrow> exn + bytes" where
  "dumps fmt values =
     bindE (dumps_loop fmt values (0, [], [])) (\<lambda>(bitcount, bits, out).
     bindE (flushbits bits) (\<lambda>fl. Inr (out @ fl)))"

section \<open>Reading\<close>

text \<open>The branches of \<open>_read_item\<close> that do not recurse, for an item whose type octet is
  \<open>ftype\<close> and whose data start at \<open>off\<close>.\<close>

definition read_scalar :: "byte \<Rightarrow> bytes \<Rightarrow> nat \<Rightarrow> exn + pyval \<times> nat" where
  "read_scalar ftype buf off =
    (if ftype = tagb (CHR ''S'') then
       bindE (sunpack_u 4 buf off) (\<lambda>slen.
         let raw = slice buf (off + 4) (nat slen)
         in Inr (case utf8_decode raw of Some s \<Rightarrow> VStr s | None \<Rightarrow> VBytes raw,
                 off + 4 + nat slen))
     else if ftype = tagb (CHR ''s'') then
       bindE (sunpack_u 1 buf off) (\<lambda>slen.
       bindE (pstr_t (slice buf (off + 1) (nat slen))) (\<lambda>s.
         Inr (VStr s, off + 1 + nat slen)))
     else if ftype = tagb (CHR ''x'') then
       bindE (sunpack_u 4 buf off) (\<lambda>blen.
         Inr (VBytes (slice buf (off + 4) (nat blen)), off + 4 + nat blen))
     else if ftype = tagb (CHR ''b'') then
       bindE (sunpack_u 1 buf off) (\<lambda>v. Inr (VInt v, off + 1))
     else if ftype = tagb (CHR ''B'') then
       bindE (sunpack_s 1 buf off) (\<lambda>v. Inr (VInt v, off + 1))
     else if ftype = tagb (CHR ''U'') then
       bindE (sunpack_s 2 buf off) (\<lambda>v. Inr (VInt v, off + 2))
     else if ftype = tagb (CHR ''u'') then
       bindE (sunpack_u 2 buf off) (\<lambda>v. Inr (VInt v, off + 2))
     else if ftype = tagb (CHR ''I'') then
       bindE (sunpack_s 4 buf off) (\<lambda>v. Inr (VInt v, off + 4))
     else if ftype = tagb (CHR ''i'') then
       bindE (sunpack_u 4 buf off) (\<lambda>v. Inr (VInt v, off + 4))
     else if ftype = tagb (CHR ''L'') then
       bindE (sunpack_s 8 buf off) (\<lambda>v. Inr (VInt v, off + 8))
     else if ftype = tagb (CHR ''l'') then
       bindE (sunpack_u 8 buf off) (\<lambda>v. Inr (VInt v, off + 8))
     else if ftype = tagb (CHR ''f'') then
       bindE (sunpack_u 4 buf off) (\<lambda>v.
         Inr (VFloat (f32_to_f64 (word_of_int v)), off + 4))
     else if ftype = tagb (CHR ''d'') then
       bindE (sunpack_u 8 buf off) (\<lambda>v. Inr (VFloat (word_of_int v), off + 8))
     else if ftype = tagb (CHR ''D'') then
       bindE (sunpack_u 1 buf off) (\<lambda>d.
       bindE (sunpack_s 4 buf (off + 1)) (\<lambda>n.
         Inr (VDecimal (decimal_div_pow10 n (nat d)), off + 5)))
     else if ftype = tagb (CHR ''t'') then
       bindE (sunpack_u 1 buf off) (\<lambda>v. Inr (VBool (v \<noteq> 0), off + 1))
     else if ftype = tagb (CHR ''T'') then
       bindE (sunpack_u 8 buf off) (\<lambda>v.
       bindE (from_timestamp v) (\<lambda>t. Inr (t, off + 8)))
     else if ftype = tagb (CHR ''V'') then Inr (VNone, off)
     else Inl (raise_amqp FrameSyntaxError ''Unknown value in table: {!r} ({!r})''))"

text \<open>The key of a table entry: a short string.\<close>

definition read_key :: "bytes \<Rightarrow> nat \<Rightarrow> exn + pykey \<times> nat" where
  "read_key buf off =
     bindE (sunpack_u 1 buf off) (\<lambda>keylen.
     bindE (pstr_t (slice buf (off + 1) (nat keylen))) (\<lambda>key.
       Inr (KStr key, off + 1 + nat keylen)))"

function (sequential) read_item_fuel :: "nat \<Rightarrow> bytes \<Rightarrow> nat \<Rightarrow> exn + pyval \<times> nat"
  and read_entries :: "nat \<Rightarrow> bytes \<Rightarrow> nat \<Rightarrow> nat \<Rightarrow> (pykey \<times> pyval) list
        \<Rightarrow> exn + (pykey \<times> pyval) list \<times> nat"
  and read_elems :: "nat \<Rightarrow> bytes \<Rightarrow> nat \<Rightarrow> nat \<Rightarrow> pyval list \<Rightarrow> exn + pyval list \<times> nat"
where
  "read_item_fuel 0 buf off = Inl OutOfFuel"
| "read_item_fuel (Suc n) buf off =
    (if length buf \<le> off then Inl IndexError
     else let ftype = buf ! off in
       if ftype = tagb (CHR ''F'') then
         bindE (sunpack_u 4 buf (off + 1)) (\<lambda>tlen.
         bindE (read_entries n buf (off + 5) (off + 5 + nat tlen) []) (\<lambda>(d, off').
           Inr (VDict d, off')))
       else if ftype = tagb (CHR ''A'') then
         bindE (sunpack_u 4 buf (off + 1)) (\<lambda>alen.
         bindE (read_elems n buf (off + 5) (off + 5 + nat alen) []) (\<lambda>(xs, off').
           Inr (VList xs, off')))
       else read_scalar ftype buf (off + 1))"
| "read_entries 0 buf off limit d = Inl OutOfFuel"
| "read_entries (Suc n) buf off limit d =
    (if off < limit then
       bindE (read_key buf off) (\<lambda>(k, off1).
       bindE (read_item_fuel n buf off1) (\<lambda>(v, off2).
         read_entries n buf off2 limit (dict_set k v d)))
     else Inr (d, off))"
| "read_elems 0 buf off limit xs = Inl OutOfFuel"
| "read_elems (Suc n) buf off limit xs =
    (if off < limit then
       bindE (read_item_fuel n buf off) (\<lambda>(v, off1).
         read_elems n buf off1 limit (xs @ [v]))
     else Inr (xs, off))"
  by pat_completeness auto
termination
  by (relation "measure (\<lambda>x. case x of Inl (n, _) \<Rightarrow> n | Inr (Inl (n, _)) \<Rightarrow> n
        | Inr (Inr (n, _)) \<Rightarrow> n)") auto

definition read_item :: "bytes \<Rightarrow> nat \<Rightarrow> exn + pyval \<times> nat" where
  "read_item buf off = read_item_fuel (Suc (length buf - off)) buf off"

text \<open>The table and array branches of \<open>loads\<close>.\<close>

definition read_table :: "bytes \<Rightarrow> nat \<Rightarrow> exn + pyval \<times> nat" where
  "read_table buf off =
     bindE (sunpack_u 4 buf off) (\<lambda>tlen.
     bindE (read_entries (Suc (length buf - (off + 4))) buf (off + 4)
              (off + 4 + nat tlen) []) (\<lambda>(d, off').
       Inr (VDict d, off')))"

definition read_array :: "bytes \<Rightarrow> nat \<Rightarrow> exn + pyval \<times> nat" where
  "read_array buf off =
     bindE (sunpack_u 4 buf off) (\<lambda>alen.
     bindE (read_elems (Suc (Suc (length buf - (off + 4)))) buf (off + 4)
              (off + 4 + nat alen) []) (\<lambda>(xs, off').
       Inr (VList xs, off')))"

text \<open>
  One step of the loop of \<open>loads\<close>: the value, and the new \<open>offset\<close>, \<open>bitcount\<close> and \<open>bits\<close>.
  Note that the branch for \<open>x\<close> leaves \<open>bitcount\<close> and \<open>bits\<close> alone, as the source does.
\<close>

definition load_str :: "nat \<Rightarrow> bytes \<Rightarrow> nat \<Rightarrow> exn + pyval \<times> nat" where
  "load_str n buf off =
     bindE (sunpack_u n buf off) (\<lambda>slen.
     bindE (pstr_t (slice buf (off + n) (nat slen))) (\<lambda>s.
       Inr (VStr s, off + n + nat slen)))"

definition loads_step :: "char \<Rightarrow> bytes \<Rightarrow> nat \<Rightarrow> nat \<Rightarrow> int
    \<Rightarrow> exn + pyval \<times> nat \<times> nat \<times> int" where
  "loads_step p buf off bitcount bits =
    (let reset = (\<lambda>r. bindE r (\<lambda>(v, off'). Inr (v, off', 0, 0)))
     in
     if p = CHR ''b'' then
       bindE (if bitcount = 0 then
                (case slice buf off 1 of
                   [b] \<Rightarrow> Inr (uint b, off + 1, 8)
                 | _ \<Rightarrow> Inl TypeError)
              else Inr (bits, off, bitcount)) (\<lambda>(bits, off, bitcount).
         Inr (VBool (bits AND 1 = 1), off, bitcount - 1, drop_bit 1 bits))
     else if p = CHR ''o'' then
       reset (bindE (sunpack_u 1 buf off) (\<lambda>v. Inr (VInt v, off + 1)))
     else if p = CHR ''B'' then
       reset (bindE (sunpack_u 2 buf off) (\<lambda>v. Inr (VInt v, off + 2)))
     else if p = CHR ''l'' then
       reset (bindE (sunpack_u 4 buf off) (\<lambda>v. Inr (VInt v, off + 4)))
     else if p = CHR ''L'' then
       reset (bindE (sunpack_u 8 buf off) (\<lambda>v. Inr (VInt v, off + 8)))
     else if p = CHR ''f'' then
       reset (bindE (sunpack_u 4 buf off) (\<lambda>v.
         Inr (VFloat (f32_to_f64 (word_of_int v)), off + 4)))
     else if p = CHR ''s'' then reset (load_str 1 buf off)
     else if p = CHR ''S'' then reset (load_str 4 buf off)
     else if p = CHR ''x'' then
       bindE (sunpack_u 4 buf off) (\<lambda>blen.
         Inr (VBytes (slice buf (off + 4) (nat blen)), off + 4 + nat blen, bitcount, bits))
     else if p = CHR ''F'' then reset (read_table buf off)
     else if p = CHR ''A'' then reset (read_array buf off)
     else if p = CHR ''T'' then
       reset (bindE (sunpack_u 8 buf off) (\<lambda>v.
              bindE (from_timestamp v) (\<lambda>t. Inr (t, off + 8))))
     else Inl (raise_amqp FrameSyntaxError ILLEGAL_TABLE_TYPE))"

fun loads_loop :: "string \<Rightarrow> bytes \<Rightarrow> nat \<Rightarrow> nat \<Rightarrow> int \<Rightarrow> exn + pyval list \<times> nat" where
  "loads_loop [] buf off bitcount bits = Inr ([], off)"
| "loads_loop (p # ps) buf off bitcount bits =
     bindE (loads_step p buf off bitcount bits) (\<lambda>(v, off', bitcount', bits').
     bindE (loads_loop ps buf off' bitcount' bits') (\<lambda>(vs, off'').
       Inr (v # vs, off'')))"

definition loads :: "string \<Rightarrow> bytes \<Rightarrow> nat \<Rightarrow> exn + pyval list \<times> nat" where
  "loads fmt buf off = loads_loop fmt buf off 0 0"

lemma tagb_code [simp]: "tagb c = tagb d \<longleftrightarrow> c = d"
proof
  assume "tagb c = tagb d"
  then have "unat (tagb c) = unat (tagb d)" by simp
  then show "c = d" by (simp add: tagb_def unat_of_nat)
qed simp

end
