(* ===== verification/Reader_Total.thy ===== *)
theory Reader_Total
  imports Serialization
begin

text \<open>
  The readers of serialization.py make progress and end: every item takes at least one byte,
  so the fuel that \<open>read_item\<close>, \<open>read_table\<close> and \<open>read_array\<close> supply is enough on every
  buffer, whatever lengths it claims, and any larger fuel gives the same result.
\<close>

lemma bindE_cong: "m = m' \<Longrightarrow> (\<And>x. m' = Inr x \<Longrightarrow> f x = g x) \<Longrightarrow> bindE m f = bindE m' g"
  by (cases m') auto

lemma get_or_Inl [simp]: "get_or e m = Inl x \<longleftrightarrow> m = None \<and> x = e"
  by (cases m) auto

lemma read_scalar_no_fuel: "read_scalar t buf off \<noteq> Inl OutOfFuel"
  by (auto simp: read_scalar_def bindE_eq_Inl Let_def sunpack_u_def sunpack_s_def pstr_t_def
      from_timestamp_def raise_amqp_def)

lemma read_key_no_fuel: "read_key buf off \<noteq> Inl OutOfFuel"
  by (auto simp: read_key_def bindE_eq_Inl sunpack_u_def pstr_t_def)

lemma read_scalar_progress: "read_scalar t buf off = Inr (v, off') \<Longrightarrow> off \<le> off'"
  by (auto simp: read_scalar_def bindE_eq_Inr Let_def split: if_splits)

lemma read_key_progress: "read_key buf off = Inr (k, off') \<Longrightarrow> off < off' \<and> off < length buf"
  by (auto simp: read_key_def bindE_eq_Inr sunpack_u_def dest: unpack_u_bound)

lemma read_progress:
  "read_item_fuel n buf off = Inr (v, off') \<Longrightarrow> off < off' \<and> off < length buf"
  "read_entries n buf off limit d = Inr (d', off') \<Longrightarrow> off \<le> off'"
  "read_elems n buf off limit xs = Inr (xs', off') \<Longrightarrow> off \<le> off'"
proof (induction n buf off and n buf off limit d and n buf off limit xs
    arbitrary: v off' and d' off' and xs' off'
    rule: read_item_fuel_read_entries_read_elems.induct)
  case (2 n buf off)
  then show ?case
    by (fastforce simp: Let_def dest: read_scalar_progress split: if_splits)
next
  case (4 n buf off limit d)
  then show ?case
    by (fastforce dest: read_key_progress split: if_splits)
next
  case (6 n buf off limit xs)
  then show ?case
    by (fastforce split: if_splits)
qed simp_all


text \<open>Two runs agree, and neither stopped for lack of fuel.\<close>

definition same :: "exn + 'a \<Rightarrow> exn + 'a \<Rightarrow> bool" where
  "same r r' \<longleftrightarrow> r = r' \<and> r \<noteq> Inl OutOfFuel"

lemma same_bindE:
  assumes "same m m'" and "\<And>x. m = Inr x \<Longrightarrow> same (f x) (g x)"
  shows "same (bindE m f) (bindE m' g)"
  using assms by (cases m) (auto simp: same_def)

lemma same_refl: "r \<noteq> Inl OutOfFuel \<Longrightarrow> same r r"
  by (simp add: same_def)

lemma same_Inr [simp]: "same (Inr x) (Inr x)"
  by (simp add: same_def)

lemma same_sunpack [simp]: "same (sunpack_u n buf off) (sunpack_u n buf off)"
  by (simp add: same_def sunpack_u_def)

lemma read_fuel:
  "(\<forall>off m. length buf - off < n \<longrightarrow> length buf - off < m \<longrightarrow>
       same (read_item_fuel n buf off) (read_item_fuel m buf off)) \<and>
   (\<forall>off m limit d. length buf - off < n \<longrightarrow> length buf - off < m \<longrightarrow>
       same (read_entries n buf off limit d) (read_entries m buf off limit d)) \<and>
   (\<forall>off m limit xs. Suc (length buf - off) < n \<longrightarrow> Suc (length buf - off) < m \<longrightarrow>
       same (read_elems n buf off limit xs) (read_elems m buf off limit xs))"
proof (induction n)
  case 0
  then show ?case by simp
next
  case (Suc n)
  have entries: "same (read_entries n buf off limit d) (read_entries m buf off limit d)"
    if "length buf - off < n" "length buf - off < m" for off m limit d
    using Suc that by blast
  have elems: "same (read_elems n buf off limit d) (read_elems m buf off limit d)"
    if "Suc (length buf - off) < n" "Suc (length buf - off) < m" for off m limit d
    using Suc that by blast
  have item: "same (read_item_fuel n buf off) (read_item_fuel m buf off)"
    if "length buf - off < n" "length buf - off < m" for off m
    using Suc that by blast
  have "same (read_item_fuel (Suc n) buf off) (read_item_fuel (Suc m) buf off)"
    if "length buf - off < Suc n" "length buf - off < Suc m" for off m
  proof (cases "length buf \<le> off")
    case False
    then show ?thesis using that unpack_u_bound [of 4 buf "Suc off"]
      by (auto simp: Let_def sunpack_u_def same_refl read_scalar_no_fuel
          intro!: same_bindE entries elems split: prod.splits)
  qed (simp add: same_def)
  moreover have "same (read_entries (Suc n) buf off limit d) (read_entries (Suc m) buf off limit d)"
    if "length buf - off < Suc n" "length buf - off < Suc m" for off m limit d
    using that
    by (auto simp: same_refl read_key_no_fuel dest!: read_key_progress read_progress(1)
        intro!: same_bindE entries item split: prod.splits)
  moreover have "same (read_elems (Suc n) buf off limit d) (read_elems (Suc m) buf off limit d)"
    if "Suc (length buf - off) < Suc n" "Suc (length buf - off) < Suc m" for off m limit d
    using that
    by (auto dest!: read_progress(1) intro!: same_bindE elems item split: prod.splits)
  ultimately show ?case
    by (metis not_less_zero old.nat.exhaust)
qed

declare read_item_fuel.simps [simp del] read_entries.simps [simp del] read_elems.simps [simp del]

lemma read_item_same:
  "length buf - off < n \<Longrightarrow> length buf - off < m \<Longrightarrow>
     same (read_item_fuel n buf off) (read_item_fuel m buf off)"
  using read_fuel [of buf n] by blast

lemma read_entries_same:
  "length buf - off < n \<Longrightarrow> length buf - off < m \<Longrightarrow>
     same (read_entries n buf off limit d) (read_entries m buf off limit d)"
  using read_fuel [of buf n] by blast

lemma read_elems_same:
  "Suc (length buf - off) < n \<Longrightarrow> Suc (length buf - off) < m \<Longrightarrow>
     same (read_elems n buf off limit xs) (read_elems m buf off limit xs)"
  using read_fuel [of buf n] by blast

lemma read_item_fuel_eq:
  "length buf - off < n \<Longrightarrow> read_item_fuel n buf off = read_item buf off"
  using read_item_same [of buf off n "Suc (length buf - off)"]
  by (simp add: read_item_def same_def)

lemma read_item_no_fuel: "read_item buf off \<noteq> Inl OutOfFuel"
  using read_item_same [of buf off "Suc (length buf - off)" "Suc (length buf - off)"]
  by (simp add: read_item_def same_def)

lemma read_entries_no_fuel: "read_entries (Suc (length buf - off)) buf off limit d \<noteq> Inl OutOfFuel"
  using read_entries_same [of buf off "Suc (length buf - off)" "Suc (length buf - off)"]
  by (simp add: same_def)

lemma read_elems_no_fuel: "read_elems (Suc (Suc (length buf - off))) buf off limit xs \<noteq> Inl OutOfFuel"
  using read_elems_same [of buf off "Suc (Suc (length buf - off))" "Suc (Suc (length buf - off))"]
  by (simp add: same_def)

lemma read_table_no_fuel: "read_table buf off \<noteq> Inl OutOfFuel"
  by (auto simp: read_table_def bindE_eq_Inl sunpack_u_def read_entries_no_fuel split: prod.splits)

lemma read_array_no_fuel: "read_array buf off \<noteq> Inl OutOfFuel"
  by (auto simp: read_array_def bindE_eq_Inl sunpack_u_def read_elems_no_fuel split: prod.splits)

lemma loads_step_no_fuel: "loads_step p buf off bitcount bits \<noteq> Inl OutOfFuel"
  by (auto simp: loads_step_def Let_def bindE_eq_Inl sunpack_u_def load_str_def pstr_t_def
      from_timestamp_def raise_amqp_def read_table_no_fuel read_array_no_fuel
      split: prod.splits list.splits if_splits)

lemma loads_loop_no_fuel: "loads_loop fmt buf off bitcount bits \<noteq> Inl OutOfFuel"
  by (induction fmt arbitrary: off bitcount bits)
    (auto simp: bindE_eq_Inl loads_step_no_fuel split: prod.splits)

lemma read_item_progress: "read_item buf off = Inr (v, off') \<Longrightarrow> off < off' \<and> off < length buf"
  unfolding read_item_def by (rule read_progress(1))

section \<open>The readers without fuel\<close>

text \<open>
  The loops with the fuel they are started with, and the recursion of the source as
  equations without fuel. The first shows that the table and array branches of \<open>loads\<close> are
  those of \<open>_read_item\<close>, although the source repeats them.
\<close>

abbreviation entries_loop :: "bytes \<Rightarrow> nat \<Rightarrow> nat \<Rightarrow> (pykey \<times> pyval) list
    \<Rightarrow> exn + (pykey \<times> pyval) list \<times> nat" where
  "entries_loop buf off \<equiv> read_entries (Suc (length buf - off)) buf off"

abbreviation elems_loop :: "bytes \<Rightarrow> nat \<Rightarrow> nat \<Rightarrow> pyval list \<Rightarrow> exn + pyval list \<times> nat" where
  "elems_loop buf off \<equiv> read_elems (Suc (Suc (length buf - off))) buf off"

lemma sameD: "same r r' \<Longrightarrow> r = r'"
  by (simp add: same_def)

lemma read_item_unfold:
  assumes "off < length buf"
  shows "read_item buf off =
    (if buf ! off = tagb (CHR ''F'') then read_table buf (off + 1)
     else if buf ! off = tagb (CHR ''A'') then read_array buf (off + 1)
     else read_scalar (buf ! off) buf (off + 1))"
proof -
  have e: "read_entries (length buf - off) buf (off + 5) limit []
      = entries_loop buf (off + 5) limit []" if "off + 5 \<le> length buf" for limit
    by (rule sameD, rule read_entries_same) (use that in auto)
  have a: "read_elems (length buf - off) buf (off + 5) limit []
      = elems_loop buf (off + 5) limit []" if "off + 5 \<le> length buf" for limit
    by (rule sameD, rule read_elems_same) (use that in auto)
  have b: "off + 5 \<le> length buf" if "unpack_u 4 buf (Suc off) = Some l" for l
    using unpack_u_bound [OF that] by simp
  show ?thesis
    using assms e a b
    by (auto simp: read_item_def read_item_fuel.simps read_table_def read_array_def
        sunpack_u_def Let_def add.commute [of 5 off] intro!: bindE_cong)
qed

lemma entries_loop_unfold:
  "entries_loop buf off limit d =
    (if off < limit then
       bindE (read_key buf off) (\<lambda>(k, off1).
       bindE (read_item buf off1) (\<lambda>(v, off2).
         entries_loop buf off2 limit (dict_set k v d)))
     else Inr (d, off))"
proof -
  have i: "read_item_fuel (length buf - off) buf off1 = read_item buf off1"
    if "off < off1" "off < length buf" for off1
    using that by (intro read_item_fuel_eq) auto
  have e: "read_entries (length buf - off) buf off2 limit d' = entries_loop buf off2 limit d'"
    if "off < off2" "off < length buf" for off2 d'
    by (rule sameD, rule read_entries_same) (use that in auto)
  show ?thesis
    by (subst read_entries.simps) (auto simp: i e dest!: read_key_progress read_item_progress
        intro!: bindE_cong)
qed

lemma elems_loop_unfold:
  "elems_loop buf off limit xs =
    (if off < limit then
       bindE (read_item buf off) (\<lambda>(v, off1). elems_loop buf off1 limit (xs @ [v]))
     else Inr (xs, off))"
proof -
  have i: "read_item_fuel (Suc (length buf - off)) buf off = read_item buf off"
    by (rule read_item_fuel_eq) simp
  have e: "read_elems (Suc (length buf - off)) buf off1 limit xs'
      = elems_loop buf off1 limit xs'" if "off < off1" "off < length buf" for off1 xs'
    by (rule sameD, rule read_elems_same) (use that in auto)
  show ?thesis
    by (subst read_elems.simps) (auto simp: i e dest!: read_item_progress intro!: bindE_cong)
qed

end
