(* ===== verification/Serialization_Roundtrip.thy ===== *)
theory Serialization_Roundtrip
  imports Reader_Total
begin

text \<open>
  What the reader gives back for what the writer wrote. \<open>canon\<close> is the value a round trip
  returns: text for byte strings that are UTF-8, datetimes cut to seconds, decimals in the
  form the reader's division gives, dicts rebuilt key by key.
\<close>

section \<open>Canonical values\<close>

definition canon_key :: "pykey \<Rightarrow> pykey" where
  "canon_key k = (case k of
     KBytes b \<Rightarrow> (case utf8_decode b of Some s \<Rightarrow> KStr s | None \<Rightarrow> k)
   | _ \<Rightarrow> k)"

fun canon :: "pyval \<Rightarrow> pyval"
  and canon_entries :: "(pykey \<times> pyval) list \<Rightarrow> (pykey \<times> pyval) list \<Rightarrow> (pykey \<times> pyval) list"
  and canon_elems :: "pyval list \<Rightarrow> pyval list"
where
  "canon (VBytes b) = (case utf8_decode b of Some s \<Rightarrow> VStr s | None \<Rightarrow> VBytes b)"
| "canon (VDateTime t u) = VDateTime t 0"
| "canon (VDecimal d) = (case d of
     DFin s c e \<Rightarrow> VDecimal (decimal_div_pow10 (if s then - int c else int c) (nat (- e)))
   | _ \<Rightarrow> VDecimal d)"
| "canon (VDict kvs) = VDict (canon_entries kvs [])"
| "canon (VList xs) = VList (canon_elems xs)"
| "canon (VStr s) = VStr s"
| "canon (VInt i) = VInt i"
| "canon (VBool b) = VBool b"
| "canon (VFloat w) = VFloat w"
| "canon VNone = VNone"
| "canon VOther = VOther"
| "canon_entries [] d = d"
| "canon_entries ((k, v) # kvs) d = canon_entries kvs (dict_set (canon_key k) (canon v) d)"
| "canon_elems [] = []"
| "canon_elems (v # vs) = canon v # canon_elems vs"

text \<open>
  The values whose encoding can be read back: text is made of code points, keys that are
  byte strings are UTF-8, dates lie before the year 10000.
\<close>

definition readable_key :: "pykey \<Rightarrow> bool" where
  "readable_key k = (case k of
     KStr s \<Rightarrow> valid_str s
   | KBytes b \<Rightarrow> utf8_decode b \<noteq> None
   | KOther \<Rightarrow> False)"

fun readable :: "pyval \<Rightarrow> bool"
  and readable_entries :: "(pykey \<times> pyval) list \<Rightarrow> bool"
  and readable_elems :: "pyval list \<Rightarrow> bool"
where
  "readable (VStr s) = valid_str s"
| "readable (VDateTime t u) = (t \<le> max_timestamp)"
| "readable (VDict kvs) = readable_entries kvs"
| "readable (VList xs) = readable_elems xs"
| "readable _ = True"
| "readable_entries [] = True"
| "readable_entries ((k, v) # kvs) = (readable_key k \<and> readable v \<and> readable_entries kvs)"
| "readable_elems [] = True"
| "readable_elems (v # vs) = (readable v \<and> readable_elems vs)"

section \<open>Meeting points of writer and reader\<close>

lemma spack_u_Inr [simp]: "spack_u n v = Inr d \<longleftrightarrow> pack_u n v = Some d"
  by (simp add: spack_u_def)

lemma spack_s_Inr [simp]: "spack_s n v = Inr d \<longleftrightarrow> pack_s n v = Some d"
  by (simp add: spack_s_def)

lemma with_length_Inr:
  "with_length n b = Inr d \<longleftrightarrow> (\<exists>l. pack_u n (int (length b)) = Some l \<and> d = l @ b)"
  by (auto simp: with_length_def bindE_eq_Inr)

lemma with_length_length: "with_length n b = Inr d \<Longrightarrow> length d = n + length b"
  by (auto simp: with_length_Inr dest: pack_u_SomeD)

lemma sunpack_u_at:
  "pack_u n v = Some l \<Longrightarrow> sunpack_u n (pre @ l @ post) (length pre) = Inr v"
  by (simp add: sunpack_u_def unpack_u_pack_u)

lemma sunpack_s_at:
  "pack_s n v = Some l \<Longrightarrow> 0 < n \<Longrightarrow> sunpack_s n (pre @ l @ post) (length pre) = Inr v"
  by (simp add: sunpack_s_def unpack_s_pack_s)

lemma slice_at: "slice (pre @ xs @ post) (length pre) (length xs) = xs"
  by simp

text \<open>The same one octet later, behind the type octet of an item.\<close>

lemma sunpack_u_after_tag [codec_simps]:
  "pack_u n v = Some l \<Longrightarrow> sunpack_u n (pre @ t # l @ post) (Suc (length pre)) = Inr v"
  using sunpack_u_at [of n v l "pre @ [t]" post] by simp

lemma sunpack_s_after_tag [codec_simps]:
  "pack_s n v = Some l \<Longrightarrow> 0 < n \<Longrightarrow>
     sunpack_s n (pre @ t # l @ post) (Suc (length pre)) = Inr v"
  using sunpack_s_at [of n v l "pre @ [t]" post] by simp

lemma slice_after_tag [codec_simps]:
  "length l = n \<Longrightarrow> slice (pre @ t # l @ xs @ post) (Suc (length pre) + n) (length xs) = xs"
  using slice_at [of "pre @ t # l" xs post] by simp

section \<open>Items, tables and arrays\<close>


lemma slice_behind [codec_simps]:
  assumes "length l = n" and "off = length pre + Suc n"
  shows "slice (pre @ t # l @ xs @ post) off (length xs) = xs"
  using slice_at [of "pre @ t # l" xs post] assms by simp

lemma sunpack_s_behind [codec_simps]:
  assumes "pack_s n v = Some y" and "0 < n" and "off = length pre + Suc (length x)"
  shows "sunpack_s n (pre @ t # x @ y @ post) off = Inr v"
  using sunpack_s_at [OF assms(1,2), of "pre @ t # x" post] assms(3) by simp

lemma read_scalar_str:
  assumes "pack_u 4 (int (length b)) = Some l"
  shows "read_scalar (tagb (CHR ''S'')) (pre @ tagb (CHR ''S'') # l @ b @ post) (Suc (length pre))
    = Inr (case utf8_decode b of Some s \<Rightarrow> VStr s | None \<Rightarrow> VBytes b,
           length pre + 5 + length b)"
proof -
  have "length l = 4" using assms by (auto dest: pack_u_SomeD)
  then show ?thesis
    using assms
    by (cases "utf8_decode b") (simp_all add: read_scalar_def codec_simps Let_def)
qed

lemma read_written_scalar:
  assumes "write_item v = Inr bs" and "readable v"
    and "\<forall>d. v \<noteq> VDict d" and "\<forall>xs. v \<noteq> VList xs"
  shows "bs \<noteq> [] \<and> hd bs \<noteq> tagb (CHR ''F'') \<and> hd bs \<noteq> tagb (CHR ''A'')
    \<and> read_scalar (hd bs) (pre @ bs @ post) (Suc (length pre))
        = Inr (canon v, length pre + length bs)"
proof (cases v)
  case (VStr s)
  then obtain l where "bs = tagb (CHR ''S'') # l @ utf8_encode s"
    and "pack_u 4 (int (length (utf8_encode s))) = Some l"
    using assms(1) by (auto simp: bindE_eq_Inr with_length_Inr)
  then show ?thesis using VStr assms(2)
    by (auto simp: read_scalar_str dest: pack_u_SomeD)
next
  case (VBytes b)
  then obtain l where "bs = tagb (CHR ''S'') # l @ b"
    and "pack_u 4 (int (length b)) = Some l"
    using assms(1) by (auto simp: bindE_eq_Inr with_length_Inr)
  then show ?thesis using VBytes
    by (auto simp: read_scalar_str dest: pack_u_SomeD)
next
  case (VDecimal d)
  then obtain s c e x y where d: "d = DFin s c e"
    and xy: "pack_u 1 (- e) = Some x" "pack_s 4 (if s then - int c else int c) = Some y"
    and bs: "bs = tagb (CHR ''D'') # x @ y"
    using assms(1) by (auto simp: bindE_eq_Inr split: decimal.splits)
  have "length x = 1" "length y = 4"
    using xy by (auto dest: pack_u_SomeD pack_s_SomeD)
  then show ?thesis
    unfolding bs VDecimal d using xy
    by (simp add: read_scalar_def codec_simps del: if_split)
next
  case (VInt i)
  then show ?thesis using assms(1)
    by (auto simp: bindE_eq_Inr read_scalar_def codec_simps split: if_splits dest: pack_s_SomeD)
next
  case (VFloat w)
  then show ?thesis using assms(1)
    by (auto simp: bindE_eq_Inr read_scalar_def codec_simps dest: pack_u_SomeD)
next
  case (VBool b)
  then show ?thesis using assms(1)
    by (auto simp: bindE_eq_Inr read_scalar_def codec_simps dest: pack_u_SomeD)
next
  case (VDateTime t u)
  then obtain x where "pack_u 8 t = Some x" "bs = tagb (CHR ''T'') # x" "t \<le> max_timestamp"
    using assms(1,2) by (auto simp: bindE_eq_Inr)
  then show ?thesis
    unfolding VDateTime
    by (auto simp: read_scalar_def codec_simps from_timestamp_def dest: pack_u_SomeD)
next
  case VNone
  then show ?thesis using assms(1) by (auto simp: read_scalar_def)
qed (use assms in auto)

lemma read_written_key:
  assumes "write_key k = Inr kb" and "readable_key k"
  shows "kb \<noteq> [] \<and> read_key (pre @ kb @ post) (length pre)
    = Inr (canon_key k, length pre + length kb)"
proof -
  obtain b s where b: "with_length 1 b = Inr kb" and s: "utf8_decode b = Some s"
    and k: "canon_key k = KStr s"
    using assms by (auto simp: write_key_def readable_key_def canon_key_def split: pykey.splits)
  obtain l where l: "pack_u 1 (int (length b)) = Some l" and kb: "kb = l @ b"
    using b by (auto simp: with_length_Inr)
  have "length l = 1" using l by (auto dest: pack_u_SomeD)
  then show ?thesis
    using sunpack_u_at [OF l, of pre "b @ post"] slice_at [of "pre @ l" b post]
    by (auto simp: read_key_def kb k s pstr_t_def)
qed

lemma read_table_at:
  assumes "pack_u 4 (int (length data)) = Some l"
    and "entries_loop (pre @ l @ data @ post) (length pre + 4) (length pre + 4 + length data) []
      = Inr (d, off)"
  shows "read_table (pre @ l @ data @ post) (length pre) = Inr (VDict d, off)"
  using sunpack_u_at [OF assms(1), of pre "data @ post"] assms(2)
  by (simp add: read_table_def)

lemma read_array_at:
  assumes "pack_u 4 (int (length data)) = Some l"
    and "elems_loop (pre @ l @ data @ post) (length pre + 4) (length pre + 4 + length data) []
      = Inr (xs, off)"
  shows "read_array (pre @ l @ data @ post) (length pre) = Inr (VList xs, off)"
  using sunpack_u_at [OF assms(1), of pre "data @ post"] assms(2)
  by (simp add: read_array_def)

lemma value_error_as_Inr [simp]: "value_error_as text r = Inr x \<longleftrightarrow> r = Inr x"
  by (auto simp: value_error_as_def split: sum.splits)

lemma read_item_scalar:
  assumes "write_item v = Inr bs" and "readable v"
    and "\<forall>d. v \<noteq> VDict d" and "\<forall>xs. v \<noteq> VList xs"
  shows "read_item (pre @ bs @ post) (length pre) = Inr (canon v, length pre + length bs)"
proof -
  obtain t r where bs: "bs = t # r"
    using read_written_scalar [OF assms] by (cases bs) auto
  show ?thesis
    using read_written_scalar [OF assms, of pre post] by (simp add: read_item_unfold bs)
qed

lemma write_item_nonempty: "write_item v = Inr bs \<Longrightarrow> bs \<noteq> []"
  by (cases v) (auto simp: bindE_eq_Inr split: if_splits decimal.splits)

lemma read_written:
  "write_item v = Inr bs \<Longrightarrow> readable v \<Longrightarrow>
     read_item (pre @ bs @ post) (length pre) = Inr (canon v, length pre + length bs)"
  "write_entries kvs = Inr bs \<Longrightarrow> readable_entries kvs \<Longrightarrow>
     entries_loop (pre @ bs @ post) (length pre) (length pre + length bs) d
       = Inr (canon_entries kvs d, length pre + length bs)"
  "write_elems vs = Inr bs \<Longrightarrow> readable_elems vs \<Longrightarrow>
     elems_loop (pre @ bs @ post) (length pre) (length pre + length bs) xs
       = Inr (xs @ canon_elems vs, length pre + length bs)"
proof (induction v and kvs and vs arbitrary: bs pre post and bs pre post d and bs pre post xs
    rule: write_item_write_entries_write_elems.induct)
  case (8 kvs)
  then obtain data l where data: "write_entries kvs = Inr data"
    and l: "pack_u 4 (int (length data)) = Some l" and bs: "bs = tagb (CHR ''F'') # l @ data"
    by (auto simp: bindE_eq_Inr with_length_Inr)
  have "length l = 4" using l by (auto dest: pack_u_SomeD)
  then have "entries_loop ((pre @ [tagb (CHR ''F'')]) @ l @ data @ post)
      (length (pre @ [tagb (CHR ''F'')]) + 4) (length (pre @ [tagb (CHR ''F'')]) + 4 + length data) []
      = Inr (canon_entries kvs [], length pre + length bs)"
    using "8.IH" [OF data, of "pre @ tagb (CHR ''F'') # l" post "[]"] "8.prems"(2)
    by (simp add: bs add.commute)
  from read_table_at [OF l this] show ?case
    by (simp add: read_item_unfold bs)
next
  case (9 vs)
  then obtain data l where data: "write_elems vs = Inr data"
    and l: "pack_u 4 (int (length data)) = Some l" and bs: "bs = tagb (CHR ''A'') # l @ data"
    by (auto simp: bindE_eq_Inr with_length_Inr)
  have "length l = 4" using l by (auto dest: pack_u_SomeD)
  then have "elems_loop ((pre @ [tagb (CHR ''A'')]) @ l @ data @ post)
      (length (pre @ [tagb (CHR ''A'')]) + 4) (length (pre @ [tagb (CHR ''A'')]) + 4 + length data) []
      = Inr (canon_elems vs, length pre + length bs)"
    using "9.IH" [OF data, of "pre @ tagb (CHR ''A'') # l" post "[]"] "9.prems"(2)
    by (simp add: bs add.commute)
  from read_array_at [OF l this] show ?case
    by (simp add: read_item_unfold bs)
next
  case 12
  then show ?case by (subst entries_loop_unfold) simp
next
  case (13 k v kvs)
  then obtain kb vb rest where kb: "write_key k = Inr kb" and vb: "write_item v = Inr vb"
    and rest: "write_entries kvs = Inr rest" and bs: "bs = kb @ vb @ rest"
    by (auto simp: bindE_eq_Inr)
  show ?case
    using read_written_key [OF kb, of pre "vb @ rest @ post"] "13.prems"(2)
      "13.IH"(1) [OF vb, of "pre @ kb" "rest @ post"]
      "13.IH"(2) [OF rest, of "pre @ kb @ vb" post]
    by (subst entries_loop_unfold) (simp add: bs vb add.assoc)
next
  case 14
  then show ?case by (subst elems_loop_unfold) simp
next
  case (15 v vs)
  then obtain vb rest where vb: "write_item v = Inr vb"
    and rest: "write_elems vs = Inr rest" and bs: "bs = vb @ rest"
    by (auto simp: bindE_eq_Inr)
  show ?case
    using "15.prems"(2) write_item_nonempty [OF vb]
      "15.IH"(1) [OF vb, of "pre" "rest @ post"]
      "15.IH"(2) [OF rest, of "pre @ vb" post]
    by (subst elems_loop_unfold) (simp add: bs vb add.assoc)
qed (erule read_item_scalar; simp)+


section \<open>Arguments\<close>

text \<open>The bytes of one argument that is not a bit, and the value \<open>loads\<close> returns for it.\<close>

definition arg_bytes :: "char \<Rightarrow> pyval \<Rightarrow> exn + bytes" where
  "arg_bytes p val =
    (if p = CHR ''o'' then bindE (as_index val) (spack_u 1)
     else if p = CHR ''B'' then bindE (py_int val) (spack_u 2)
     else if p = CHR ''l'' then bindE (as_index val) (spack_u 4)
     else if p = CHR ''L'' then bindE (as_index val) (spack_u 8)
     else if p = CHR ''f'' then
       bindE (as_float val) (\<lambda>d. bindE (f64_to_f32 d) (\<lambda>w. spack_u 4 (uint w)))
     else if p = CHR ''s'' then dump_str 1 val
     else if p = CHR ''S'' \<or> p = CHR ''x'' then dump_str 4 val
     else if p = CHR ''F'' then
       (case py_or val (VDict []) of VDict d \<Rightarrow> write_table d | _ \<Rightarrow> Inl AttributeError)
     else if p = CHR ''A'' then bindE (py_iter (py_or val (VList []))) write_array
     else (case val of VDateTime t u \<Rightarrow> spack_u 8 t | _ \<Rightarrow> Inl AttributeError))"

definition arg_canon :: "char \<Rightarrow> pyval \<Rightarrow> pyval" where
  "arg_canon p val =
    (if p = CHR ''b'' then VBool (truthy val)
     else if p = CHR ''o'' \<or> p = CHR ''l'' \<or> p = CHR ''L'' then
       (case as_index val of Inr i \<Rightarrow> VInt i | Inl _ \<Rightarrow> VNone)
     else if p = CHR ''B'' then (case py_int val of Inr i \<Rightarrow> VInt i | Inl _ \<Rightarrow> VNone)
     else if p = CHR ''f'' then
       (case bindE (as_float val) f64_to_f32 of Inr w \<Rightarrow> VFloat (f32_to_f64 w) | Inl _ \<Rightarrow> VNone)
     else if p = CHR ''s'' \<or> p = CHR ''S'' then canon (py_or val (VStr []))
     else if p = CHR ''x'' then
       (case py_or val (VStr []) of VStr s \<Rightarrow> VBytes (utf8_encode s) | v \<Rightarrow> v)
     else if p = CHR ''F'' then canon (py_or val (VDict []))
     else if p = CHR ''A'' then
       (case py_iter (py_or val (VList [])) of Inr xs \<Rightarrow> VList (canon_elems xs) | Inl _ \<Rightarrow> VNone)
     else canon val)"

definition arg_readable :: "char \<Rightarrow> pyval \<Rightarrow> bool" where
  "arg_readable p val =
    (if p = CHR ''s'' \<or> p = CHR ''S'' then
       (case py_or val (VStr []) of
          VStr s \<Rightarrow> valid_str s | VBytes b \<Rightarrow> utf8_decode b \<noteq> None | _ \<Rightarrow> True)
     else if p = CHR ''F'' then readable (py_or val (VDict []))
     else if p = CHR ''A'' then
       (case py_iter (py_or val (VList [])) of Inr xs \<Rightarrow> readable_elems xs | Inl _ \<Rightarrow> True)
     else if p = CHR ''T'' then readable val
     else True)"

lemma dumps_step_emit:
  assumes "p \<in> set ''oBlLfsSxFA'' \<or> p = CHR ''T'' \<and> bits = [] \<and> bitcount = 0"
  shows "dumps_step p val (bitcount, bits, out) = emit (bitcount, bits, out) (arg_bytes p val)"
  using assms by (auto simp: dumps_step_def arg_bytes_def emit_def split: pyval.splits)

lemma write_table_Inr:
  "write_table d = Inr bs \<longleftrightarrow>
     (\<exists>data l. write_entries d = Inr data \<and> pack_u 4 (int (length data)) = Some l \<and> bs = l @ data)"
  by (auto simp: write_table_def bindE_eq_Inr with_length_Inr)

lemma write_array_Inr:
  "write_array d = Inr bs \<longleftrightarrow>
     (\<exists>data l. write_elems d = Inr data \<and> pack_u 4 (int (length data)) = Some l \<and> bs = l @ data)"
  by (auto simp: write_array_def bindE_eq_Inr with_length_Inr)

lemma read_written_table:
  assumes "write_table d = Inr bs" and "readable_entries d"
  shows "read_table (pre @ bs @ post) (length pre) = Inr (VDict (canon_entries d []), length pre + length bs)"
proof -
  obtain data l where data: "write_entries d = Inr data"
    and l: "pack_u 4 (int (length data)) = Some l" and bs: "bs = l @ data"
    using assms(1) by (auto simp: write_table_Inr)
  have "length l = 4" using l by (auto dest: pack_u_SomeD)
  then show ?thesis
    using read_table_at [OF l, of pre post] read_written(2) [OF data assms(2), of "pre @ l" post "[]"]
    by (simp add: bs add.assoc)
qed

lemma read_written_array:
  assumes "write_array d = Inr bs" and "readable_elems d"
  shows "read_array (pre @ bs @ post) (length pre) = Inr (VList (canon_elems d), length pre + length bs)"
proof -
  obtain data l where data: "write_elems d = Inr data"
    and l: "pack_u 4 (int (length data)) = Some l" and bs: "bs = l @ data"
    using assms(1) by (auto simp: write_array_Inr)
  have "length l = 4" using l by (auto dest: pack_u_SomeD)
  then show ?thesis
    using read_array_at [OF l, of pre post] read_written(3) [OF data assms(2), of "pre @ l" post "[]"]
    by (simp add: bs add.assoc)
qed

lemma dump_str_Inr:
  "dump_str n v = Inr bs \<longleftrightarrow>
     (\<exists>s. py_or v (VStr []) = VStr s \<and> with_length n (utf8_encode s) = Inr bs) \<or>
     (\<exists>b. py_or v (VStr []) = VBytes b \<and> with_length n b = Inr bs)"
  by (auto simp: dump_str_def bindE_eq_Inr split: pyval.splits)

lemma load_str_at:
  assumes "with_length n b = Inr bs" and "utf8_decode b = Some s"
  shows "load_str n (pre @ bs @ post) (length pre) = Inr (VStr s, length pre + length bs)"
proof -
  obtain l where l: "pack_u n (int (length b)) = Some l" and bs: "bs = l @ b"
    using assms(1) by (auto simp: with_length_Inr)
  have "length l = n" using l by (auto dest: pack_u_SomeD)
  then show ?thesis
    using sunpack_u_at [OF l, of pre "b @ post"] slice_at [of "pre @ l" b post] assms(2)
    by (simp add: load_str_def bs pstr_t_def)
qed

text \<open>The four unsigned integer formats, uniformly.\<close>

definition int_width :: "char \<Rightarrow> nat" where
  "int_width p = (if p = CHR ''o'' then 1 else if p = CHR ''B'' then 2
     else if p = CHR ''l'' then 4 else 8)"

definition arg_int :: "char \<Rightarrow> pyval \<Rightarrow> exn + int" where
  "arg_int p val = (if p = CHR ''B'' then py_int val else as_index val)"

lemma int_formats:
  assumes "p \<in> set ''oBlL''"
  shows "arg_bytes p val = bindE (arg_int p val) (spack_u (int_width p))"
    and "arg_int p val = Inr i \<Longrightarrow> arg_canon p val = VInt i"
    and "loads_step p buf off rbc rb = bindE (sunpack_u (int_width p) buf off)
      (\<lambda>v. Inr (VInt v, off + int_width p, 0, 0))"
  using assms unfolding list.set insert_iff empty_iff simp_thms
  by (elim disjE; simp add: arg_bytes_def arg_int_def int_width_def arg_canon_def
      loads_step_def bindE_assoc)+

lemma load_written:
  assumes "arg_bytes p val = Inr d" and "arg_readable p val"
    and "p \<in> set ''oBlLfsSxFAT''" and "p = CHR ''x'' \<longrightarrow> rbc = 0"
  shows "\<exists>rb'. loads_step p (pre @ d @ post) (length pre) rbc rb
    = Inr (arg_canon p val, length pre + length d, 0, rb')"
proof -
  have "p \<in> set ''oBlL'' \<or> p = CHR ''f'' \<or> p \<in> set ''sS'' \<or> p = CHR ''x'' \<or> p = CHR ''F''
    \<or> p = CHR ''A'' \<or> p = CHR ''T''"
    using assms(3) unfolding list.set insert_iff empty_iff simp_thms
    by (elim disjE) simp_all
  then show ?thesis
  proof (elim disjE, goal_cases int f s x F A T)
    case int
    obtain i where h: "pack_u (int_width p) i = Some d" and c: "arg_canon p val = VInt i"
      using assms(1) int_formats(2) [OF int]
      by (auto simp: int_formats(1) [OF int] bindE_eq_Inr)
    have "length d = int_width p" using h by (auto dest: pack_u_SomeD)
    then show ?thesis
      using c sunpack_u_at [OF h, of pre post] by (simp add: int_formats(3) [OF int])
  next
    case f
    then obtain w where h: "pack_u 4 (uint (w :: f32)) = Some d"
      and c: "arg_canon p val = VFloat (f32_to_f64 w)"
      using assms(1) by (auto simp: arg_bytes_def arg_canon_def bindE_eq_Inr)
    have "length d = 4" using h by (auto dest: pack_u_SomeD)
    then show ?thesis
      using c sunpack_u_at [OF h, of pre post] unfolding f by (simp add: loads_step_def)
  next
    case s
    then obtain b t where "with_length (if p = CHR ''s'' then 1 else 4) b = Inr d"
      and "utf8_decode b = Some t" and "arg_canon p val = VStr t"
      using assms(1,2)
      by (auto simp: arg_bytes_def arg_canon_def arg_readable_def dump_str_Inr)
    then show ?thesis using s
      by (auto simp: loads_step_def load_str_at)
  next
    case x
    then obtain b where b: "with_length 4 b = Inr d" and c: "arg_canon p val = VBytes b"
      using assms(1) by (auto simp: arg_bytes_def arg_canon_def dump_str_Inr)
    then obtain l where l: "pack_u 4 (int (length b)) = Some l" and d: "d = l @ b"
      by (auto simp: with_length_Inr)
    have "length l = 4" using l by (auto dest: pack_u_SomeD)
    then show ?thesis
      using sunpack_u_at [OF l, of pre "b @ post"] slice_at [of "pre @ l" b post] c assms(4)
      unfolding x by (simp add: loads_step_def d)
  next
    case F
    then obtain kvs where "py_or val (VDict []) = VDict kvs" and "write_table kvs = Inr d"
      using assms(1) by (auto simp: arg_bytes_def split: pyval.splits)
    then show ?thesis using F assms(2)
      by (auto simp: loads_step_def arg_canon_def arg_readable_def read_written_table)
  next
    case A
    then obtain xs where "py_iter (py_or val (VList [])) = Inr xs" and "write_array xs = Inr d"
      using assms(1) by (auto simp: arg_bytes_def bindE_eq_Inr)
    then show ?thesis using A assms(2)
      by (auto simp: loads_step_def arg_canon_def arg_readable_def read_written_array)
  next
    case T
    then obtain t u where "val = VDateTime t u" and "pack_u 8 t = Some d"
      using assms(1) by (auto simp: arg_bytes_def split: pyval.splits)
    moreover have "length d = 8" using calculation(2) by (auto dest: pack_u_SomeD)
    ultimately show ?thesis
      using T assms(2) sunpack_u_at [of 8 t d pre post]
      by (simp add: loads_step_def arg_canon_def arg_readable_def from_timestamp_def)
  qed
qed


section \<open>Argument lists and the packing of bits\<close>

text \<open>
  \<open>dumps\<close> packs runs of bits into octets that it writes when the run ends; \<open>loads\<close> reads the
  octet when the run starts. While a run is open the two disagree on the octet: the final
  octet has further bits. \<open>fits\<close> relates the writer's pending octets \<open>bits\<close> after \<open>bitcount\<close>
  bits to the final octets \<open>B\<close> on the wire.
\<close>

definition cur_bits :: "nat \<Rightarrow> nat" where
  "cur_bits bc = (if bc mod 8 = 0 then 8 else bc mod 8)"

definition bits_ok :: "nat \<Rightarrow> int list \<Rightarrow> bool" where
  "bits_ok bc bits \<longleftrightarrow> (\<forall>b \<in> set bits. 0 \<le> b \<and> b < 256)
     \<and> (bits = [] \<longleftrightarrow> bc = 0) \<and> (bits \<noteq> [] \<longrightarrow> last bits < 2 ^ cur_bits bc)"

definition fits :: "nat \<Rightarrow> int list \<Rightarrow> bytes \<Rightarrow> bool" where
  "fits bc bits B \<longleftrightarrow> length B = length bits
     \<and> (bits \<noteq> [] \<longrightarrow> butlast B = map word_of_int (butlast bits)
         \<and> take_bit (cur_bits bc) (uint (last B)) = last bits)"

lemma flushbits_ok: "\<forall>b \<in> set bits. 0 \<le> b \<and> b < 256 \<Longrightarrow> flushbits bits = Inr (map word_of_int bits)"
  by (induction bits) (simp_all add: spack_u_def pack_u_def)

lemma fits_self:
  assumes "bits_ok bc bits"
  shows "fits bc bits (map word_of_int bits)"
proof (cases "bits = []")
  case False
  then have r: "0 \<le> last bits" "last bits < 256" "last bits < 2 ^ cur_bits bc"
    using assms by (auto simp: bits_ok_def)
  then have "uint (word_of_int (last bits) :: byte) = last bits"
    by (simp add: uint_word_of_int)
  then show ?thesis
    using r False by (simp add: fits_def map_butlast last_map take_bit_int_eq_self)
qed (simp add: fits_def)

lemma bits_ok_emit: "bits_ok 0 []"
  by (simp add: bits_ok_def)

text \<open>A new octet, and a further bit of an open one.\<close>

lemma bits_ok_new:
  assumes "bits_ok bc bits" "bc mod 8 = 0" "v \<in> {0, 1}"
  shows "bits_ok (bc + 1) (bits @ [v])"
  using assms by (auto simp: bits_ok_def cur_bits_def mod_Suc)

lemma bit_less: "0 \<le> x \<Longrightarrow> x < 2 ^ s \<Longrightarrow> bit (x :: int) n \<Longrightarrow> n < s"
  by (metis bit_take_bit_iff take_bit_int_eq_self)

lemma or_push_bit_eq:
  assumes "0 \<le> x" "x < 2 ^ s"
  shows "x OR push_bit s v = x + push_bit s (v :: int)"
proof (rule disjunctive_add [symmetric])
  show "\<not> bit x n \<or> \<not> bit (push_bit s v) n" for n
    using bit_less [OF assms, of n] by (auto simp: bit_push_bit_iff_int)
qed

lemma or_push_bit_range:
  assumes "0 \<le> x" "x < 2 ^ s" "v \<in> {0, 1 :: int}"
  shows "0 \<le> x OR push_bit s v \<and> x OR push_bit s v < 2 ^ Suc s"
  unfolding or_push_bit_eq [OF assms(1,2)] using assms by (auto simp: push_bit_eq_mult)

lemma or_push_bit_split:
  assumes "0 \<le> x" "x < 2 ^ s" "take_bit (Suc s) L = x OR push_bit s (v :: int)"
  shows "take_bit s L = x" and "bit L s \<longleftrightarrow> bit v 0"
proof -
  have "take_bit s L = take_bit s (take_bit (Suc s) L)" by simp
  also have "\<dots> = take_bit s x OR take_bit s (push_bit s v)"
    by (simp only: assms(3) take_bit_or)
  also have "take_bit s (push_bit s v) = 0" by (simp add: take_bit_push_bit)
  finally show "take_bit s L = x" using assms by (simp add: take_bit_int_eq_self)
  have "bit L s = bit (take_bit (Suc s) L) s" by (simp add: bit_take_bit_iff)
  also have "\<dots> = bit v 0"
    using bit_less [OF assms(1,2), of s]
    by (auto simp: assms(3) bit_or_iff bit_push_bit_iff_int)
  finally show "bit L s \<longleftrightarrow> bit v 0" .
qed

lemma read_bit: "(drop_bit s L AND 1 = 1) \<longleftrightarrow> bit (L :: int) s"
  by (simp add: and_one_eq bit_iff_odd_drop_bit odd_iff_mod_2_eq_one)

text \<open>
  The formats \<open>loads\<close> reads back: known letters, and no \<open>T\<close> or \<open>x\<close> right after a run of
  bits (\<open>pend\<close> says that a run is open).
\<close>

fun fmt_ok :: "bool \<Rightarrow> string \<Rightarrow> bool" where
  "fmt_ok pend [] = True"
| "fmt_ok pend (p # ps) =
    (if p = CHR ''b'' then fmt_ok True ps
     else if p \<in> set ''oBlLfsSFA'' then fmt_ok False ps
     else if p \<in> set ''xT'' then \<not> pend \<and> fmt_ok False ps
     else False)"

definition args_canon :: "string \<Rightarrow> pyval list \<Rightarrow> pyval list" where
  "args_canon fmt vals = map (\<lambda>(p, v). arg_canon p v) (zip fmt vals)"

definition args_readable :: "string \<Rightarrow> pyval list \<Rightarrow> bool" where
  "args_readable fmt vals = list_all (\<lambda>(p, v). arg_readable p v) (zip fmt vals)"

lemma args_canon_Cons:
  "args_canon (p # ps) (v # vs) = arg_canon p v # args_canon ps vs"
  "arg_canon (CHR ''b'') v = VBool (truthy v)"
  by (simp_all add: args_canon_def arg_canon_def)

lemma args_readable_Cons:
  "args_readable (p # ps) (v # vs) \<longleftrightarrow> arg_readable p v \<and> args_readable ps vs"
  by (simp add: args_readable_def)

text \<open>What the reader must find at the end of a run of \<open>dumps\<close> from a given state.\<close>

definition reads_back :: "string \<Rightarrow> pyval list \<Rightarrow> nat \<Rightarrow> int list \<Rightarrow> bytes \<Rightarrow> bytes \<Rightarrow> bool" where
  "reads_back fmt vals bc bits out res \<longleftrightarrow>
    (\<exists>B rest. res = out @ B @ rest \<and> fits bc bits B \<and>
      (\<forall>pre post rb. (bc mod 8 \<noteq> 0 \<longrightarrow> rb = drop_bit (bc mod 8) (uint (last B))) \<longrightarrow>
        loads_loop fmt (pre @ res @ post) (length pre + length out + length bits)
          (if bc mod 8 = 0 then 0 else 8 - bc mod 8) rb
        = Inr (args_canon fmt vals, length pre + length res)))"

lemma reads_backI:
  assumes "res = out @ B @ rest" and "fits bc bits B"
    and "\<And>pre post rb. bc mod 8 \<noteq> 0 \<longrightarrow> rb = drop_bit (bc mod 8) (uint (last B)) \<Longrightarrow>
        loads_loop fmt (pre @ res @ post) (length pre + length out + length bits)
          (if bc mod 8 = 0 then 0 else 8 - bc mod 8) rb
        = Inr (args_canon fmt vals, length pre + length res)"
  shows "reads_back fmt vals bc bits out res"
  using assms unfolding reads_back_def by blast

lemma reads_back_bit:
  assumes ok: "bits_ok bc bits" and v: "v \<in> {0, 1 :: int}" "v = 1 \<longleftrightarrow> truthy val"
    and bits': "bits' = (if bc mod 8 = 0 then bits @ [0] else bits)"
    and IH: "reads_back fmt vals (Suc bc) (butlast bits' @ [last bits' OR push_bit (bc mod 8) v]) out res"
  shows "reads_back (CHR ''b'' # fmt) (val # vals) bc bits out res"
proof (cases "bc mod 8 = 0")
  case True
  then have b': "butlast bits' @ [last bits' OR push_bit (bc mod 8) v] = bits @ [v]"
    by (simp add: bits')
  have c: "Suc bc mod 8 = 1" using True by (simp add: mod_Suc)
  obtain B rest where res: "res = out @ B @ rest" and f: "fits (Suc bc) (bits @ [v]) B"
    and ld: "\<And>pre post. loads_loop fmt (pre @ res @ post) (length pre + length out + length bits + 1)
          7 (drop_bit 1 (uint (last B))) = Inr (args_canon fmt vals, length pre + length res)"
    using IH unfolding reads_back_def b' c by auto
  have B: "B = map word_of_int bits @ [last B]"
    using f by (metis append_butlast_last_id fits_def butlast_snoc length_0_conv snoc_eq_iff_butlast)
  have t: "take_bit (Suc 0) (uint (last B)) = v"
    using f c by (simp add: fits_def cur_bits_def)
  then have bit: "(uint (last B) AND 1 = 1) = truthy val"
    using v by (simp add: take_bit_Suc_0 and_one_eq)
  have R: "res = out @ map word_of_int bits @ [last B] @ rest"
    using res B by (metis append.assoc)
  have sl: "slice (pre @ res @ post) (length pre + length out + length bits) 1 = [last B]" for pre post
    using slice_at [of "pre @ out @ map word_of_int bits" "[last B]" "rest @ post"]
    unfolding R by (simp add: add.assoc)
  show ?thesis
  proof (rule reads_backI)
    show "res = out @ map word_of_int bits @ ([last B] @ rest)" using R by simp
    show "fits bc bits (map word_of_int bits)" by (rule fits_self [OF ok])
  qed (use True ld sl bit in \<open>simp add: loads_step_def args_canon_Cons\<close>)
next
  case False
  let ?s = "bc mod 8"
  have ne: "bits \<noteq> []" and r: "0 \<le> last bits" "last bits < 2 ^ ?s"
    using ok False by (auto simp: bits_ok_def cur_bits_def)
  have c: "cur_bits (Suc bc) = Suc ?s" "Suc bc mod 8 = (if ?s = 7 then 0 else Suc ?s)"
    using False by (auto simp: cur_bits_def mod_Suc)
  obtain B rest where res: "res = out @ B @ rest"
    and f: "fits (Suc bc) (butlast bits @ [last bits OR push_bit ?s v]) B"
    and ld: "\<And>pre post rb. (Suc bc mod 8 \<noteq> 0 \<longrightarrow> rb = drop_bit (Suc bc mod 8) (uint (last B))) \<Longrightarrow>
        loads_loop fmt (pre @ res @ post) (length pre + length out + length bits)
          (if Suc bc mod 8 = 0 then 0 else 8 - Suc bc mod 8) rb
        = Inr (args_canon fmt vals, length pre + length res)"
    using IH ne False unfolding reads_back_def bits' by auto
  let ?L = "uint (last B)"
  have t: "take_bit (Suc ?s) ?L = last bits OR push_bit ?s v"
    using f c by (simp add: fits_def)
  have val: "(drop_bit ?s ?L AND 1 = 1) = truthy val"
    using or_push_bit_split(2) [OF r t] v by (auto simp: read_bit)
  have ld': "loads_loop fmt (pre @ res @ post) (length pre + length out + length bits)
      (7 - ?s) (drop_bit (Suc ?s) ?L) = Inr (args_canon fmt vals, length pre + length res)"
    for pre post
    using ld [of "drop_bit (Suc ?s) ?L" pre post] c(2) by (auto split: if_splits)
  have s8: "(8 \<le> ?s) = False" by (simp add: not_le)
  show ?thesis
  proof (rule reads_backI)
    show "res = out @ B @ rest" by (rule res)
    show "fits bc bits B"
      using f or_push_bit_split(1) [OF r t] ne False by (simp add: fits_def cur_bits_def)
  qed (use False ld' val in \<open>simp add: loads_step_def args_canon_Cons s8\<close>)
qed

lemma reads_back_other:
  assumes ok: "bits_ok bc bits" and p: "p \<in> set ''oBlLfsSFA'' \<or> p \<in> set ''xT'' \<and> bits = []"
    and d: "arg_bytes p val = Inr d" and rd: "arg_readable p val"
    and IH: "reads_back fmt vals 0 [] (out @ map word_of_int bits @ d) res"
  shows "reads_back (p # fmt) (val # vals) bc bits out res"
proof -
  obtain rest where res: "res = out @ map word_of_int bits @ d @ rest"
    and ld: "\<And>pre post rb. loads_loop fmt (pre @ res @ post)
        (length pre + (length out + length bits + length d)) 0 rb
        = Inr (args_canon fmt vals, length pre + length res)"
    using IH unfolding reads_back_def fits_def by (auto simp: add.assoc)
  have p': "p \<in> set ''oBlLfsSxFAT''" using p by auto
  have bc: "bc = 0" if "p = CHR ''x''" using that p ok by (auto simp: bits_ok_def)
  have step: "\<exists>rb'. loads_step p (pre @ res @ post) (length pre + length out + length bits) rbc rb
      = Inr (arg_canon p val, length pre + length out + length bits + length d, 0, rb')"
    if "p = CHR ''x'' \<longrightarrow> rbc = 0" for pre post rbc rb
    using load_written [OF d rd p' that, of "pre @ out @ map word_of_int bits" "rest @ post" rb]
    by (simp add: res add.assoc)
  show ?thesis
  proof (rule reads_backI)
    show "res = out @ map word_of_int bits @ (d @ rest)" using res by simp
    show "fits bc bits (map word_of_int bits)" by (rule fits_self [OF ok])
    fix pre post :: bytes and rb :: int
    let ?rbc = "if bc mod 8 = 0 then 0 else 8 - bc mod 8"
    have "p = CHR ''x'' \<longrightarrow> ?rbc = 0" using bc by auto
    from step [OF this] obtain rb' where
      "loads_step p (pre @ res @ post) (length pre + length out + length bits) ?rbc rb
      = Inr (arg_canon p val, length pre + length out + length bits + length d, 0, rb')" by blast
    then show "loads_loop (p # fmt) (pre @ res @ post) (length pre + length out + length bits) ?rbc rb
        = Inr (args_canon (p # fmt) (val # vals), length pre + length res)"
      using ld [of pre post rb'] by (simp only: loads_loop.simps) (simp add: args_canon_Cons add.assoc)
  qed
qed

lemma dumps_step_bit:
  assumes "bits_ok bc bits"
  shows "\<exists>v bits'. v \<in> {0, 1} \<and> (v = 1 \<longleftrightarrow> truthy val)
    \<and> bits' = (if bc mod 8 = 0 then bits @ [0] else bits)
    \<and> dumps_step (CHR ''b'') val (bc, bits, out)
       = Inr (Suc bc, butlast bits' @ [last bits' OR push_bit (bc mod 8) v], out)
    \<and> bits_ok (Suc bc) (butlast bits' @ [last bits' OR push_bit (bc mod 8) v])"
proof -
  define v :: int where "v = (if truthy val then 1 else 0)"
  define bits' where "bits' = (if bc mod 8 = 0 then bits @ [0] else bits)"
  have v: "v \<in> {0, 1}" "v = 1 \<longleftrightarrow> truthy val" by (auto simp: v_def)
  have ne: "bits' \<noteq> []" using assms by (auto simp: bits'_def bits_ok_def)
  have st: "dumps_step (CHR ''b'') val (bc, bits, out)
       = Inr (Suc bc, butlast bits' @ [last bits' OR push_bit (bc mod 8) v], out)"
    using ne by (simp add: dumps_step_def bits'_def v_def)
  have "bits_ok (Suc bc) (butlast bits' @ [last bits' OR push_bit (bc mod 8) v])"
  proof (cases "bc mod 8 = 0")
    case True
    then show ?thesis using bits_ok_new [OF assms True v(1)] by (simp add: bits'_def)
  next
    case False
    have r: "0 \<le> last bits" "last bits < 2 ^ (bc mod 8)" and b: "\<forall>b \<in> set bits. 0 \<le> b \<and> b < 256"
      using assms False by (auto simp: bits_ok_def cur_bits_def)
    have c: "cur_bits (Suc bc) = Suc (bc mod 8)"
      using False by (auto simp: cur_bits_def mod_Suc)
    have "(2 :: int) ^ Suc (bc mod 8) \<le> 2 ^ 8" by (rule power_increasing) auto
    then show ?thesis
      using or_push_bit_range [OF r v(1)] b False
      by (auto simp: bits_ok_def c bits'_def dest: in_set_butlastD)
  qed
  with v st show ?thesis unfolding bits'_def by blast
qed

lemma dumps_loop_reads_back:
  assumes "dumps_loop fmt vals (bc, bits, out) = Inr (bc', bits', out')"
    and "bits_ok bc bits" and "fmt_ok (bits \<noteq> []) fmt"
    and "length fmt = length vals" and "args_readable fmt vals"
  shows "\<exists>fl. flushbits bits' = Inr fl \<and> reads_back fmt vals bc bits out (out' @ fl)"
  using assms
proof (induction fmt vals "(bc, bits, out)" arbitrary: bc bits out rule: dumps_loop.induct)
  case (1 fmt)
  then have "reads_back [] [] bc bits out (out @ map word_of_int bits)"
    by (intro reads_backI [of _ _ "map word_of_int bits" "[]"] fits_self) (auto simp: args_canon_def)
  then show ?case
    using 1 by (auto simp: bits_ok_def intro!: exI [of _ "map word_of_int bits"] flushbits_ok)
next
  case (2 v vs)
  then show ?case by simp
next
  case (3 p ps v vs)
  have rd: "arg_readable p v" "args_readable ps vs"
    using "3.prems"(5) by (auto simp: args_readable_Cons)
  show ?case
  proof (cases "p = CHR ''b''")
    case True
    obtain w bits1 where w: "w \<in> {0, 1}" "w = 1 \<longleftrightarrow> truthy v"
      and b1: "bits1 = (if bc mod 8 = 0 then bits @ [0] else bits)"
      and st: "dumps_step p v (bc, bits, out)
       = Inr (Suc bc, butlast bits1 @ [last bits1 OR push_bit (bc mod 8) w], out)"
      and ok: "bits_ok (Suc bc) (butlast bits1 @ [last bits1 OR push_bit (bc mod 8) w])"
      using dumps_step_bit [OF "3.prems"(2)] True by blast
    show ?thesis
      using "3.hyps" [OF _ ok] "3.prems" rd st True
        reads_back_bit [OF "3.prems"(2) w b1] by fastforce
  next
    case False
    have p: "p \<in> set ''oBlLfsSFA'' \<or> p \<in> set ''xT'' \<and> bits = []" and ok': "fmt_ok False ps"
      using "3.prems"(3) False by (auto split: if_splits)
    have fl: "flushbits bits = Inr (map word_of_int bits)"
      using "3.prems"(2) by (auto simp: bits_ok_def intro: flushbits_ok)
    have "p \<in> set ''oBlLfsSxFA'' \<or> p = CHR ''T'' \<and> bits = [] \<and> bc = 0"
      using p "3.prems"(2) by (auto simp: bits_ok_def)
    from dumps_step_emit [OF this] obtain d where d: "arg_bytes p v = Inr d"
      and st: "dumps_step p v (bc, bits, out) = Inr (0, [], out @ map word_of_int bits @ d)"
      using "3.prems"(1) by (auto simp: emit_def fl bindE_eq_Inr)
    show ?thesis
      using "3.hyps" [OF _ bits_ok_emit] "3.prems" rd st ok'
        reads_back_other [OF "3.prems"(2) p d rd(1)] by fastforce
  qed
qed

lemma loads_dumps:
  assumes "dumps fmt vals = Inr bs" and "fmt_ok False fmt" and "length fmt = length vals"
    and "args_readable fmt vals"
  shows "loads fmt (pre @ bs @ post) (length pre) = Inr (args_canon fmt vals, length pre + length bs)"
proof -
  obtain bc bits out fl where l: "dumps_loop fmt vals (0, [], []) = Inr (bc, bits, out)"
    and fl: "flushbits bits = Inr fl" and bs: "bs = out @ fl"
    using assms(1) by (auto simp: dumps_def bindE_eq_Inr)
  have "reads_back fmt vals 0 [] [] bs"
    using dumps_loop_reads_back [OF l bits_ok_emit] assms(2-4) fl bs by auto
  then show ?thesis by (auto simp: reads_back_def fits_def loads_def)
qed

section \<open>Values that come back unchanged\<close>

fun plain :: "pyval \<Rightarrow> bool"
  and plain_entries :: "(pykey \<times> pyval) list \<Rightarrow> bool"
  and plain_elems :: "pyval list \<Rightarrow> bool"
where
  "plain (VStr s) = valid_str s"
| "plain (VDateTime t u) = (t \<le> max_timestamp \<and> u = 0)"
| "plain (VDict kvs) = (distinct (map fst kvs) \<and> plain_entries kvs)"
| "plain (VList xs) = plain_elems xs"
| "plain (VBytes b) = (utf8_decode b = None)"
| "plain (VDecimal d) = False"
| "plain VOther = False"
| "plain (VInt i) = True"
| "plain (VBool b) = True"
| "plain (VFloat w) = True"
| "plain VNone = True"
| "plain_entries [] = True"
| "plain_entries ((k, v) # kvs) =
    ((\<exists>s. k = KStr s \<and> valid_str s) \<and> plain v \<and> plain_entries kvs)"
| "plain_elems [] = True"
| "plain_elems (v # vs) = (plain v \<and> plain_elems vs)"

lemma dict_set_new: "k \<notin> fst ` set d \<Longrightarrow> dict_set k v d = d @ [(k, v)]"
  unfolding dict_set_def by (induction d) auto

lemma plain_canon:
  "plain v \<Longrightarrow> canon v = v \<and> readable v"
  "plain_entries kvs \<Longrightarrow> readable_entries kvs \<and>
     (distinct (map fst kvs) \<longrightarrow> fst ` set kvs \<inter> fst ` set d = {} \<longrightarrow> canon_entries kvs d = d @ kvs)"
  "plain_elems vs \<Longrightarrow> canon_elems vs = vs \<and> readable_elems vs"
proof (induction v and kvs and vs arbitrary: and d and rule: plain_plain_entries_plain_elems.induct)
  case (13 k v kvs)
  then show ?case
    by (auto simp: readable_key_def canon_key_def dict_set_new)
qed (auto split: option.splits)

end
