(* ===== verification/Content.thy ===== *)
theory Content
  imports Serialization_Roundtrip
begin

text \<open>
  Message contents: the property list of a content header (\<open>decode_properties_basic\<close>,
  \<open>_serialize_properties\<close>), and \<open>GenericContent\<close> / \<open>Message\<close>, which gather a header and
  the body frames into a complete message.
\<close>

section \<open>Decoding properties\<close>

text \<open>
  The branches of \<open>decode_properties_basic\<close> by the type of the property: each reads one
  value if its flag is set and stores it under its name.
\<close>

type_synonym props = "(string \<times> pyval) list"

definition read_prop_s :: "int \<Rightarrow> bytes \<Rightarrow> int \<Rightarrow> string \<Rightarrow> props \<times> nat \<Rightarrow> exn + props \<times> nat" where
  "read_prop_s flags buf msk name st = (case st of (ps, off) \<Rightarrow>
     if flags AND msk \<noteq> 0 then
       bindE (sunpack_u 1 buf off) (\<lambda>slen.
       bindE (pstr_t (slice buf (off + 1) (nat slen))) (\<lambda>s.
         Inr (ps @ [(name, VStr s)], off + 1 + nat slen)))
     else Inr (ps, off))"

definition read_prop_F :: "int \<Rightarrow> bytes \<Rightarrow> int \<Rightarrow> string \<Rightarrow> props \<times> nat \<Rightarrow> exn + props \<times> nat" where
  "read_prop_F flags buf msk name st = (case st of (ps, off) \<Rightarrow>
     if flags AND msk \<noteq> 0 then
       bindE (loads ''F'' buf off) (\<lambda>(f, off').
         case f of [v] \<Rightarrow> Inr (ps @ [(name, v)], off') | _ \<Rightarrow> Inl ValueError)
     else Inr (ps, off))"

definition read_prop_int :: "nat \<Rightarrow> int \<Rightarrow> bytes \<Rightarrow> int \<Rightarrow> string \<Rightarrow> props \<times> nat
    \<Rightarrow> exn + props \<times> nat" where
  "read_prop_int n flags buf msk name st = (case st of (ps, off) \<Rightarrow>
     if flags AND msk \<noteq> 0 then
       bindE (sunpack_u n buf off) (\<lambda>v. Inr (ps @ [(name, VInt v)], off + n))
     else Inr (ps, off))"

definition decode_properties_basic :: "bytes \<Rightarrow> nat \<Rightarrow> exn + props \<times> nat" where
  "decode_properties_basic buf off =
     bindE (sunpack_u 2 buf off) (\<lambda>flags.
     bindE (read_prop_s flags buf 0x8000 ''content_type'' ([], off + 2)) (\<lambda>st.
     bindE (read_prop_s flags buf 0x4000 ''content_encoding'' st) (\<lambda>st.
     bindE (read_prop_F flags buf 0x2000 ''application_headers'' st) (\<lambda>st.
     bindE (read_prop_int 1 flags buf 0x1000 ''delivery_mode'' st) (\<lambda>st.
     bindE (read_prop_int 1 flags buf 0x0800 ''priority'' st) (\<lambda>st.
     bindE (read_prop_s flags buf 0x0400 ''correlation_id'' st) (\<lambda>st.
     bindE (read_prop_s flags buf 0x0200 ''reply_to'' st) (\<lambda>st.
     bindE (read_prop_s flags buf 0x0100 ''expiration'' st) (\<lambda>st.
     bindE (read_prop_s flags buf 0x0080 ''message_id'' st) (\<lambda>st.
     bindE (read_prop_int 8 flags buf 0x0040 ''timestamp'' st) (\<lambda>st.
     bindE (read_prop_s flags buf 0x0020 ''type'' st) (\<lambda>st.
     bindE (read_prop_s flags buf 0x0010 ''user_id'' st) (\<lambda>st.
     bindE (read_prop_s flags buf 0x0008 ''app_id'' st) (\<lambda>st.
     read_prop_s flags buf 0x0004 ''cluster_id'' st))))))))))))))"

definition PROPERTY_CLASSES :: "int \<Rightarrow> (bytes \<Rightarrow> nat \<Rightarrow> exn + props \<times> nat) option" where
  "PROPERTY_CLASSES class_id =
     (if class_id = Basic_CLASS_ID then Some decode_properties_basic else None)"

section \<open>Messages\<close>

text \<open>
  A \<open>Message\<close>. Property names are the identifiers of the source. \<open>body\<close> is any value the
  application gave (text or bytes as a rule); an inbound body is bytes. \<open>channel\<close> is the
  id of the channel object that delivered the message.
\<close>

record message =
  frame_method :: "method_sig option"
  frame_args :: bytes
  properties :: props
  pending_chunks :: "bytes list"
  body_received :: nat
  body_size :: nat
  ready :: bool
  delivery_info :: "(string \<times> pyval) list option"
  body :: pyval
  channel :: "nat option"

definition message_init :: "method_sig option \<Rightarrow> bytes \<Rightarrow> pyval \<Rightarrow> props \<Rightarrow> message" where
  "message_init fmeth fargs bdy props =
     \<lparr>frame_method = fmeth, frame_args = fargs, properties = props, pending_chunks = [],
      body_received = 0, body_size = 0, ready = False, delivery_info = None,
      body = bdy, channel = None\<rparr>"

definition PROPERTIES :: "(string \<times> string) list" where
  "PROPERTIES =
    [(''content_type'', ''s''), (''content_encoding'', ''s''),
     (''application_headers'', ''F''), (''delivery_mode'', ''o''), (''priority'', ''o''),
     (''correlation_id'', ''s''), (''reply_to'', ''s''), (''expiration'', ''s''),
     (''message_id'', ''s''), (''timestamp'', ''L''), (''type'', ''s''),
     (''user_id'', ''s''), (''app_id'', ''s''), (''cluster_id'', ''s'')]"

text \<open>\<open>__getattr__\<close> and the derived attributes of \<open>Message\<close>.\<close>

definition get_attr :: "message \<Rightarrow> string \<Rightarrow> exn + pyval" where
  "get_attr msg name = (if name = ''__setstate__'' then Inl AttributeError
     else get_or AttributeError (map_of (properties msg) name))"

definition headers :: "message \<Rightarrow> pyval" where
  "headers msg = (case map_of (properties msg) ''application_headers'' of
     Some v \<Rightarrow> v | None \<Rightarrow> VNone)"

definition delivery_tag :: "message \<Rightarrow> exn + pyval" where
  "delivery_tag msg = (case delivery_info msg of
     None \<Rightarrow> Inl AttributeError
   | Some d \<Rightarrow> Inr (case map_of d ''delivery_tag'' of Some v \<Rightarrow> v | None \<Rightarrow> VNone))"

text \<open>The loop of \<open>_serialize_properties\<close>: shift, flag bits, full flag words, format, values.\<close>

fun serialize_loop :: "props \<Rightarrow> (string \<times> string) list \<Rightarrow> int \<Rightarrow> int \<Rightarrow> int list \<Rightarrow> string
    \<Rightarrow> pyval list \<Rightarrow> exn + int list \<times> string \<times> pyval list" where
  "serialize_loop props [] shift flag_bits flags sformat svalues =
     Inr (flags @ [flag_bits], sformat, svalues)"
| "serialize_loop props ((key, proptype) # ps) shift flag_bits flags sformat svalues =
    (case (case map_of props key of None \<Rightarrow> VNone | Some v \<Rightarrow> v) of
       VNone \<Rightarrow> serialize_loop props ps (shift - 1) flag_bits flags sformat svalues
     | val \<Rightarrow>
        (let (flags, flag_bits, shift) =
           (if shift = 0 then (flags @ [flag_bits], 0, 15) else (flags, flag_bits, shift))
         in if shift < 0 then Inl ValueError
            else
              (let flag_bits = flag_bits OR push_bit (nat shift) 1
               in if proptype \<noteq> ''bit''
                  then serialize_loop props ps (shift - 1) flag_bits flags
                         (sformat @ proptype) (svalues @ [val])
                  else serialize_loop props ps (shift - 1) flag_bits flags sformat svalues)))"

fun pack_flags :: "int list \<Rightarrow> exn + bytes" where
  "pack_flags [] = Inr []"
| "pack_flags (f # fs) =
     bindE (spack_u 2 f) (\<lambda>x. bindE (pack_flags fs) (\<lambda>y. Inr (x @ y)))"

definition serialize_properties :: "message \<Rightarrow> exn + bytes" where
  "serialize_properties msg =
     bindE (serialize_loop (properties msg) PROPERTIES 15 0 [] [] []) (\<lambda>(flags, fmt, vals).
     bindE (pack_flags flags) (\<lambda>fl.
     bindE (dumps fmt vals) (\<lambda>d. Inr (fl @ d))))"

text \<open>\<open>_load_properties\<close> and the two inbound handlers.\<close>

definition load_properties :: "int \<Rightarrow> bytes \<Rightarrow> nat \<Rightarrow> (message, exn, nat) act" where
  "load_properties class_id buf off msg =
    (case PROPERTY_CLASSES class_id of
       None \<Rightarrow> (Inl KeyError, msg)
     | Some dec \<Rightarrow> (case dec buf off of
         Inl e \<Rightarrow> (Inl e, msg)
       | Inr (props, off') \<Rightarrow> (Inr off', msg\<lparr>properties := props\<rparr>)))"

definition inbound_header :: "bytes \<Rightarrow> nat \<Rightarrow> (message, exn, nat) act" where
  "inbound_header buf off =
     bindA (liftA (bindE (sunpack_u 2 buf off) (\<lambda>class_id.
                   bindE (sunpack_u 8 buf (off + 4)) (\<lambda>size. Inr (class_id, size)))))
       (\<lambda>(class_id, size).
     bindA (modA (\<lambda>m. m\<lparr>body_size := nat size\<rparr>)) (\<lambda>_.
     bindA (load_properties class_id buf (off + 12)) (\<lambda>_.
     bindA (modA (\<lambda>m. if body_size m = 0 then m\<lparr>ready := True\<rparr> else m)) (\<lambda>_.
     retA (off + 12)))))"

definition inbound_body :: "bytes \<Rightarrow> message \<Rightarrow> message" where
  "inbound_body buf msg =
    (let msg = msg\<lparr>body_received := body_received msg + length buf\<rparr>
     in if body_received msg \<ge> body_size msg then
          (if pending_chunks msg \<noteq> [] then
             msg\<lparr>body := VBytes (concat (pending_chunks msg @ [buf])), pending_chunks := [],
                 ready := True\<rparr>
           else msg\<lparr>body := VBytes buf, ready := True\<rparr>)
        else msg\<lparr>pending_chunks := pending_chunks msg @ [buf]\<rparr>)"

end
