(* ===== verification/Content_Roundtrip.thy ===== *)
theory Content_Roundtrip
  imports Content
begin

text \<open>
  The property list written by \<open>_serialize_properties\<close> is read back by
  \<open>decode_properties_basic\<close>, and a body cut into frames is put together again by
  \<open>inbound_body\<close>.
\<close>

section \<open>Both sides as one loop over the table of properties\<close>

definition read_prop :: "char \<Rightarrow> int \<Rightarrow> bytes \<Rightarrow> int \<Rightarrow> string \<Rightarrow> props \<times> nat
    \<Rightarrow> exn + props \<times> nat" where
  "read_prop t flags buf m n st =
    (if t = CHR ''s'' then read_prop_s flags buf m n st
     else if t = CHR ''F'' then read_prop_F flags buf m n st
     else if t = CHR ''o'' then read_prop_int 1 flags buf m n st
     else read_prop_int 8 flags buf m n st)"

fun read_props :: "int \<Rightarrow> bytes \<Rightarrow> (int \<times> string \<times> char) list \<Rightarrow> props \<times> nat
    \<Rightarrow> exn + props \<times> nat" where
  "read_props flags buf [] st = Inr st"
| "read_props flags buf ((m, n, t) # ps) st =
     bindE (read_prop t flags buf m n st) (\<lambda>st'. read_props flags buf ps st')"

fun prop_table :: "(string \<times> string) list \<Rightarrow> nat \<Rightarrow> (int \<times> string \<times> char) list" where
  "prop_table [] k = []"
| "prop_table ((n, t) # ps) k = (2 ^ k, n, hd t) # prop_table ps (k - 1)"

lemma bindE_Inr_right [simp]: "bindE m Inr = m"
  by (cases m) auto

lemma read_props_fun:
  "read_props flags buf [] = Inr"
  "read_props flags buf ((m, n, t) # ps) =
     (\<lambda>st. bindE (read_prop t flags buf m n st) (read_props flags buf ps))"
  by (simp_all add: fun_eq_iff)

lemma decode_as_loop:
  "decode_properties_basic buf off = bindE (sunpack_u 2 buf off)
     (\<lambda>flags. read_props flags buf (prop_table PROPERTIES 15) ([], off + 2))"
  by (simp add: decode_properties_basic_def PROPERTIES_def read_prop_def read_props_fun)

lemma read_prop_loads:
  assumes "t \<in> set ''sFoL''"
  shows "read_prop t flags buf m n (ps, off) =
    (if flags AND m \<noteq> 0 then
       bindE (loads_step t buf off 0 0) (\<lambda>(v, off', _, _). Inr (ps @ [(n, v)], off'))
     else Inr (ps, off))"
  using assms unfolding list.set insert_iff empty_iff simp_thms
  by (elim disjE; simp add: read_prop_def read_prop_s_def read_prop_F_def read_prop_int_def
      loads_step_def load_str_def loads_def bindE_assoc case_prod_unfold)

definition prop_value :: "props \<Rightarrow> string \<Rightarrow> pyval" where
  "prop_value props n = (case map_of props n of None \<Rightarrow> VNone | Some v \<Rightarrow> v)"

definition flag_bit :: "nat \<Rightarrow> int" where
  "flag_bit k = 2 ^ k"

lemma bit_flag_bit [simp]: "bit (flag_bit k) j \<longleftrightarrow> j = k"
  by (auto simp: flag_bit_def bit_exp_iff)

fun flag_word :: "props \<Rightarrow> (string \<times> string) list \<Rightarrow> nat \<Rightarrow> int" where
  "flag_word props [] k = 0"
| "flag_word props ((n, t) # ps) k =
     (if prop_value props n = VNone then 0 else flag_bit k) OR flag_word props ps (k - 1)"

definition present :: "props \<Rightarrow> (string \<times> string) list \<Rightarrow> (string \<times> string) list" where
  "present props ps = filter (\<lambda>(n, t). prop_value props n \<noteq> VNone) ps"

definition props_fmt :: "props \<Rightarrow> (string \<times> string) list \<Rightarrow> string" where
  "props_fmt props ps = concat (map snd (present props ps))"

definition props_vals :: "props \<Rightarrow> (string \<times> string) list \<Rightarrow> pyval list" where
  "props_vals props ps = map (\<lambda>(n, t). prop_value props n) (present props ps)"

definition canon_props :: "props \<Rightarrow> (string \<times> string) list \<Rightarrow> props" where
  "canon_props props ps =
     map (\<lambda>(n, t). (n, arg_canon (hd t) (prop_value props n))) (present props ps)"

definition props_readable :: "props \<Rightarrow> (string \<times> string) list \<Rightarrow> bool" where
  "props_readable props ps \<longleftrightarrow>
     (\<forall>(n, t) \<in> set (present props ps). arg_readable (hd t) (prop_value props n))"

lemmas props_defs = props_fmt_def props_vals_def canon_props_def props_readable_def present_def

lemma serialize_loop_eq:
  assumes "length ps \<le> k" and "\<forall>(n, t) \<in> set ps. t \<noteq> ''bit''"
  shows "serialize_loop props ps (int k) fb fl fmt vals
    = Inr (fl @ [fb OR flag_word props ps k], fmt @ props_fmt props ps, vals @ props_vals props ps)"
  using assms
proof (induction ps arbitrary: k fb fmt vals)
  case Nil
  then show ?case by (simp add: props_defs)
next
  case (Cons p ps)
  obtain n t where p: "p = (n, t)" by (cases p)
  obtain k' where k: "k = Suc k'" using Cons.prems(1) by (cases k) auto
  then have k1: "int k - 1 = int k'" "k - Suc 0 = k'" "k \<noteq> 0" by simp_all
  have IH: "serialize_loop props ps (int k') fb' fl fmt' vals'
    = Inr (fl @ [fb' OR flag_word props ps k'], fmt' @ props_fmt props ps,
           vals' @ props_vals props ps)" for fb' fmt' vals'
    using Cons.IH [of k'] Cons.prems k by auto
  show ?case
    using IH Cons.prems(2)
    by (cases "prop_value props n")
      (simp_all add: p k1 prop_value_def [symmetric] flag_bit_def [symmetric] props_defs or.assoc)
qed

lemma bit_flag_word: "bit (flag_word props ps k) j \<Longrightarrow> j \<le> k"
proof (induction ps arbitrary: k)
  case Nil
  then show ?case by simp
next
  case (Cons p ps)
  obtain n t where p: "p = (n, t)" by (cases p)
  have "j = k \<or> bit (flag_word props ps (k - 1)) j"
    using Cons.prems by (auto simp: p bit_or_iff split: if_splits)
  then show ?case using Cons.IH [of "k - 1"] by auto
qed

lemma dumps_loop_Cons_emit:
  assumes "t \<in> set ''sFoL''" and "dumps_loop (t # fmt) (v # vals) (0, [], out) = Inr st"
  obtains d where "arg_bytes t v = Inr d" and "dumps_loop fmt vals (0, [], out @ d) = Inr st"
proof -
  have "t \<in> set ''oBlLfsSxFA'' \<or> t = CHR ''T'' \<and> ([] :: int list) = [] \<and> (0 :: nat) = 0"
    using assms(1) by auto
  from dumps_step_emit [OF this] show ?thesis
    using assms(2) that by (auto simp: emit_def bindE_eq_Inr)
qed

lemma read_props_written:
  assumes "dumps_loop (props_fmt props ps) (props_vals props ps) (0, [], out) = Inr (bc, bits, out')"
    and "\<forall>(n, t) \<in> set ps. \<exists>c. t = [c] \<and> c \<in> set ''sFoL''" and "length ps \<le> k"
    and "\<forall>j \<le> k. bit flags j = bit (flag_word props ps k) j"
    and "props_readable props ps"
  shows "bits = [] \<and> (\<exists>rest. out' = out @ rest) \<and>
    (\<forall>pre post acc. read_props flags (pre @ out' @ post) (prop_table ps k) (acc, length pre + length out)
      = Inr (acc @ canon_props props ps, length pre + length out'))"
  using assms
proof (induction ps arbitrary: k out)
  case Nil
  then show ?case by (simp add: props_defs)
next
  case (Cons p ps)
  obtain n c where p: "p = (n, [c])" and c: "c \<in> set ''sFoL''"
    using Cons.prems(2) by (cases p) auto
  obtain k' where k: "k = Suc k'" using Cons.prems(3) by (cases k) auto
  have fl: "\<forall>j \<le> k'. bit flags j = bit (flag_word props ps k') j"
    using Cons.prems(4) by (auto simp: p k bit_or_iff)
  have bk: "(flags AND 2 ^ k \<noteq> 0) = (prop_value props n \<noteq> VNone)"
  proof -
    have "(flags AND 2 ^ k \<noteq> 0) = bit flags k" by (simp add: and_exp_eq_0_iff_not_bit)
    also have "\<dots> = bit (flag_word props (p # ps) k) k" using Cons.prems(4) by blast
    finally show ?thesis
      using bit_flag_word [of props ps k' k] by (auto simp: p k bit_or_iff)
  qed
  show ?case
  proof (cases "prop_value props n = VNone")
    case True
    have "present props (p # ps) = present props ps" using True by (simp add: p present_def)
    then have eq: "props_fmt props (p # ps) = props_fmt props ps"
      "props_vals props (p # ps) = props_vals props ps"
      "canon_props props (p # ps) = canon_props props ps"
      "props_readable props (p # ps) = props_readable props ps"
      by (simp_all add: props_fmt_def props_vals_def canon_props_def props_readable_def)
    show ?thesis
      using Cons.IH [of out k'] Cons.prems fl bk True
      unfolding eq by (simp add: p k read_prop_loads [OF c])
  next
    case False
    let ?v = "prop_value props n"
    have eq: "props_fmt props (p # ps) = c # props_fmt props ps"
      "props_vals props (p # ps) = ?v # props_vals props ps"
      "canon_props props (p # ps) = (n, arg_canon c ?v) # canon_props props ps"
      and rd: "arg_readable c ?v" "props_readable props ps"
      using False Cons.prems(5) by (auto simp: p props_defs)
    obtain d where d: "arg_bytes c ?v = Inr d"
      and rest: "dumps_loop (props_fmt props ps) (props_vals props ps) (0, [], out @ d)
          = Inr (bc, bits, out')"
      using dumps_loop_Cons_emit [OF c] Cons.prems(1) unfolding eq by blast
    from Cons.IH [OF rest _ _ fl rd(2)] Cons.prems(2,3) k
    obtain r where bits: "bits = []" and out': "out' = out @ d @ r"
      and IH: "\<And>pre post acc. read_props flags (pre @ out' @ post) (prop_table ps k')
        (acc, length pre + length (out @ d)) = Inr (acc @ canon_props props ps, length pre + length out')"
      by auto
    have c': "c \<in> set ''oBlLfsSxFAT''" using c by auto
    have "read_prop c flags (pre @ out' @ post) (2 ^ k) n (acc, length pre + length out)
        = Inr (acc @ [(n, arg_canon c ?v)], length pre + length (out @ d))" for pre post acc
      using load_written [OF d rd(1) c', of 0 "pre @ out" "r @ post" 0] bk False
      by (auto simp: read_prop_loads [OF c] out' add.assoc)
    then show ?thesis
      using IH bits out' unfolding eq by (simp add: p k)
  qed
qed

lemma serialize_properties_Inr:
  assumes "serialize_properties msg = Inr bs"
  obtains fl d where "pack_u 2 (flag_word (properties msg) PROPERTIES 15) = Some fl"
    and "dumps (props_fmt (properties msg) PROPERTIES) (props_vals (properties msg) PROPERTIES) = Inr d"
    and "bs = fl @ d"
proof -
  have "serialize_loop (properties msg) PROPERTIES 15 0 [] [] []
    = Inr ([flag_word (properties msg) PROPERTIES 15],
           props_fmt (properties msg) PROPERTIES, props_vals (properties msg) PROPERTIES)"
    using serialize_loop_eq [of PROPERTIES 15 "properties msg" 0 "[]" "[]" "[]"]
    by (simp add: PROPERTIES_def)
  then show ?thesis
    using assms that by (auto simp: serialize_properties_def bindE_eq_Inr)
qed

lemma PROPERTIES_ok:
  "\<forall>(n, t) \<in> set PROPERTIES. \<exists>c. t = [c] \<and> c \<in> set ''sFoL''"
  "length PROPERTIES \<le> 15"
  by (simp_all add: PROPERTIES_def)

lemma decode_serialize:
  assumes "serialize_properties msg = Inr bs" and "props_readable (properties msg) PROPERTIES"
  shows "decode_properties_basic (pre @ bs @ post) (length pre)
    = Inr (canon_props (properties msg) PROPERTIES, length pre + length bs)"
proof -
  let ?P = "properties msg"
  obtain fl d where fl: "pack_u 2 (flag_word ?P PROPERTIES 15) = Some fl"
    and d: "dumps (props_fmt ?P PROPERTIES) (props_vals ?P PROPERTIES) = Inr d" and bs: "bs = fl @ d"
    using serialize_properties_Inr [OF assms(1)] by blast
  obtain bc bits out f where l: "dumps_loop (props_fmt ?P PROPERTIES) (props_vals ?P PROPERTIES)
        (0, [], []) = Inr (bc, bits, out)"
    and f: "flushbits bits = Inr f" "d = out @ f"
    using d by (auto simp: dumps_def bindE_eq_Inr)
  have "bits = [] \<and> (\<forall>pre post acc. read_props (flag_word ?P PROPERTIES 15) (pre @ out @ post)
      (prop_table PROPERTIES 15) (acc, length pre)
      = Inr (acc @ canon_props ?P PROPERTIES, length pre + length out))"
    using read_props_written [OF l PROPERTIES_ok, of "flag_word ?P PROPERTIES 15"] assms(2)
    by simp
  then have rp: "read_props (flag_word ?P PROPERTIES 15) ((pre @ fl) @ out @ post)
      (prop_table PROPERTIES 15) ([], length (pre @ fl))
      = Inr (canon_props ?P PROPERTIES, length (pre @ fl) + length out)"
    and "d = out"
    using f by (simp_all del: length_append append_assoc)
  moreover have "length fl = 2" using fl by (auto dest: pack_u_SomeD)
  ultimately show ?thesis
    using sunpack_u_at [OF fl, of pre "out @ post"] by (simp add: decode_as_loop bs add.assoc)
qed

section \<open>Reassembly of a body\<close>

definition receive_body :: "bytes list \<Rightarrow> message \<Rightarrow> message" where
  "receive_body chunks msg = fold inbound_body chunks msg"

lemma receive_body_frame [simp]:
  "frame_method (receive_body cs msg) = frame_method msg"
  "frame_args (receive_body cs msg) = frame_args msg"
proof -
  have "frame_method (fold inbound_body cs msg) = frame_method msg
    \<and> frame_args (fold inbound_body cs msg) = frame_args msg"
    by (induction cs arbitrary: msg) (auto simp: inbound_body_def Let_def)
  then show "frame_method (receive_body cs msg) = frame_method msg"
    "frame_args (receive_body cs msg) = frame_args msg"
    by (simp_all add: receive_body_def)
qed

lemma receive_body_partial:
  assumes "pending_chunks msg = cs" and "body_received msg = length (concat cs)"
    and "\<not> ready msg" and "length (concat (cs @ chunks)) < body_size msg"
  shows "receive_body chunks msg = msg\<lparr>pending_chunks := cs @ chunks,
    body_received := length (concat (cs @ chunks))\<rparr>"
  using assms
proof (induction chunks arbitrary: cs msg)
  case Nil
  then show ?case by (simp add: receive_body_def)
next
  case (Cons c chunks)
  have "inbound_body c msg = msg\<lparr>pending_chunks := cs @ [c],
      body_received := length (concat (cs @ [c]))\<rparr>"
    using Cons.prems by (simp add: inbound_body_def)
  then show ?case
    using Cons.prems Cons.IH [of "msg\<lparr>pending_chunks := cs @ [c],
      body_received := length (concat (cs @ [c]))\<rparr>" "cs @ [c]"]
    by (simp add: receive_body_def add.assoc)
qed

lemma receive_body_complete:
  assumes "pending_chunks msg = []" and "body_received msg = 0" and "\<not> ready msg"
    and "length (concat chunks) < body_size msg"
    and "body_size msg \<le> length (concat (chunks @ [c]))"
  shows "ready (receive_body (chunks @ [c]) msg)
    \<and> body (receive_body (chunks @ [c]) msg) = VBytes (concat (chunks @ [c]))
    \<and> pending_chunks (receive_body (chunks @ [c]) msg) = []
    \<and> properties (receive_body (chunks @ [c]) msg) = properties msg"
proof -
  have "receive_body (chunks @ [c]) msg = inbound_body c (receive_body chunks msg)"
    by (simp add: receive_body_def)
  also have "receive_body chunks msg = msg\<lparr>pending_chunks := chunks,
      body_received := length (concat chunks)\<rparr>"
    using receive_body_partial [of msg "[]" chunks] assms by simp
  finally show ?thesis
    using assms by (simp add: inbound_body_def Let_def)
qed

end
