(* ===== verification/Framing.thy ===== *)
theory Framing
  imports Content_Roundtrip
begin

text \<open>
  method_framing.py. \<open>on_frame\<close> is the closure \<open>frame_handler\<close> returns: per channel it
  remembers which frame type must come next and the content being put together.
  \<open>write_frame\<close> is the closure \<open>frame_writer\<close> returns: it cuts a method and its content into
  frames and hands them to the transport.
\<close>

section \<open>Inbound: frame_handler\<close>

text \<open>
  A frame is (type, channel, payload). \<open>expected_types\<close> is a \<open>defaultdict\<close>, so a total map;
  \<open>bytes_recv\<close> is the counter of the connection that the heartbeat logic reads.
\<close>

type_synonym frame = "int \<times> int \<times> bytes"

record frame_handler =
  expected_types :: "int \<Rightarrow> int"
  partial_messages :: "int \<Rightarrow> message option"
  bytes_recv :: nat

definition frame_handler_init :: "nat \<Rightarrow> frame_handler" where
  "frame_handler_init recv =
     \<lparr>expected_types = (\<lambda>_. 1), partial_messages = (\<lambda>_. None), bytes_recv = recv\<rparr>"

definition CONTENT_METHODS :: "method_sig list" where
  "CONTENT_METHODS = [Basic_Return, Basic_Deliver, Basic_GetOk]"

text \<open>
  What one call of the closure leads to: \<open>None\<close> when it returns \<open>False\<close>, and the arguments
  of \<open>callback\<close> when it calls it (its last action) and returns \<open>True\<close>.
\<close>

type_synonym delivery = "int \<times> method_sig \<times> bytes \<times> message option"

definition unpack_sig :: "bytes \<Rightarrow> exn + method_sig" where
  "unpack_sig buf = bindE (sunpack_u 2 buf 0) (\<lambda>c. bindE (sunpack_u 2 buf 2) (\<lambda>m. Inr (c, m)))"

definition set_expected :: "int \<Rightarrow> int \<Rightarrow> frame_handler \<Rightarrow> frame_handler" where
  "set_expected ch t s = s\<lparr>expected_types := (expected_types s)(ch := t)\<rparr>"

definition set_partial :: "int \<Rightarrow> message option \<Rightarrow> frame_handler \<Rightarrow> frame_handler" where
  "set_partial ch m s = s\<lparr>partial_messages := (partial_messages s)(ch := m)\<rparr>"

text \<open>\<open>msg = partial_messages[channel]; f(msg)\<close>, where \<open>f\<close> changes the message in place.\<close>

definition on_partial :: "int \<Rightarrow> (message, exn, unit) act \<Rightarrow> (frame_handler, exn, message) act" where
  "on_partial ch f s = (case partial_messages s ch of
     None \<Rightarrow> (Inl KeyError, s)
   | Some msg \<Rightarrow> (case f msg of
       (Inl e, msg') \<Rightarrow> (Inl e, set_partial ch (Some msg') s)
     | (Inr _, msg') \<Rightarrow> (Inr msg', set_partial ch (Some msg') s)))"

text \<open>\<open>expected_types[channel] = 1; partial_messages.pop(channel, None); callback(...)\<close>.\<close>

definition content_done :: "int \<Rightarrow> message \<Rightarrow> (frame_handler, exn, delivery option) act" where
  "content_done ch msg s =
     (case frame_method msg of
        None \<Rightarrow> (Inr None, set_partial ch None (set_expected ch 1 s))
      | Some sig \<Rightarrow> (Inr (Some (ch, sig, frame_args msg, Some msg)),
                     set_partial ch None (set_expected ch 1 s)))"

definition on_frame :: "frame \<Rightarrow> (frame_handler, exn, delivery option) act" where
  "on_frame frm = (case frm of (frame_type, ch, buf) \<Rightarrow>
     bindA (modA (\<lambda>s. s\<lparr>bytes_recv := bytes_recv s + 1\<rparr>)) (\<lambda>_.
     bindA (getA (\<lambda>s. expected_types s ch)) (\<lambda>expected.
     if frame_type \<noteq> expected \<and> frame_type \<noteq> 8 then
       raiseA (raise_amqp UnexpectedFrame ''Received frame {} while expecting type: {}'')
     else if frame_type = 1 then
       bindA (liftA (unpack_sig buf)) (\<lambda>sig.
         if sig \<in> set CONTENT_METHODS then
           bindA (modA (\<lambda>s. set_expected ch 2
                    (set_partial ch (Some (message_init (Some sig) buf (VStr []) [])) s)))
             (\<lambda>_. retA None)
         else retA (Some (ch, sig, buf, None)))
     else if frame_type = 2 then
       bindA (on_partial ch (bindA (inbound_header buf 0) (\<lambda>_. retA ()))) (\<lambda>msg.
         if \<not> ready msg then bindA (modA (set_expected ch 3)) (\<lambda>_. retA None)
         else content_done ch msg)
     else if frame_type = 3 then
       bindA (on_partial ch (modA (inbound_body buf))) (\<lambda>msg.
         if \<not> ready msg then retA None
         else content_done ch msg)
     else retA None)))"

text \<open>A sequence of frames, each handled whatever became of the ones before it.\<close>

fun run_frames :: "frame list \<Rightarrow> frame_handler \<Rightarrow> (exn + delivery option) list \<times> frame_handler" where
  "run_frames [] s = ([], s)"
| "run_frames (f # fs) s =
     (let (r, s') = on_frame f s; (rs, s'') = run_frames fs s' in (r # rs, s''))"

section \<open>Outbound: frame_writer\<close>

text \<open>
  \<open>str_to_bytes\<close>, and \<open>body.encode(encoding)\<close>: UTF-8 is written out; the other encodings of
  the interpreter's codec registry are the parameter \<open>codecs\<close>.
\<close>

definition str_to_bytes :: "pyval \<Rightarrow> pyval" where
  "str_to_bytes v = (case v of VStr s \<Rightarrow> VBytes (utf8_encode s) | _ \<Rightarrow> v)"

type_synonym codecs = "pystr \<Rightarrow> pystr \<Rightarrow> exn + bytes"

definition py_encode :: "codecs \<Rightarrow> pystr \<Rightarrow> pyval \<Rightarrow> exn + bytes" where
  "py_encode codecs s encoding = (case encoding of
     VStr enc \<Rightarrow> (if enc = pys ''utf-8'' then get_or UnicodeEncodeError (utf8_encode_strict s)
                 else codecs enc s)
   | _ \<Rightarrow> Inl TypeError)"

text \<open>\<open>len(x)\<close> of a value that must be bytes; other sequences are not modelled.\<close>

definition as_bytes :: "pyval \<Rightarrow> exn + bytes" where
  "as_bytes v = (case v of VBytes b \<Rightarrow> Inr b | _ \<Rightarrow> Inl TypeError)"

text \<open>The state of the closure: the buffer, what it uses of the connection, the transport.\<close>

record 't frame_writer =
  frame_max :: int
  bytes_sent :: nat
  buffer_store :: bytes
  transport :: 't

definition frame_writer_init :: "int \<Rightarrow> nat \<Rightarrow> 't \<Rightarrow> exn + 't frame_writer" where
  "frame_writer_init fmax sent t =
     (if fmax - 8 < 0 then Inl ValueError
      else Inr \<lparr>frame_max = fmax, bytes_sent = sent, buffer_store = replicate (nat (fmax - 8)) 0,
                transport = t\<rparr>)"

definition to_transport :: "('t, exn, 'a) act \<Rightarrow> ('t frame_writer, exn, 'a) act" where
  "to_transport f s = (case f (transport s) of (r, t) \<Rightarrow> (r, s\<lparr>transport := t\<rparr>))"

text \<open>\<open>pack('>BHI%dsB' % framelen, type, channel, framelen, frame, 0xce)\<close>.\<close>

definition FRAME_END :: byte where
  "FRAME_END = 0xce"

definition pack_frame :: "int \<Rightarrow> int \<Rightarrow> bytes \<Rightarrow> exn + bytes" where
  "pack_frame ftype ch frame =
     bindE (spack_u 1 ftype) (\<lambda>a. bindE (spack_u 2 ch) (\<lambda>b.
     bindE (spack_u 4 (int (length frame))) (\<lambda>c. Inr (a @ b @ c @ frame @ [FRAME_END]))))"

definition pack_into :: "nat \<Rightarrow> bytes \<Rightarrow> bytes \<Rightarrow> exn + bytes" where
  "pack_into off data buf =
     (if off + length data \<le> length buf
      then Inr (take off buf @ data @ drop (off + length data) buf)
      else Inl StructError)"

text \<open>\<open>pack_into(fmt, buf, offset, ...); offset += 8 + framelen\<close> on the buffer of the closure.\<close>

definition pack_next :: "int \<Rightarrow> int \<Rightarrow> bytes \<Rightarrow> nat \<Rightarrow> ('t frame_writer, exn, nat) act" where
  "pack_next ftype ch frame off s =
     (case bindE (pack_frame ftype ch frame) (\<lambda>d. pack_into off d (buffer_store s)) of
        Inl e \<Rightarrow> (Inl e, s)
      | Inr buf \<Rightarrow> (Inr (off + 8 + length frame), s\<lparr>buffer_store := buf\<rparr>))"

text \<open>The payload of the method frame, empty for any other frame type.\<close>

definition method_payload :: "int \<Rightarrow> method_sig option \<Rightarrow> pyval \<Rightarrow> exn + bytes" where
  "method_payload ftype sig args =
     (if ftype = 1 then (case sig of
        None \<Rightarrow> Inl TypeError
      | Some (c, m) \<Rightarrow> bindE (spack_u 2 c) (\<lambda>c. bindE (spack_u 2 m) (\<lambda>m.
          bindE (as_bytes args) (\<lambda>a. Inr (c @ m @ a)))))
      else Inr [])"

definition header_payload :: "method_sig option \<Rightarrow> nat \<Rightarrow> bytes \<Rightarrow> exn + bytes" where
  "header_payload sig bodylen props = (case sig of
     None \<Rightarrow> Inl TypeError
   | Some (c, m) \<Rightarrow> bindE (spack_u 2 c) (\<lambda>c. bindE (spack_u 2 0) (\<lambda>z.
       bindE (spack_u 8 (int bodylen)) (\<lambda>n. Inr (c @ z @ n @ props)))))"

text \<open>\<open>body[i:i + chunk_size] for i in range(0, bodylen, chunk_size)\<close>.\<close>

definition body_chunks :: "bytes \<Rightarrow> int \<Rightarrow> exn + bytes list" where
  "body_chunks bdy chunk_size =
     (if chunk_size = 0 then Inl ValueError
      else if chunk_size < 0 then Inr []
      else (let c = nat chunk_size
            in Inr (map (\<lambda>k. slice bdy (k * c) c) [0..<(length bdy + c - 1) div c])))"

text \<open>The body as bytes and the serialized properties; text is encoded, which also sets the
  \<open>content_encoding\<close> of the message.\<close>

definition encode_body :: "codecs \<Rightarrow> (message, exn, pyval) act" where
  "encode_body codecs =
     bindA (getA body) (\<lambda>b. case b of
       VStr s \<Rightarrow>
         bindA (modA (\<lambda>m. case map_of (properties m) ''content_encoding'' of
                  None \<Rightarrow> m\<lparr>properties :=
                     properties m @ [(''content_encoding'', VStr (pys ''utf-8''))]\<rparr>
                | Some _ \<Rightarrow> m)) (\<lambda>_.
         bindA (getA (\<lambda>m. case map_of (properties m) ''content_encoding'' of
                  None \<Rightarrow> VNone | Some e \<Rightarrow> e)) (\<lambda>encoding.
         bindA (liftA (py_encode codecs s encoding)) (\<lambda>bs. retA (VBytes bs))))
     | v \<Rightarrow> retA v)"

definition content_parts :: "codecs \<Rightarrow> (message, exn, bytes \<times> bytes) act" where
  "content_parts codecs =
     bindA (encode_body codecs) (\<lambda>b.
     bindA (getA serialize_properties) (\<lambda>p.
     bindA (liftA p) (\<lambda>props.
     bindA (liftA (as_bytes b)) (\<lambda>bdy. retA (bdy, props)))))"

definition FRAME_OVERHEAD :: int where
  "FRAME_OVERHEAD = 40"

definition send_body_frame :: "(bytes \<Rightarrow> ('t, exn, unit) act) \<Rightarrow> int \<Rightarrow> bytes
    \<Rightarrow> ('t frame_writer, exn, unit) act" where
  "send_body_frame write ch frame =
     bindA (liftA (pack_frame 3 ch frame)) (\<lambda>d. to_transport (write d))"

definition write_slow :: "(bytes \<Rightarrow> ('t, exn, unit) act) \<Rightarrow> int \<Rightarrow> int \<Rightarrow> method_sig option
    \<Rightarrow> pyval \<Rightarrow> bytes \<Rightarrow> bytes \<Rightarrow> int \<Rightarrow> ('t frame_writer, exn, unit) act" where
  "write_slow write ftype ch sig args bdy props chunk_size =
     bindA (liftA (bindE (method_payload ftype sig args) (pack_frame ftype ch))) (\<lambda>d.
     bindA (to_transport (write d)) (\<lambda>_.
     if bdy \<noteq> [] then
       bindA (liftA (bindE (header_payload sig (length bdy) props) (pack_frame 2 ch))) (\<lambda>d.
       bindA (to_transport (write d)) (\<lambda>_.
       bindA (liftA (body_chunks bdy chunk_size)) (\<lambda>cs.
       forA cs (send_body_frame write ch))))
     else retA ()))"

definition write_fast :: "(bytes \<Rightarrow> ('t, exn, unit) act) \<Rightarrow> int \<Rightarrow> int \<Rightarrow> method_sig option
    \<Rightarrow> pyval \<Rightarrow> (bytes \<times> bytes) option \<Rightarrow> int \<Rightarrow> ('t frame_writer, exn, unit) act" where
  "write_fast write ftype ch sig args content chunk_size =
     bindA (modA (\<lambda>s. if chunk_size > int (length (buffer_store s))
                      then s\<lparr>buffer_store := replicate (nat chunk_size) 0\<rparr> else s)) (\<lambda>_.
     bindA (liftA (method_payload ftype sig args)) (\<lambda>frame.
     bindA (pack_next ftype ch frame 0) (\<lambda>off.
     bindA (case content of
              None \<Rightarrow> retA off
            | Some (bdy, props) \<Rightarrow>
                bindA (liftA (header_payload sig (length bdy) props)) (\<lambda>frame.
                bindA (pack_next 2 ch frame off) (\<lambda>off.
                if length bdy > 0 then pack_next 3 ch bdy off else retA off))) (\<lambda>off.
     bindA (getA (\<lambda>s. take off (buffer_store s))) (\<lambda>view.
     to_transport (write view))))))"

text \<open>\<open>write_frame\<close>, over the closure's state and the message being sent.\<close>

definition write_frame :: "codecs \<Rightarrow> (bytes \<Rightarrow> ('t, exn, unit) act) \<Rightarrow> int \<Rightarrow> int
    \<Rightarrow> method_sig option \<Rightarrow> pyval \<Rightarrow> message option
    \<Rightarrow> 't frame_writer \<Rightarrow> (exn + unit) \<times> 't frame_writer \<times> message option" where
  "write_frame codecs write ftype ch sig args content s =
    (let chunk_size = frame_max s - 8;
         args = str_to_bytes args;
         sent = (\<lambda>(r, s). (r, case r of Inl _ \<Rightarrow> s | Inr _ \<Rightarrow> s\<lparr>bytes_sent := bytes_sent s + 1\<rparr>))
     in case content of
       None \<Rightarrow>
         (let (r, s') = sent (write_fast write ftype ch sig args None chunk_size s)
          in (r, s', None))
     | Some msg \<Rightarrow> (case content_parts codecs msg of
         (Inl e, msg') \<Rightarrow> (Inl e, s, Some msg')
       | (Inr (bdy, props), msg') \<Rightarrow> (case as_bytes args of
           Inl e \<Rightarrow> (Inl e, s, Some msg')
         | Inr a \<Rightarrow>
             (let framelen = int (length a + length props + length bdy) + FRAME_OVERHEAD;
                  (r, s') = sent (if framelen > chunk_size
                    then write_slow write ftype ch sig args bdy props chunk_size s
                    else write_fast write ftype ch sig args (Some (bdy, props)) chunk_size s)
              in (r, s', Some msg')))))"

end
