(* ===== verification/Framing_Inbound.thy ===== *)
theory Framing_Inbound
  imports Framing
begin

text \<open>
  Facts about \<open>on_frame\<close>: the invariant of its tables, the independence of the channels,
  and the reassembly of a content whatever frames of other channels come in between.
\<close>

section \<open>The invariant\<close>

definition message_ok :: "int \<Rightarrow> message \<Rightarrow> bool" where
  "message_ok expected m \<longleftrightarrow> \<not> ready m \<and> frame_method m \<noteq> None \<and> body m = VStr [] \<and>
     body_received m = length (concat (pending_chunks m)) \<and>
     (expected = 2 \<and> pending_chunks m = [] \<or> expected = 3 \<and> body_received m < body_size m)"

definition channel_ok :: "frame_handler \<Rightarrow> int \<Rightarrow> bool" where
  "channel_ok s ch \<longleftrightarrow> (case partial_messages s ch of
     None \<Rightarrow> expected_types s ch = 1
   | Some m \<Rightarrow> message_ok (expected_types s ch) m)"

definition handler_ok :: "frame_handler \<Rightarrow> bool" where
  "handler_ok s \<longleftrightarrow> (\<forall>ch. channel_ok s ch)"

lemma handler_init_ok [frame_inv]: "handler_ok (frame_handler_init n)"
  by (simp add: handler_ok_def channel_ok_def frame_handler_init_def)

lemma inbound_header_shape:
  assumes "inbound_header buf off m = (r, m')" and "message_ok 2 m"
  shows "(case r of Inl _ \<Rightarrow> message_ok 2 m'
          | Inr _ \<Rightarrow> frame_method m' = frame_method m \<and> frame_args m' = frame_args m \<and>
              (if ready m' then body_size m' = 0 else message_ok 3 m'))"
  using assms
  by (auto simp: inbound_header_def bindA_def load_properties_def message_ok_def
      split: sum.splits option.splits prod.splits if_splits)

lemma inbound_body_ok:
  assumes "message_ok 3 m"
  shows "frame_method (inbound_body buf m) = frame_method m"
    and "frame_args (inbound_body buf m) = frame_args m"
    and "\<not> ready (inbound_body buf m) \<Longrightarrow> message_ok 3 (inbound_body buf m)"
  using assms by (auto simp: inbound_body_def Let_def message_ok_def split: if_splits)

lemmas on_frame_defs = on_frame_def bindA_def on_partial_def content_done_def
  set_expected_def set_partial_def

lemma on_frame_other:
  assumes "on_frame (t, ch, buf) s = (r, s')" and "ch' \<noteq> ch"
  shows "expected_types s' ch' = expected_types s ch'"
    and "partial_messages s' ch' = partial_messages s ch'"
  using assms
  by (auto simp: on_frame_defs split: sum.splits option.splits prod.splits if_splits)

lemma on_frame_local:
  assumes "expected_types s ch = expected_types t ch"
    and "partial_messages s ch = partial_messages t ch"
  shows "fst (on_frame (ft, ch, buf) s) = fst (on_frame (ft, ch, buf) t)
    \<and> expected_types (snd (on_frame (ft, ch, buf) s)) ch = expected_types (snd (on_frame (ft, ch, buf) t)) ch
    \<and> partial_messages (snd (on_frame (ft, ch, buf) s)) ch = partial_messages (snd (on_frame (ft, ch, buf) t)) ch"
  using assms
  by (auto simp: on_frame_defs split: sum.splits option.splits prod.splits)

text \<open>What a frame of each type does to its own channel.\<close>

lemma on_frame_header:
  assumes "expected_types s ch = 2" and "partial_messages s ch = Some m"
  shows "on_frame (2, ch, buf) s = (case inbound_header buf 0 m of
     (Inl e, m') \<Rightarrow> (Inl e, set_partial ch (Some m') (s\<lparr>bytes_recv := bytes_recv s + 1\<rparr>))
   | (Inr _, m') \<Rightarrow>
      if ready m' then content_done ch m' (s\<lparr>bytes_recv := bytes_recv s + 1\<rparr>)
      else (Inr None, set_expected ch 3
              (set_partial ch (Some m') (s\<lparr>bytes_recv := bytes_recv s + 1\<rparr>))))"
  using assms by (auto simp: on_frame_defs split: sum.splits prod.splits option.splits)

lemma on_frame_body:
  assumes "expected_types s ch = 3" and "partial_messages s ch = Some m"
  shows "on_frame (3, ch, buf) s =
     (let m' = inbound_body buf m; s' = s\<lparr>bytes_recv := bytes_recv s + 1\<rparr>
      in if ready m' then content_done ch m' s'
         else (Inr None, set_partial ch (Some m') s'))"
  using assms by (auto simp: on_frame_defs Let_def split: sum.splits prod.splits option.splits)

lemma on_frame_reject:
  assumes "t \<noteq> expected_types s ch"
  shows "on_frame (t, ch, buf) s =
    (if t = 8 then Inr None
     else Inl (raise_amqp UnexpectedFrame ''Received frame {} while expecting type: {}''),
     s\<lparr>bytes_recv := bytes_recv s + 1\<rparr>)"
  using assms by (simp add: on_frame_def bindA_def)

lemma channel_ok_upd [simp]:
  "channel_ok (s\<lparr>bytes_recv := n\<rparr>) ch = channel_ok s ch"
  "channel_ok (set_partial ch None (set_expected ch 1 s)) ch"
  "channel_ok (set_partial ch (Some m) s) ch = message_ok (expected_types s ch) m"
  "channel_ok (set_expected ch e (set_partial ch (Some m) s)) ch = message_ok e m"
  by (simp_all add: channel_ok_def set_partial_def set_expected_def split: option.split)

lemma channel_cases:
  assumes "channel_ok s ch"
  obtains (idle) "partial_messages s ch = None" "expected_types s ch = 1"
    | (header) m where "partial_messages s ch = Some m" "expected_types s ch = 2" "message_ok 2 m"
    | (body) m where "partial_messages s ch = Some m" "expected_types s ch = 3" "message_ok 3 m"
  using assms by (auto simp: channel_ok_def message_ok_def split: option.splits)

lemma content_done_ok: "content_done ch m s = (r, s') \<Longrightarrow> channel_ok s' ch"
  by (auto simp: content_done_def split: option.splits)

lemma on_frame_own_ok:
  assumes ok: "channel_ok s ch" and f: "on_frame (t, ch, buf) s = (r, s')"
  shows "channel_ok s' ch"
proof (cases "t = expected_types s ch")
  case False
  then show ?thesis using f ok by (auto simp: on_frame_reject)
next
  case True
  from ok show ?thesis
  proof (cases rule: channel_cases)
    case idle
    then show ?thesis
      using f ok True
      by (auto simp: on_frame_def bindA_def message_init_def message_ok_def
          split: sum.splits if_splits)
  next
    case (header m)
    obtain q m' where q: "inbound_header buf 0 m = (q, m')" by (cases "inbound_header buf 0 m")
    show ?thesis
      using f True header inbound_header_shape [OF q header(3)] content_done_ok
      by (auto simp: on_frame_header q split: sum.splits if_splits)
  next
    case (body m)
    then show ?thesis
      using f True inbound_body_ok(3) [OF body(3), of buf] content_done_ok
      by (auto simp: on_frame_body Let_def split: if_splits)
  qed
qed

lemma on_frame_ok [frame_inv]:
  assumes "handler_ok s" and "on_frame f s = (r, s')"
  shows "handler_ok s'"
proof -
  obtain t ch buf where f: "f = (t, ch, buf)" by (cases f)
  have cong: "channel_ok s' c = channel_ok s c"
    if "expected_types s' c = expected_types s c" "partial_messages s' c = partial_messages s c"
    for c
    using that by (simp add: channel_ok_def split: option.split)
  have "channel_ok s' ch'" for ch'
  proof (cases "ch' = ch")
    case True
    then show ?thesis
      using on_frame_own_ok [OF _ assms(2) [unfolded f]] assms(1) by (simp add: handler_ok_def)
  next
    case False
    then show ?thesis
      using cong [OF on_frame_other [OF assms(2) [unfolded f] False]] assms(1)
      by (simp add: handler_ok_def)
  qed
  then show ?thesis by (simp add: handler_ok_def)
qed

lemma run_frames_ok [frame_inv]: "handler_ok s \<Longrightarrow> handler_ok (snd (run_frames fs s))"
  by (induction fs arbitrary: s) (auto simp: split_beta Let_def dest: on_frame_ok [OF _ prod.collapse [symmetric]])

section \<open>Independence of the channels\<close>

definition same_channel :: "int \<Rightarrow> frame_handler \<Rightarrow> frame_handler \<Rightarrow> bool" where
  "same_channel ch s t \<longleftrightarrow> expected_types s ch = expected_types t ch
     \<and> partial_messages s ch = partial_messages t ch"

text \<open>The results of the frames of one channel in a sequence.\<close>

definition results_of :: "int \<Rightarrow> frame list \<Rightarrow> (exn + delivery option) list
    \<Rightarrow> (exn + delivery option) list" where
  "results_of ch fs rs = map snd (filter (\<lambda>(f, r). fst (snd f) = ch) (zip fs rs))"

definition frames_of :: "int \<Rightarrow> frame list \<Rightarrow> frame list" where
  "frames_of ch fs = filter (\<lambda>f. fst (snd f) = ch) fs"

lemma run_frames_local:
  assumes "same_channel ch s t"
  shows "results_of ch fs (fst (run_frames fs s)) = fst (run_frames (frames_of ch fs) t)
    \<and> same_channel ch (snd (run_frames fs s)) (snd (run_frames (frames_of ch fs) t))"
  using assms
proof (induction fs arbitrary: s t)
  case Nil
  then show ?case by (simp add: results_of_def frames_of_def)
next
  case (Cons f fs)
  obtain ft c buf where f: "f = (ft, c, buf)" by (cases f)
  obtain r s' where s': "on_frame f s = (r, s')" by (cases "on_frame f s")
  show ?case
  proof (cases "c = ch")
    case True
    obtain t' where t': "on_frame f t = (r, t')" and st: "same_channel ch s' t'"
      using on_frame_local [of s ch t ft buf] Cons.prems s'
      by (cases "on_frame f t") (auto simp: same_channel_def f True)
    show ?thesis
      using Cons.IH [OF st] True
      by (cases "run_frames fs s'"; cases "run_frames (frames_of ch fs) t'")
        (simp add: frames_of_def results_of_def s' [unfolded f True] t' [unfolded f True] f)
  next
    case False
    have "same_channel ch s' t"
      using on_frame_other [OF s' [unfolded f], of ch] False Cons.prems
      by (simp add: same_channel_def)
    from Cons.IH [OF this] False show ?thesis
      by (cases "run_frames fs s'") (simp add: frames_of_def results_of_def s' [unfolded f] f)
  qed
qed

section \<open>Reassembly\<close>

lemma run_frames_append:
  "run_frames (fs @ gs) s = (let (rs, s') = run_frames fs s; (qs, s'') = run_frames gs s'
     in (rs @ qs, s''))"
  by (induction fs arbitrary: s) (simp_all add: split_beta Let_def)

text \<open>Body frames that do not complete the content.\<close>

lemma run_body_frames:
  assumes "expected_types s ch = 3" and "partial_messages s ch = Some m" and "\<not> ready m"
    and "body_received m = length (concat (pending_chunks m))"
    and "length (concat (pending_chunks m @ cs)) < body_size m"
  shows "\<exists>s'. run_frames (map (\<lambda>c. (3, ch, c)) cs) s = (map (\<lambda>_. Inr None) cs, s')
    \<and> expected_types s' ch = 3 \<and> partial_messages s' ch = Some (receive_body cs m)"
  using assms
proof (induction cs arbitrary: s m)
  case Nil
  then show ?case by (simp add: receive_body_def)
next
  case (Cons c cs)
  let ?m = "inbound_body c m"
  let ?s = "set_partial ch (Some ?m) (s\<lparr>bytes_recv := bytes_recv s + 1\<rparr>)"
  have m: "?m = m\<lparr>pending_chunks := pending_chunks m @ [c],
      body_received := length (concat (pending_chunks m @ [c]))\<rparr>"
    using Cons.prems by (simp add: inbound_body_def)
  have step: "on_frame (3, ch, c) s = (Inr None, ?s)"
    using Cons.prems by (simp add: on_frame_body Let_def m)
  have "\<exists>s'. run_frames (map (\<lambda>c. (3, ch, c)) cs) ?s = (map (\<lambda>_. Inr None) cs, s')
    \<and> expected_types s' ch = 3 \<and> partial_messages s' ch = Some (receive_body cs ?m)"
    by (rule Cons.IH) (use Cons.prems in \<open>simp_all add: set_partial_def m\<close>)
  then show ?case by (auto simp: step receive_body_def)
qed

text \<open>
  A content as the frames of one channel: the method frame, the header, and body frames of
  which only the last one completes the announced n.
\<close>

definition header_message :: "method_sig \<Rightarrow> bytes \<Rightarrow> nat \<Rightarrow> props \<Rightarrow> message" where
  "header_message sig margs n props =
     (message_init (Some sig) margs (VStr []) props)\<lparr>body_size := n, ready := (n = 0)\<rparr>"

lemma run_content_frames:
  assumes "expected_types s ch = 1" and sig: "unpack_sig mbuf = Inr sig" "sig \<in> set CONTENT_METHODS"
    and hdr: "inbound_header hbuf 0 (message_init (Some sig) mbuf (VStr []) [])
      = (Inr q, header_message sig mbuf n props)"
    and "length (concat cs) < n" and "n \<le> length (concat (cs @ [c]))"
  shows "\<exists>s' msg. run_frames ((1, ch, mbuf) # (2, ch, hbuf) # map (\<lambda>c. (3, ch, c)) (cs @ [c])) s
      = ([Inr None, Inr None] @ map (\<lambda>_. Inr None) cs @ [Inr (Some (ch, sig, mbuf, Some msg))], s')
    \<and> body msg = VBytes (concat (cs @ [c])) \<and> properties msg = props \<and> ready msg
    \<and> expected_types s' ch = 1 \<and> partial_messages s' ch = None"
proof -
  let ?h = "header_message sig mbuf n props"
  obtain s1 where 1: "on_frame (1, ch, mbuf) s = (Inr None, s1)"
    and s1: "expected_types s1 ch = 2"
      "partial_messages s1 ch = Some (message_init (Some sig) mbuf (VStr []) [])"
    using assms(1) sig by (simp add: on_frame_defs)
  obtain s2 where 2: "on_frame (2, ch, hbuf) s1 = (Inr None, s2)"
    and s2: "expected_types s2 ch = 3" "partial_messages s2 ch = Some ?h"
    using assms(5) hdr
    by (simp add: on_frame_header [OF s1] set_expected_def set_partial_def header_message_def)
  have h: "\<not> ready ?h" "pending_chunks ?h = []" "body_received ?h = 0" "body_size ?h = n"
    "properties ?h = props" "frame_method ?h = Some sig" "frame_args ?h = mbuf"
    using assms(5) by (simp_all add: header_message_def message_init_def)
  obtain s3 where 3: "run_frames (map (\<lambda>c. (3, ch, c)) cs) s2 = (map (\<lambda>_. Inr None) cs, s3)"
    and s3: "expected_types s3 ch = 3" "partial_messages s3 ch = Some (receive_body cs ?h)"
    using run_body_frames [OF s2 h(1), of cs] h assms(5) by auto
  let ?m = "receive_body (cs @ [c]) ?h"
  have m: "ready ?m \<and> body ?m = VBytes (concat (cs @ [c])) \<and> properties ?m = props"
    using receive_body_complete [OF h(2,3,1), of cs c] assms(5,6) h by simp
  have fm: "frame_method ?m = Some sig" "frame_args ?m = mbuf"
    using receive_body_frame [of "cs @ [c]" ?h] h by simp_all
  have "?m = inbound_body c (receive_body cs ?h)" by (simp add: receive_body_def)
  then obtain s4 where 4: "on_frame (3, ch, c) s3 = (Inr (Some (ch, sig, mbuf, Some ?m)), s4)"
    and s4: "expected_types s4 ch = 1" "partial_messages s4 ch = None"
    using m fm
    by (simp add: on_frame_body [OF s3] Let_def content_done_def set_expected_def set_partial_def)
  have "run_frames ((1, ch, mbuf) # (2, ch, hbuf) # map (\<lambda>c. (3, ch, c)) (cs @ [c])) s
      = ([Inr None, Inr None] @ map (\<lambda>_. Inr None) cs @ [Inr (Some (ch, sig, mbuf, Some ?m))], s4)"
    by (simp add: run_frames_append 1 2 3 4)
  then show ?thesis using m s4 by blast
qed

end
