(* ===== verification/Framing_Outbound.thy ===== *)
theory Framing_Outbound
  imports Framing
begin

text \<open>
  Facts about \<open>write_frame\<close>: what it sends is the encoding of a list of frames, whichever of
  its two paths it takes; the chunks of a body put together are the body.
\<close>

section \<open>The frames of a method and its content\<close>

definition frame_list :: "int \<Rightarrow> int \<Rightarrow> method_sig option \<Rightarrow> pyval \<Rightarrow> (bytes \<times> bytes) option \<Rightarrow> int
    \<Rightarrow> exn + frame list" where
  "frame_list ftype ch sig args content chunk_size =
     bindE (method_payload ftype sig args) (\<lambda>m. case content of
       None \<Rightarrow> Inr [(ftype, ch, m)]
     | Some (bdy, props) \<Rightarrow>
         bindE (header_payload sig (length bdy) props) (\<lambda>h.
         bindE (body_chunks bdy chunk_size) (\<lambda>cs.
           Inr ((ftype, ch, m) # (2, ch, h) # map (\<lambda>c. (3, ch, c)) cs))))"

fun encode_frames :: "frame list \<Rightarrow> exn + bytes" where
  "encode_frames [] = Inr []"
| "encode_frames ((t, c, p) # fs) =
     bindE (pack_frame t c p) (\<lambda>d. bindE (encode_frames fs) (\<lambda>r. Inr (d @ r)))"

lemma pack_frame_length: "pack_frame t c p = Inr d \<Longrightarrow> length d = 8 + length p"
  by (auto simp: pack_frame_def spack_u_def bindE_eq_Inr dest!: pack_u_SomeD)

lemma spack_u_length: "spack_u n v = Inr d \<Longrightarrow> length d = n"
  by (auto simp: spack_u_def dest: pack_u_SomeD)

lemma method_payload_length:
  "method_payload 1 sig (VBytes a) = Inr p \<Longrightarrow> length p = 4 + length a"
  by (auto simp: method_payload_def as_bytes_def bindE_eq_Inr spack_u_def dest!: pack_u_SomeD
      split: option.splits prod.splits)

lemma method_payload_le:
  assumes "method_payload t sig (VBytes a) = Inr p" shows "length p \<le> 4 + length a"
  using assms method_payload_length by (cases "t = 1") (auto simp: method_payload_def)

lemma header_payload_length:
  "header_payload sig n props = Inr p \<Longrightarrow> length p = 12 + length props"
  by (auto simp: header_payload_def bindE_eq_Inr spack_u_def dest!: pack_u_SomeD
      split: option.splits prod.splits)

text \<open>Packing fails in no other way than with struct.error.\<close>

lemma spack_u_cases: "spack_u n v = Inl StructError \<or> (\<exists>d. spack_u n v = Inr d \<and> length d = n)"
  by (cases "pack_u n v") (auto simp: spack_u_def dest: pack_u_SomeD)

lemma pack_frame_cases:
  "pack_frame t c p = Inl StructError \<or> (\<exists>d. pack_frame t c p = Inr d \<and> length d = 8 + length p)"
  using spack_u_cases [of 1 t] spack_u_cases [of 2 c] spack_u_cases [of 4 "int (length p)"]
  by (auto simp: pack_frame_def spack_u_def)

lemma method_payload_cases:
  "method_payload 1 (Some sig) (VBytes a) = Inl StructError
    \<or> (\<exists>p. method_payload 1 (Some sig) (VBytes a) = Inr p \<and> length p = 4 + length a)"
  using spack_u_cases [of 2 "fst sig"] spack_u_cases [of 2 "snd sig"]
  by (cases sig) (auto simp: method_payload_def as_bytes_def spack_u_def)

lemma pack_next_overflow:
  assumes "length (buffer_store s) < off + 8 + length p"
  shows "pack_next t c p off s = (Inl StructError, s)"
  using pack_frame_cases [of t c p] assms by (auto simp: pack_next_def pack_into_def)

section \<open>Chunks of the body\<close>

lemma chunks_concat_take:
  assumes "0 < c" shows "concat (map (\<lambda>k. slice bdy (k * c) c) [0..<n]) = take (n * c) bdy"
proof (induction n)
  case 0
  then show ?case by simp
next
  case (Suc n)
  have "take (Suc n * c) bdy = take (n * c) bdy @ slice bdy (n * c) c"
    by (simp add: slice_def take_add [symmetric] add.commute)
  with Suc show ?case by simp
qed

lemma ceil_div_mult:
  assumes "0 < (c :: nat)" shows "n \<le> (n + c - 1) div c * c"
proof -
  have "n + c - 1 = (n + c - 1) div c * c + (n + c - 1) mod c" by simp
  moreover have "(n + c - 1) mod c < c" using assms by simp
  ultimately show ?thesis using assms by linarith
qed

lemma body_chunks_concat:
  assumes "0 < chunk_size"
  obtains cs where "body_chunks bdy chunk_size = Inr cs" and "concat cs = bdy"
    and "\<forall>c \<in> set cs. c \<noteq> [] \<and> int (length c) \<le> chunk_size"
proof -
  let ?c = "nat chunk_size"
  let ?n = "(length bdy + ?c - 1) div ?c"
  let ?cs = "map (\<lambda>k. slice bdy (k * ?c) ?c) [0..<?n]"
  have c: "0 < ?c" using assms by simp
  have 1: "body_chunks bdy chunk_size = Inr ?cs"
    using assms by (simp add: body_chunks_def Let_def)
  have 2: "concat ?cs = bdy"
    using chunks_concat_take [OF c, of bdy ?n] ceil_div_mult [OF c, of "length bdy"] by simp
  have "k * ?c < length bdy" if "k < ?n" for k
  proof -
    have "(k + 1) * ?c \<le> ?n * ?c" using that by (intro mult_le_mono1) simp
    also have "\<dots> \<le> length bdy + ?c - 1" by (rule div_times_less_eq_dividend)
    finally show ?thesis using c by simp
  qed
  then have len: "0 < length (slice bdy (k * ?c) ?c) \<and> length (slice bdy (k * ?c) ?c) \<le> ?c"
    if "k < ?n" for k
    using that c by (simp add: length_slice)
  have 3: "\<forall>x \<in> set ?cs. x \<noteq> [] \<and> int (length x) \<le> chunk_size"
  proof
    fix x assume "x \<in> set ?cs"
    then obtain k where "k < ?n" "x = slice bdy (k * ?c) ?c" by auto
    with len [of k] assms show "x \<noteq> [] \<and> int (length x) \<le> chunk_size" by auto
  qed
  from 1 2 3 that show thesis by blast
qed

lemma body_chunks_small:
  assumes "length bdy \<le> nat chunk_size" and "0 < chunk_size"
  shows "body_chunks bdy chunk_size = Inr (if bdy = [] then [] else [bdy])"
proof (cases bdy)
  case Nil
  then show ?thesis using assms by (simp add: body_chunks_def Let_def)
next
  case (Cons b bs)
  let ?c = "nat chunk_size"
  have "(length bdy + ?c - 1) div ?c = 1"
    using assms Cons by (intro div_nat_eqI) simp_all
  then show ?thesis
    using assms Cons by (simp add: body_chunks_def Let_def slice_def)
qed

section \<open>The buffer of the fast path\<close>

lemma pack_into_take:
  assumes "pack_into off data buf = Inr buf'"
  shows "take (off + length data) buf' = take off buf @ data" and "length buf' = length buf"
    and "off + length data \<le> length buf"
  using assms by (auto simp: pack_into_def split: if_splits)

lemma pack_next_Inr:
  assumes "pack_next t ch frame off s = (Inr off', s')"
  obtains d where "pack_frame t ch frame = Inr d" and "off' = off + length d"
    and "take off' (buffer_store s') = take off (buffer_store s) @ d"
    and "transport s' = transport s"
    and "length (buffer_store s') = length (buffer_store s)" and "off' \<le> length (buffer_store s)"
proof -
  obtain d buf where d: "pack_frame t ch frame = Inr d"
    and b: "pack_into off d (buffer_store s) = Inr buf"
    and eq: "off' = off + 8 + length frame" "s' = s\<lparr>buffer_store := buf\<rparr>"
    using assms by (auto simp: pack_next_def bindE_eq_Inr split: sum.splits)
  show thesis
    by (rule that [OF d])
      (use pack_frame_length [OF d] eq pack_into_take [OF b] in \<open>simp_all add: add.assoc\<close>)
qed

lemma pack_next_fits:
  assumes "pack_frame t ch frame = Inr d" and "off + length d \<le> length (buffer_store s)"
  obtains buf where "pack_next t ch frame off s = (Inr (off + length d), s\<lparr>buffer_store := buf\<rparr>)"
    and "length buf = length (buffer_store s)"
    and "take (off + length d) buf = take off (buffer_store s) @ d"
proof -
  obtain buf where b: "pack_into off d (buffer_store s) = Inr buf"
    using assms(2) by (simp add: pack_into_def)
  show thesis
    by (rule that [of buf])
      (use b pack_into_take [OF b] pack_frame_length [OF assms(1)] assms(1) in
        \<open>simp_all add: pack_next_def add.assoc\<close>)
qed

text \<open>
  \<open>FRAME_OVERHEAD\<close> is exact: a method with a content of which the writer decides that it fits
  does fit the buffer, whatever the buffer held, and goes out in one write.
\<close>

lemma write_fast_fits:
  assumes f: "frame_list ftype ch sig (VBytes a) (Some (bdy, props)) chunk_size = Inr fs"
    and e: "encode_frames fs = Inr out"
    and fit: "int (length a + length props + length bdy) + FRAME_OVERHEAD \<le> chunk_size"
  obtains buf where "write_fast put ftype ch sig (VBytes a) (Some (bdy, props)) chunk_size s
    = (case put out (transport s) of (r, t) \<Rightarrow> (r, s\<lparr>buffer_store := buf, transport := t\<rparr>))"
proof -
  define s0 where "s0 = (if chunk_size > int (length (buffer_store s))
      then s\<lparr>buffer_store := replicate (nat chunk_size) 0\<rparr> else s)"
  obtain b0 where s0: "s0 = s\<lparr>buffer_store := b0\<rparr>" and len: "chunk_size \<le> int (length b0)"
  proof (cases "chunk_size > int (length (buffer_store s))")
    case True
    then show ?thesis using that [of "replicate (nat chunk_size) 0"] by (simp add: s0_def)
  next
    case False
    then show ?thesis using that [of "buffer_store s"] by (simp add: s0_def)
  qed
  have cs: "body_chunks bdy chunk_size = Inr (if bdy = [] then [] else [bdy])"
    using fit by (intro body_chunks_small) (simp_all add: FRAME_OVERHEAD_def)
  obtain m h where m: "method_payload ftype sig (VBytes a) = Inr m"
    and h: "header_payload sig (length bdy) props = Inr h"
    and fs: "fs = (ftype, ch, m) # (2, ch, h) # (if bdy = [] then [] else [(3, ch, bdy)])"
    using f cs by (auto simp: frame_list_def)
  obtain d1 d2 d3 where d1: "pack_frame ftype ch m = Inr d1" and d2: "pack_frame 2 ch h = Inr d2"
    and d3: "if bdy = [] then d3 = [] else pack_frame 3 ch bdy = Inr d3" and out: "out = d1 @ d2 @ d3"
    using e by (auto simp: fs split: if_splits)
  have l3: "length d3 \<le> 8 + length bdy" using d3 pack_frame_length by (auto split: if_splits)
  have l1: "length d1 \<le> 12 + length a"
    using pack_frame_length [OF d1] method_payload_le [OF m] by simp
  have l2: "length d2 = 20 + length props"
    using pack_frame_length [OF d2] header_payload_length [OF h] by simp
  have total: "length d1 + length d2 + length d3 \<le> length b0"
    using fit len l1 l2 l3 by (simp add: FRAME_OVERHEAD_def)
  obtain b1 where p1: "pack_next ftype ch m 0 s0 = (Inr (length d1), s\<lparr>buffer_store := b1\<rparr>)"
    and b1: "length b1 = length b0" "take (length d1) b1 = d1"
    using pack_next_fits [OF d1, of 0 s0] total by (auto simp: s0)
  obtain b2 where p2: "pack_next 2 ch h (length d1) (s\<lparr>buffer_store := b1\<rparr>)
      = (Inr (length d1 + length d2), s\<lparr>buffer_store := b2\<rparr>)"
    and b2: "length b2 = length b0" "take (length d1 + length d2) b2 = d1 @ d2"
    using pack_next_fits [OF d2, of "length d1" "s\<lparr>buffer_store := b1\<rparr>"] total b1 by auto
  obtain b3 where p3: "(if length bdy > 0 then pack_next 3 ch bdy (length d1 + length d2)
        else retA (length d1 + length d2)) (s\<lparr>buffer_store := b2\<rparr>)
      = (Inr (length out), s\<lparr>buffer_store := b3\<rparr>)"
    and b3: "take (length out) b3 = out"
  proof (cases "bdy = []")
    case True
    then show ?thesis using that [of b2] b2 d3 out by simp
  next
    case False
    then show ?thesis
      using that pack_next_fits [of 3 ch bdy d3 "length d1 + length d2" "s\<lparr>buffer_store := b2\<rparr>"]
        total b2 d3 out by (auto simp: add.assoc)
  qed
  show thesis
    by (rule that [of b3])
      (use m h p1 p2 p3 b3 in \<open>simp add: write_fast_def bindA_def s0_def [symmetric] to_transport_def
        split: prod.splits\<close>)
qed

text \<open>A content that is small enough goes out in one write.\<close>

lemma write_frame_small:
  assumes "content_parts cdc msg = (Inr (bdy, props), msg')"
    and "int (length a + length props + length bdy) + FRAME_OVERHEAD \<le> frame_max s - 8"
    and "frame_list ftype ch sig (VBytes a) (Some (bdy, props)) (frame_max s - 8) = Inr fs"
    and "encode_frames fs = Inr out"
  shows "\<exists>buf. write_frame cdc put ftype ch sig (VBytes a) (Some msg) s = (case put out (transport s) of
      (r, t) \<Rightarrow> (r, s\<lparr>buffer_store := buf, transport := t,
        bytes_sent := bytes_sent s + (if r = Inr () then 1 else 0)\<rparr>, Some msg'))"
proof -
  obtain buf where "write_fast put ftype ch sig (VBytes a) (Some (bdy, props)) (frame_max s - 8) s
    = (case put out (transport s) of (r, t) \<Rightarrow> (r, s\<lparr>buffer_store := buf, transport := t\<rparr>))"
    using write_fast_fits [OF assms(3,4,2)] by metis
  then show ?thesis
    using assms(1,2)
    by (cases "put out (transport s)") (auto simp: write_frame_def Let_def str_to_bytes_def as_bytes_def
        not_le intro!: exI [of _ buf] split: sum.split)
qed

section \<open>The bytes sent\<close>

text \<open>
  What \<open>write_frame\<close> needs of the transport: a write that returns has appended its bytes to
  what was sent. The TCP transport provides it.
\<close>

locale byte_sink =
  fixes put :: "bytes \<Rightarrow> ('t, exn, unit) act"
    and sent :: "'t \<Rightarrow> bytes"
  assumes write_sent: "put d t = (Inr (), t') \<Longrightarrow> sent t' = sent t @ d"
begin

lemma to_transport_sent:
  assumes "to_transport (put d) s = (Inr (), s')"
  shows "sent (transport s') = sent (transport s) @ d"
  using assms write_sent by (auto simp: to_transport_def split: prod.splits)

lemma body_frame_sent:
  assumes "send_body_frame put ch c s = (Inr (), s')"
  obtains d where "pack_frame 3 ch c = Inr d" and "sent (transport s') = sent (transport s) @ d"
  using assms to_transport_sent by (auto simp: send_body_frame_def elim!: bindA_cases)

lemma body_frames_sent:
  assumes "forA cs (send_body_frame put ch) s = (Inr (), s')"
  shows "\<exists>out. encode_frames (map (\<lambda>c. (3, ch, c)) cs) = Inr out
    \<and> sent (transport s') = sent (transport s) @ out"
  using assms
proof (induction cs arbitrary: s)
  case Nil
  then show ?case by simp
next
  case (Cons c cs)
  from Cons.prems obtain s1 where 1: "send_body_frame put ch c s = (Inr (), s1)"
    and rest: "forA cs (send_body_frame put ch) s1 = (Inr (), s')"
    by (auto elim!: bindA_cases)
  from Cons.IH [OF rest] body_frame_sent [OF 1] show ?case by fastforce
qed

lemma write_slow_sent:
  assumes "write_slow put ftype ch sig args bdy props chunk_size s = (Inr (), s')" and "bdy \<noteq> []"
  shows "\<exists>fs out. frame_list ftype ch sig args (Some (bdy, props)) chunk_size = Inr fs
    \<and> encode_frames fs = Inr out \<and> sent (transport s') = sent (transport s) @ out"
proof -
  from assms obtain m d1 s1 h d2 s2 cs
    where m: "method_payload ftype sig args = Inr m" "pack_frame ftype ch m = Inr d1"
      and s1: "to_transport (put d1) s = (Inr (), s1)"
      and h: "header_payload sig (length bdy) props = Inr h" "pack_frame 2 ch h = Inr d2"
      and s2: "to_transport (put d2) s1 = (Inr (), s2)"
      and cs: "body_chunks bdy chunk_size = Inr cs"
      and rest: "forA cs (send_body_frame put ch) s2
        = (Inr (), s')"
    by (auto simp: write_slow_def elim!: bindA_cases)
  obtain out where "encode_frames (map (\<lambda>c. (3, ch, c)) cs) = Inr out"
    "sent (transport s') = sent (transport s2) @ out"
    using body_frames_sent [OF rest] by blast
  then show ?thesis
    using to_transport_sent [OF s1] to_transport_sent [OF s2] m h cs
    by (simp add: frame_list_def)
qed

lemma write_slow_empty_body:
  assumes "write_slow put ftype ch sig args [] props chunk_size s = (Inr (), s')"
  shows "\<exists>m d. method_payload ftype sig args = Inr m \<and> pack_frame ftype ch m = Inr d
    \<and> sent (transport s') = sent (transport s) @ d"
  using assms to_transport_sent by (fastforce simp: write_slow_def elim!: bindA_cases)

lemma write_fast_sent:
  assumes "write_fast put ftype ch sig args content chunk_size s = (Inr (), s')"
    and "\<And>bdy props. content = Some (bdy, props) \<Longrightarrow> int (length bdy) < chunk_size"
  shows "\<exists>fs out. frame_list ftype ch sig args content chunk_size = Inr fs
    \<and> encode_frames fs = Inr out \<and> sent (transport s') = sent (transport s) @ out"
proof -
  define s0 where "s0 = (if chunk_size > int (length (buffer_store s))
      then s\<lparr>buffer_store := replicate (nat chunk_size) 0\<rparr> else s)"
  from assms(1) obtain m off s1 off' s2
    where m: "method_payload ftype sig args = Inr m"
      and p1: "pack_next ftype ch m 0 s0 = (Inr off, s1)"
      and p2: "(case content of None \<Rightarrow> retA off
            | Some (bdy, props) \<Rightarrow>
                bindA (liftA (header_payload sig (length bdy) props)) (\<lambda>frame.
                bindA (pack_next 2 ch frame off) (\<lambda>off.
                if length bdy > 0 then pack_next 3 ch bdy off else retA off))) s1 = (Inr off', s2)"
      and w: "to_transport (put (take off' (buffer_store s2))) s2 = (Inr (), s')"
    unfolding write_fast_def s0_def by (auto elim!: bindA_cases)
  have t0: "transport s0 = transport s" by (simp add: s0_def)
  obtain d1 where d1: "pack_frame ftype ch m = Inr d1" "take off (buffer_store s1) = d1"
    "transport s1 = transport s"
    using pack_next_Inr [OF p1] t0 by auto
  show ?thesis
  proof (cases content)
    case None
    with p2 m d1 to_transport_sent [OF w] show ?thesis by (simp add: frame_list_def)
  next
    case (Some a)
    obtain bdy props where a: "content = Some (bdy, props)" using Some by (cases a) auto
    from p2 a obtain h off2 s3 where h: "header_payload sig (length bdy) props = Inr h"
      and p3: "pack_next 2 ch h off s1 = (Inr off2, s3)"
      and p4: "(if length bdy > 0 then pack_next 3 ch bdy off2 else retA off2) s3 = (Inr off', s2)"
      by (auto elim!: bindA_cases)
    obtain d2 where d2: "pack_frame 2 ch h = Inr d2" "take off2 (buffer_store s3) = d1 @ d2"
      "transport s3 = transport s"
      using pack_next_Inr [OF p3] d1 by metis
    have cs: "body_chunks bdy chunk_size = Inr (if bdy = [] then [] else [bdy])"
      using assms(2) [OF a] by (intro body_chunks_small) simp_all
    show ?thesis
    proof (cases "bdy = []")
      case True
      with p4 m h cs a d1 d2 to_transport_sent [OF w] show ?thesis by (simp add: frame_list_def)
    next
      case False
      then have "pack_next 3 ch bdy off2 s3 = (Inr off', s2)" using p4 by simp
      then obtain d3 where "pack_frame 3 ch bdy = Inr d3" "take off' (buffer_store s2) = d1 @ d2 @ d3"
        "transport s2 = transport s"
        using d2 by (auto elim!: pack_next_Inr)
      with False m h cs a d1 d2 to_transport_sent [OF w] show ?thesis by (simp add: frame_list_def)
    qed
  qed
qed

text \<open>The whole operation.\<close>

lemma write_frame_no_content:
  assumes "write_frame codecs put ftype ch sig args None s = (Inr (), s', c')"
  obtains fs out where "frame_list ftype ch sig (str_to_bytes args) None (frame_max s - 8) = Inr fs"
    and "encode_frames fs = Inr out" and "sent (transport s') = sent (transport s) @ out"
proof -
  obtain t where "write_fast put ftype ch sig (str_to_bytes args) None (frame_max s - 8) s
      = (Inr (), t)" "s' = t\<lparr>bytes_sent := bytes_sent t + 1\<rparr>"
    using assms
    by (cases "write_fast put ftype ch sig (str_to_bytes args) None (frame_max s - 8) s")
      (auto simp: write_frame_def Let_def split: sum.splits)
  then show ?thesis using write_fast_sent that by fastforce
qed

lemma write_frame_content:
  assumes "write_frame codecs put ftype ch sig args (Some msg) s = (Inr (), s', c')"
    and parts: "fst (content_parts codecs msg) = Inr (bdy, props)" and "bdy \<noteq> []"
  obtains fs out where
    "frame_list ftype ch sig (str_to_bytes args) (Some (bdy, props)) (frame_max s - 8) = Inr fs"
    and "encode_frames fs = Inr out" and "sent (transport s') = sent (transport s) @ out"
proof -
  let ?args = "str_to_bytes args"
  let ?c = "frame_max s - 8"
  obtain msg' where cp: "content_parts codecs msg = (Inr (bdy, props), msg')"
    using parts by (cases "content_parts codecs msg") auto
  obtain a where a: "?args = VBytes a"
    using assms(1) by (auto simp: write_frame_def Let_def cp as_bytes_def split: pyval.splits)
  show ?thesis
  proof (cases "int (length a + length props + length bdy) + FRAME_OVERHEAD > ?c")
    case True
    then obtain t where "write_slow put ftype ch sig ?args bdy props ?c s = (Inr (), t)"
      "s' = t\<lparr>bytes_sent := bytes_sent t + 1\<rparr>"
      using assms(1) a
      by (cases "write_slow put ftype ch sig ?args bdy props ?c s")
        (auto simp: write_frame_def Let_def cp as_bytes_def split: sum.splits)
    then show ?thesis using write_slow_sent [OF _ assms(3)] that by fastforce
  next
    case False
    then obtain t where t: "write_fast put ftype ch sig ?args (Some (bdy, props)) ?c s = (Inr (), t)"
      "s' = t\<lparr>bytes_sent := bytes_sent t + 1\<rparr>"
      using assms(1) a
      by (cases "write_fast put ftype ch sig ?args (Some (bdy, props)) ?c s")
        (auto simp: write_frame_def Let_def cp as_bytes_def split: sum.splits)
    have "int (length bdy) < ?c" using False by (simp add: FRAME_OVERHEAD_def)
    then show ?thesis using write_fast_sent [OF t(1)] that t(2) by fastforce
  qed
qed

end

end
