(* ===== verification/Framing_Roundtrip.thy ===== *)
theory Framing_Roundtrip
  imports Framing_Inbound Framing_Outbound
begin

text \<open>
  The frames \<open>write_frame\<close> sends, handled by \<open>on_frame\<close>, give back the method and the content.
\<close>

lemma header_written:
  assumes h: "header_payload (Some (Basic_CLASS_ID, m)) n pb = Inr h"
    and p: "serialize_properties msg = Inr pb" and rd: "props_readable (properties msg) PROPERTIES"
    and fresh: "\<not> ready m0"
  shows "inbound_header h 0 m0 = (Inr 12, m0\<lparr>properties := canon_props (properties msg) PROPERTIES,
    body_size := n, ready := (n = 0)\<rparr>)"
proof -
  obtain c z s where c: "pack_u 2 Basic_CLASS_ID = Some c" "pack_u 2 0 = Some z"
    and s: "pack_u 8 (int n) = Some s" and eq: "h = c @ z @ s @ pb"
    using h by (auto simp: header_payload_def spack_u_def bindE_eq_Inr)
  have len: "length c = 2" "length z = 2" "length s = 8" using c s by (auto dest: pack_u_SomeD)
  have 1: "sunpack_u 2 h 0 = Inr Basic_CLASS_ID"
    using sunpack_u_at [OF c(1), of "[]" "z @ s @ pb"] by (simp add: eq)
  have 2: "sunpack_u 8 h 4 = Inr (int n)"
    using sunpack_u_at [OF s, of "c @ z" pb] len by (simp add: eq)
  have 3: "decode_properties_basic h 12 = Inr (canon_props (properties msg) PROPERTIES, length h)"
    using decode_serialize [OF p rd, of "c @ z @ s" "[]"] len by (simp add: eq)
  show ?thesis
    using fresh by (simp add: inbound_header_def bindA_def 1 2 load_properties_def PROPERTY_CLASSES_def 3)
qed

lemma method_written:
  assumes "method_payload 1 (Some sig) (VBytes a) = Inr mb"
  shows "unpack_sig mb = Inr sig" and "drop 4 mb = a" and "length mb = 4 + length a"
proof -
  obtain c m where sig: "sig = (c, m)" by (cases sig)
  obtain cb mb' where c: "pack_u 2 c = Some cb" and m: "pack_u 2 m = Some mb'" and eq: "mb = cb @ mb' @ a"
    using assms by (auto simp: method_payload_def as_bytes_def spack_u_def bindE_eq_Inr sig)
  have len: "length cb = 2" "length mb' = 2" using c m by (auto dest: pack_u_SomeD)
  show "unpack_sig mb = Inr sig"
    using sunpack_u_at [OF c, of "[]" "mb' @ a"] sunpack_u_at [OF m, of cb a] len
    by (simp add: unpack_sig_def eq sig)
  show "drop 4 mb = a" "length mb = 4 + length a" using len by (simp_all add: eq)
qed

text \<open>
  The frames of a content, handled on an idle channel: one delivery, with the last frame,
  of the same method, arguments and body and the canonical form of the properties.
\<close>

lemma content_frames_delivered:
  assumes f: "frame_list 1 ch (Some sig) (VBytes a) (Some (bdy, pb)) chunk_size = Inr fs"
    and sig: "sig \<in> set CONTENT_METHODS" and p: "serialize_properties msg = Inr pb"
    and rd: "props_readable (properties msg) PROPERTIES"
    and idle: "expected_types s ch = 1" and chunk: "0 < chunk_size" and ne: "bdy \<noteq> []"
  shows "\<exists>s' got mb. fst (run_frames fs s) =
      replicate (length fs - 1) (Inr None) @ [Inr (Some (ch, sig, mb, Some got))]
    \<and> unpack_sig mb = Inr sig \<and> drop 4 mb = a
    \<and> body got = VBytes bdy \<and> properties got = canon_props (properties msg) PROPERTIES
    \<and> snd (run_frames fs s) = s' \<and> expected_types s' ch = 1 \<and> partial_messages s' ch = None"
proof -
  obtain cs where cs: "body_chunks bdy chunk_size = Inr cs" and cat: "concat cs = bdy"
    and nz: "\<forall>c \<in> set cs. c \<noteq> []"
    by (rule body_chunks_concat [OF chunk, of bdy]) (rule that, auto)
  obtain mb h where m: "method_payload 1 (Some sig) (VBytes a) = Inr mb"
    and h: "header_payload (Some sig) (length bdy) pb = Inr h"
    and fs: "fs = (1, ch, mb) # (2, ch, h) # map (\<lambda>c. (3, ch, c)) cs"
    using f cs by (auto simp: frame_list_def)
  have "cs \<noteq> []" using cat ne by auto
  then obtain ds d where ds: "cs = ds @ [d]" by (cases cs rule: rev_cases) auto
  have "d \<noteq> []" using nz ds by simp
  obtain m' where sig': "sig = (Basic_CLASS_ID, m')"
    using sig by (auto simp: CONTENT_METHODS_def sig_defs Basic_CLASS_ID_def)
  have hdr: "inbound_header h 0 (message_init (Some sig) mb (VStr []) [])
    = (Inr 12, header_message sig mb (length bdy) (canon_props (properties msg) PROPERTIES))"
    using header_written [OF h [unfolded sig'] p rd, of "message_init (Some sig) mb (VStr []) []"]
    by (simp add: header_message_def message_init_def)
  have cat': "concat (ds @ [d]) = bdy" using cat ds by simp
  have lt: "length (concat ds) < length bdy"
    using \<open>d \<noteq> []\<close> unfolding cat' [symmetric] by simp
  obtain s' got where run: "run_frames fs s = ([Inr None, Inr None] @ map (\<lambda>_. Inr None) ds
        @ [Inr (Some (ch, sig, mb, Some got))], s')"
    and got: "body got = VBytes bdy" "properties got = canon_props (properties msg) PROPERTIES"
      "expected_types s' ch = 1" "partial_messages s' ch = None"
    using run_content_frames [OF idle method_written(1) [OF m] sig hdr lt, of d] cat' fs ds
    by auto
  have "[Inr None, Inr None] @ map (\<lambda>_. Inr None) ds = replicate (length fs - 1) (Inr None)"
    by (simp add: fs ds map_replicate_const)
  then have "fst (run_frames fs s)
    = replicate (length fs - 1) (Inr None) @ [Inr (Some (ch, sig, mb, Some got))]"
    using run by simp
  moreover have "drop 4 mb = a"
    by (rule method_written(2) [OF m])
  ultimately show ?thesis
    using got run method_written(1) [OF m] by auto
qed

end
