(* ===== verification/Platform.thy ===== *)
theory Platform
  imports Values
begin

text \<open>
  platform.py: which TCP options the socket layer sets, from the name of the platform and the
  release of its kernel (\<open>sys.platform\<close> and \<open>platform.release()\<close>). Text is ASCII here, as these
  are: \<open>str.isdigit\<close> also holds of other digits.
\<close>

section \<open>Versions\<close>

fun split_at :: "'a \<Rightarrow> 'a list \<Rightarrow> 'a list list" where
  "split_at sep [] = [[]]"
| "split_at sep (c # cs) =
     (if c = sep then [] # split_at sep cs
      else case split_at sep cs of [] \<Rightarrow> [[c]] | w # ws \<Rightarrow> (c # w) # ws)"

definition is_digit :: "nat \<Rightarrow> bool" where
  "is_digit c \<longleftrightarrow> 48 \<le> c \<and> c \<le> 57"

definition digits_value :: "pystr \<Rightarrow> int" where
  "digits_value ds = foldl (\<lambda>n c. 10 * n + (int c - 48)) 0 ds"

text \<open>
  \<open>RE_NUM.match\<close>, \<open>(\d+).+\<close>: the dot needs a character that is not a newline, and the digits give
  one up for it if they have to.
\<close>

definition re_num :: "pystr \<Rightarrow> pystr option" where
  "re_num s =
    (let ds = takeWhile is_digit s; rest = dropWhile is_digit s
     in if ds \<noteq> [] \<and> rest \<noteq> [] \<and> hd rest \<noteq> 10 then Some ds
        else if length ds \<ge> 2 then Some (butlast ds)
        else None)"

definition versionatom :: "pystr \<Rightarrow> int" where
  "versionatom s =
    (if s \<noteq> [] \<and> list_all is_digit s then digits_value s
     else case re_num s of Some ds \<Rightarrow> digits_value ds | None \<Rightarrow> 0)"

definition linux_version_to_tuple :: "pystr \<Rightarrow> int list" where
  "linux_version_to_tuple s = map versionatom (take 3 (split_at 46 s))"

text \<open>\<open><\<close> of two tuples.\<close>

fun tuple_less :: "int list \<Rightarrow> int list \<Rightarrow> bool" where
  "tuple_less _ [] = False"
| "tuple_less [] (_ # _) = True"
| "tuple_less (x # xs) (y # ys) = (x < y \<or> x = y \<and> tuple_less xs ys)"

section \<open>Options\<close>

definition KNOWN_TCP_OPTS :: "string list" where
  "KNOWN_TCP_OPTS =
    [''TCP_CORK'', ''TCP_DEFER_ACCEPT'', ''TCP_KEEPCNT'', ''TCP_KEEPIDLE'', ''TCP_KEEPINTVL'',
     ''TCP_LINGER2'', ''TCP_MAXSEG'', ''TCP_NODELAY'', ''TCP_QUICKACK'', ''TCP_SYNCNT'',
     ''TCP_USER_TIMEOUT'', ''TCP_WINDOW_CLAMP'']"

definition starts_with :: "pystr \<Rightarrow> string \<Rightarrow> bool" where
  "starts_with s p \<longleftrightarrow> take (length p) s = pys p"

definition ends_with :: "pystr \<Rightarrow> string \<Rightarrow> bool" where
  "ends_with s p \<longleftrightarrow> length p \<le> length s \<and> drop (length s - length p) s = pys p"

fun contains :: "pystr \<Rightarrow> string \<Rightarrow> bool" where
  "contains [] p = (p = [])"
| "contains (c # s) p = (starts_with (c # s) p \<or> contains s p)"

text \<open>
  The value of \<open>KNOWN_TCP_OPTS\<close> after the module was imported; the source has a set, here in a
  fixed order.
\<close>

definition known_tcp_opts :: "pystr \<Rightarrow> pystr \<Rightarrow> string list" where
  "known_tcp_opts platform release =
    (if starts_with platform ''linux'' then
       (if ends_with release ''Microsoft''
        then [''TCP_NODELAY'', ''TCP_KEEPIDLE'', ''TCP_KEEPINTVL'', ''TCP_KEEPCNT'']
        else if tuple_less (linux_version_to_tuple release) [2, 6, 37]
        then removeAll ''TCP_USER_TIMEOUT'' KNOWN_TCP_OPTS
        else KNOWN_TCP_OPTS)
     else if starts_with platform ''darwin'' then removeAll ''TCP_USER_TIMEOUT'' KNOWN_TCP_OPTS
     else if contains platform ''bsd'' then removeAll ''TCP_USER_TIMEOUT'' KNOWN_TCP_OPTS
     else if starts_with platform ''win'' then [''TCP_NODELAY'']
     else if starts_with platform ''cygwin'' then [''TCP_NODELAY'']
     else if starts_with platform ''sunos'' then
       removeAll ''TCP_USER_TIMEOUT'' (removeAll ''TCP_MAXSEG'' KNOWN_TCP_OPTS)
     else if starts_with platform ''aix'' then
       removeAll ''TCP_USER_TIMEOUT'' (removeAll ''TCP_MAXSEG'' KNOWN_TCP_OPTS)
     else KNOWN_TCP_OPTS)"

section \<open>Facts\<close>

lemma known_base: "set (known_tcp_opts p v) \<subseteq> set KNOWN_TCP_OPTS"
  by (auto simp: known_tcp_opts_def KNOWN_TCP_OPTS_def)

lemma nodelay_known: "''TCP_NODELAY'' \<in> set (known_tcp_opts p v)"
  by (simp add: known_tcp_opts_def KNOWN_TCP_OPTS_def)

lemma split_at_join:
  "sep \<notin> set xs \<Longrightarrow> split_at sep (xs @ sep # ys) = xs # split_at sep ys"
  "sep \<notin> set xs \<Longrightarrow> split_at sep xs = [xs]"
  by (induction xs) auto

text \<open>A dotted version of numbers, followed by anything that does not begin with a digit.\<close>

lemma versionatom_digits:
  assumes "ds \<noteq> []" and "list_all is_digit ds" and "rest = [] \<or> \<not> is_digit (hd rest) \<and> hd rest \<noteq> 10"
  shows "versionatom (ds @ rest) = digits_value ds"
proof (cases rest)
  case Nil
  then show ?thesis using assms by (simp add: versionatom_def)
next
  case (Cons c cs)
  then have c: "\<not> is_digit c" "c \<noteq> 10" using assms(3) by auto
  have "takeWhile is_digit (ds @ c # cs) = ds" "dropWhile is_digit (ds @ c # cs) = c # cs"
    using assms(2) c(1) by (auto simp: list_all_iff takeWhile_append2 dropWhile_append2)
  then show ?thesis using assms(1) c by (simp add: Cons versionatom_def re_num_def)
qed

end
