(* ===== verification/Tls.thy ===== *)
theory Tls
  imports Values
begin

text \<open>
  The TLS part of transport.py: how \<open>SSLTransport\<close> sets up the context its socket is wrapped
  with. What it uses of the \<open>ssl\<close> module of the standard library (the two settings that depend
  on each other, the checks of \<open>wrap_socket\<close>) is written out; reading certificate files and the
  handshake are parameters.
\<close>

section \<open>The ssl module\<close>

datatype tls_protocol = PROTOCOL_TLS_CLIENT | PROTOCOL_TLS_SERVER | Other_protocol int
datatype cert_mode = CERT_NONE | CERT_OPTIONAL | CERT_REQUIRED
datatype tls_purpose = CLIENT_AUTH | SERVER_AUTH

record tls_context =
  tls_version :: tls_protocol
  check_hostname :: bool
  verify_mode :: cert_mode
  cert_chain :: "(pystr \<times> pystr option) option"
  verify_locations :: "pystr option"
  cipher_list :: "pystr option"
  default_certs :: "tls_purpose option"

text \<open>\<open>HAS_SNI\<close>, and the exceptions reading a certificate, a CA file or a cipher list raises.\<close>

record tls_module =
  HAS_SNI :: bool
  chain_error :: "pystr \<Rightarrow> pystr option \<Rightarrow> exn option"
  ca_error :: "pystr \<Rightarrow> exn option"
  cipher_error :: "pystr \<Rightarrow> exn option"

definition new_context :: "tls_protocol \<Rightarrow> tls_context" where
  "new_context p =
     \<lparr>tls_version = p, check_hostname = (p = PROTOCOL_TLS_CLIENT),
      verify_mode = (if p = PROTOCOL_TLS_CLIENT then CERT_REQUIRED else CERT_NONE),
      cert_chain = None, verify_locations = None, cipher_list = None, default_certs = None\<rparr>"

definition set_check_hostname :: "bool \<Rightarrow> tls_context \<Rightarrow> tls_context" where
  "set_check_hostname b c =
     c\<lparr>check_hostname := b,
       verify_mode := (if b \<and> verify_mode c = CERT_NONE then CERT_REQUIRED else verify_mode c)\<rparr>"

definition set_verify_mode :: "cert_mode \<Rightarrow> tls_context \<Rightarrow> exn + tls_context" where
  "set_verify_mode m c =
     (if m = CERT_NONE \<and> check_hostname c then Inl ValueError else Inr (c\<lparr>verify_mode := m\<rparr>))"

definition or_error :: "exn option \<Rightarrow> 'a \<Rightarrow> exn + 'a" where
  "or_error e x = (case e of Some e \<Rightarrow> Inl e | None \<Rightarrow> Inr x)"

definition load_cert_chain :: "tls_module \<Rightarrow> pystr \<Rightarrow> pystr option \<Rightarrow> tls_context \<Rightarrow> exn + tls_context" where
  "load_cert_chain M cert key c = or_error (chain_error M cert key) (c\<lparr>cert_chain := Some (cert, key)\<rparr>)"

definition load_verify_locations :: "tls_module \<Rightarrow> pystr \<Rightarrow> tls_context \<Rightarrow> exn + tls_context" where
  "load_verify_locations M ca c = or_error (ca_error M ca) (c\<lparr>verify_locations := Some ca\<rparr>)"

definition set_ciphers :: "tls_module \<Rightarrow> pystr \<Rightarrow> tls_context \<Rightarrow> exn + tls_context" where
  "set_ciphers M cs c = or_error (cipher_error M cs) (c\<lparr>cipher_list := Some cs\<rparr>)"

definition load_default_certs :: "tls_purpose \<Rightarrow> tls_context \<Rightarrow> tls_context" where
  "load_default_certs p c = c\<lparr>default_certs := Some p\<rparr>"

text \<open>
  \<open>ssl.create_default_context\<close> with a purpose and a CA file.
\<close>

definition create_default_context :: "tls_module \<Rightarrow> tls_purpose \<Rightarrow> pystr option \<Rightarrow> exn + tls_context" where
  "create_default_context M purpose cafile =
    (let c = new_context (if purpose = SERVER_AUTH then PROTOCOL_TLS_CLIENT else PROTOCOL_TLS_SERVER)
     in case cafile of
          Some ca \<Rightarrow> load_verify_locations M ca c
        | None \<Rightarrow> Inr (if verify_mode c \<noteq> CERT_NONE then load_default_certs purpose c else c))"

text \<open>A wrapped socket, before its handshake: the context and the arguments of \<open>wrap_socket\<close>.\<close>

record tls_session =
  tls_ctx :: tls_context
  server_side :: bool
  server_hostname :: "pystr option"
  handshake_at_once :: bool
  ragged_eofs :: bool

text \<open>\<open>SSLContext.wrap_socket\<close>; an empty host name counts as none.\<close>

definition wrap_with :: "tls_context \<Rightarrow> bool \<Rightarrow> pystr option \<Rightarrow> bool \<Rightarrow> bool \<Rightarrow> exn + tls_session" where
  "wrap_with c server hostname at_once ragged =
    (let named = (case hostname of None \<Rightarrow> False | Some h \<Rightarrow> h \<noteq> []) in
     if server \<and> named then Inl ValueError
     else if check_hostname c \<and> \<not> named then Inl ValueError
     else Inr \<lparr>tls_ctx = c, server_side = server, server_hostname = hostname,
               handshake_at_once = at_once, ragged_eofs = ragged\<rparr>)"

section \<open>SSLTransport\<close>

text \<open>
  The \<open>ssl\<close> argument of a transport: the keyword arguments of \<open>_wrap_socket_sni\<close>, \<open>None\<close> when they
  are not given, and the \<open>context\<close> (hostname check, purpose, CA file), \<open>None\<close> when it is missing or
  empty.
\<close>

record ssl_opts =
  opt_context :: "(bool option \<times> tls_purpose \<times> pystr option) option"
  opt_keyfile :: "pystr option"
  opt_certfile :: "pystr option"
  opt_server_side :: "bool option"
  opt_cert_reqs :: "cert_mode option"
  opt_ca_certs :: "pystr option"
  opt_handshake :: "bool option"
  opt_ragged_eofs :: "bool option"
  opt_server_hostname :: "pystr option"
  opt_ciphers :: "pystr option"
  opt_ssl_version :: "tls_protocol option"

definition no_ssl_opts :: ssl_opts where
  "no_ssl_opts =
     \<lparr>opt_context = None, opt_keyfile = None, opt_certfile = None, opt_server_side = None,
      opt_cert_reqs = None, opt_ca_certs = None, opt_handshake = None, opt_ragged_eofs = None,
      opt_server_hostname = None, opt_ciphers = None, opt_ssl_version = None\<rparr>"

definition arg_or :: "'a \<Rightarrow> 'a option \<Rightarrow> 'a" where
  "arg_or d x = (case x of None \<Rightarrow> d | Some v \<Rightarrow> v)"

definition on_some :: "'a option \<Rightarrow> ('a \<Rightarrow> 'b \<Rightarrow> exn + 'b) \<Rightarrow> 'b \<Rightarrow> exn + 'b" where
  "on_some x f c = (case x of None \<Rightarrow> Inr c | Some v \<Rightarrow> f v c)"

definition wrap_socket_sni :: "tls_module \<Rightarrow> ssl_opts \<Rightarrow> exn + tls_session" where
  "wrap_socket_sni M opts =
    (let server = arg_or False (opt_server_side opts);
         version = arg_or (if server then PROTOCOL_TLS_SERVER else PROTOCOL_TLS_CLIENT)
           (opt_ssl_version opts);
         context = new_context version
     in bindE (on_some (opt_certfile opts) (\<lambda>cert. load_cert_chain M cert (opt_keyfile opts)) context) (\<lambda>context.
        bindE (on_some (opt_ca_certs opts) (load_verify_locations M) context) (\<lambda>context.
        bindE (on_some (opt_ciphers opts) (set_ciphers M) context) (\<lambda>context.
        let context = set_check_hostname (HAS_SNI M \<and> opt_server_hostname opts \<noteq> None) context
        in bindE (on_some (opt_cert_reqs opts) set_verify_mode context) (\<lambda>context.
        let context =
          (if opt_ca_certs opts = None \<and> verify_mode context \<noteq> CERT_NONE
           then load_default_certs (if server then CLIENT_AUTH else SERVER_AUTH) context
           else context)
        in wrap_with context server (opt_server_hostname opts)
             (arg_or False (opt_handshake opts)) (arg_or True (opt_ragged_eofs opts)))))))"

text \<open>
  \<open>_wrap_context\<close>: the other options go to \<open>wrap_socket\<close>, which takes only four of them. Without
  the argument, \<open>check_hostname\<close> is set to \<open>None\<close>, which is false.
\<close>

definition wrap_context :: "tls_module \<Rightarrow> ssl_opts \<Rightarrow> bool option \<Rightarrow> tls_purpose \<Rightarrow> pystr option
    \<Rightarrow> exn + tls_session" where
  "wrap_context M opts check purpose cafile =
     bindE (create_default_context M purpose cafile) (\<lambda>ctx.
     let ctx = set_check_hostname (arg_or False check) ctx
     in if opt_keyfile opts \<noteq> None \<or> opt_certfile opts \<noteq> None \<or> opt_cert_reqs opts \<noteq> None
           \<or> opt_ca_certs opts \<noteq> None \<or> opt_ciphers opts \<noteq> None \<or> opt_ssl_version opts \<noteq> None
        then Inl TypeError
        else wrap_with ctx (arg_or False (opt_server_side opts)) (opt_server_hostname opts)
               (arg_or True (opt_handshake opts)) (arg_or True (opt_ragged_eofs opts)))"

definition wrap_socket :: "tls_module \<Rightarrow> ssl_opts \<Rightarrow> exn + tls_session" where
  "wrap_socket M opts = (case opt_context opts of
     Some (check, purpose, cafile) \<Rightarrow> wrap_context M opts check purpose cafile
   | None \<Rightarrow> wrap_socket_sni M opts)"

section \<open>What the context guarantees\<close>

text \<open>Whatever the options, a session that checks the name also requires a certificate.\<close>

definition consistent :: "tls_context \<Rightarrow> bool" where
  "consistent c \<longleftrightarrow> (check_hostname c \<longrightarrow> verify_mode c \<noteq> CERT_NONE)"

lemma consistent_steps:
  "consistent (new_context p)" "consistent (set_check_hostname b c)"
  "set_verify_mode m c = Inr c' \<Longrightarrow> consistent c'"
  by (auto simp: consistent_def new_context_def set_check_hostname_def set_verify_mode_def split: if_splits)

definition tls_files_ok :: "tls_module \<Rightarrow> ssl_opts \<Rightarrow> bool" where
  "tls_files_ok M opts \<longleftrightarrow>
     (\<forall>cert. opt_certfile opts = Some cert \<longrightarrow> chain_error M cert (opt_keyfile opts) = None)
     \<and> (\<forall>ca. opt_ca_certs opts = Some ca \<longrightarrow> ca_error M ca = None)
     \<and> (\<forall>cs. opt_ciphers opts = Some cs \<longrightarrow> cipher_error M cs = None)"

text \<open>
  The context of a client that leaves the protocol and the certificate requirements to the
  defaults, all files being readable.
\<close>

lemma client_session:
  assumes "tls_files_ok M opts" and "opt_server_side opts = None" and "opt_ssl_version opts = None"
    and "opt_context opts = None"
    and "opt_cert_reqs opts \<noteq> Some CERT_NONE \<or> opt_server_hostname opts = None"
    and "opt_server_hostname opts \<noteq> Some []" and "HAS_SNI M"
  shows "\<exists>s. wrap_socket M opts = Inr s \<and> server_hostname s = opt_server_hostname opts
    \<and> check_hostname (tls_ctx s) = (opt_server_hostname opts \<noteq> None)
    \<and> verify_mode (tls_ctx s) = arg_or CERT_REQUIRED (opt_cert_reqs opts)
    \<and> (verify_locations (tls_ctx s) = opt_ca_certs opts)
    \<and> (default_certs (tls_ctx s) = (if opt_ca_certs opts = None \<and> opt_cert_reqs opts \<noteq> Some CERT_NONE then Some SERVER_AUTH else None))"
  using assms
  by (cases "opt_certfile opts"; cases "opt_ca_certs opts"; cases "opt_ciphers opts";
      cases "opt_cert_reqs opts"; cases "opt_server_hostname opts")
    (simp_all add: wrap_socket_def wrap_socket_sni_def tls_files_ok_def arg_or_def on_some_def
      load_cert_chain_def load_verify_locations_def set_ciphers_def or_error_def new_context_def
      set_check_hostname_def set_verify_mode_def wrap_with_def load_default_certs_def Let_def)

text \<open>A session whose name is checked has a name, and its peer must present a certificate.\<close>

lemma wrap_with_checks:
  assumes "wrap_with c server h a r = Inr s" and "consistent c"
  shows "check_hostname (tls_ctx s) \<longrightarrow> verify_mode (tls_ctx s) \<noteq> CERT_NONE
    \<and> (\<exists>n. server_hostname s = Some n \<and> n \<noteq> [])"
  using assms by (auto simp: wrap_with_def consistent_def Let_def split: if_splits option.splits)

lemma load_default_consistent: "consistent (load_default_certs p c) = consistent c"
  by (simp add: consistent_def load_default_certs_def)

lemma session_checks:
  assumes "wrap_socket M opts = Inr s"
  shows "check_hostname (tls_ctx s) \<longrightarrow> verify_mode (tls_ctx s) \<noteq> CERT_NONE
    \<and> (\<exists>n. server_hostname s = Some n \<and> n \<noteq> [])"
proof (cases "opt_context opts")
  case None
  then obtain b c c' p server h a r
    where c: "on_some (opt_cert_reqs opts) set_verify_mode (set_check_hostname b c) = Inr c'"
    and w: "wrap_with (if opt_ca_certs opts = None \<and> verify_mode c' \<noteq> CERT_NONE
           then load_default_certs p c' else c') server h a r = Inr s"
    using assms by (auto simp: wrap_socket_def wrap_socket_sni_def Let_def)
  have "consistent c'"
    using c consistent_steps by (auto simp: on_some_def split: option.splits)
  then show ?thesis using wrap_with_checks [OF w] by (simp add: load_default_consistent)
next
  case (Some x)
  then show ?thesis
    using assms by (cases x) (auto simp: wrap_socket_def wrap_context_def Let_def consistent_steps
        split: if_splits dest!: wrap_with_checks)
qed

text \<open>Setting up a context does not run for ever if reading the files does not.\<close>

definition files_return :: "tls_module \<Rightarrow> bool" where
  "files_return M \<longleftrightarrow> (\<forall>c k. chain_error M c k \<noteq> Some OutOfFuel) \<and> (\<forall>c. ca_error M c \<noteq> Some OutOfFuel)
     \<and> (\<forall>c. cipher_error M c \<noteq> Some OutOfFuel)"

lemma wrap_socket_no_fuel:
  assumes "files_return M" shows "wrap_socket M opts \<noteq> Inl OutOfFuel"
proof -
  have or_error: "or_error x y \<noteq> Inl OutOfFuel" if "x \<noteq> Some OutOfFuel" for x and y :: 'b
    using that by (auto simp: or_error_def split: option.split)
  have steps: "load_cert_chain M a b c \<noteq> Inl OutOfFuel" "load_verify_locations M a c \<noteq> Inl OutOfFuel"
    "set_ciphers M a c \<noteq> Inl OutOfFuel" "set_verify_mode m c \<noteq> Inl OutOfFuel"
    "wrap_with c sv h at rg \<noteq> Inl OutOfFuel" for a b c m sv h at rg
    using assms
    by (simp_all add: load_cert_chain_def load_verify_locations_def set_ciphers_def or_error
        files_return_def set_verify_mode_def wrap_with_def Let_def)
  have "create_default_context M p ca \<noteq> Inl OutOfFuel" for p ca
    using steps by (simp add: create_default_context_def Let_def split: option.split)
  then show ?thesis
    using steps
    by (auto simp: wrap_socket_def wrap_context_def wrap_socket_sni_def on_some_def Let_def bindE_eq_Inl
        split: option.splits if_splits)
qed

end
