(* ===== verification/Transport.thy ===== *)
theory Transport
  imports Framing_Roundtrip Platform Tls Complex_Main
begin

text \<open>
  transport.py: the buffered reads of the TCP and the SSL transport, the framing of the byte
  stream (\<open>read_frame\<close>), writes, timeouts, connecting and closing. The peer and the kernel
  are a script: what successive \<open>recv\<close> and \<open>send\<close> calls do.
\<close>

section \<open>Sockets\<close>

text \<open>
  \<open>incoming\<close> is what the calls of \<open>recv\<close> will find: bytes (none at the end of the stream) or
  an exception (an \<open>OSError\<close> of some kind, a \<open>ValueError\<close>, or one that a scheduler of the
  application raises there); \<open>send_events\<close> how much each low level send takes, or its exception; when that
  script ends, sends take everything. \<open>fd_flags\<close> are the flags of the descriptor; the fields
  whose names end in \<open>_error\<close> are the exceptions of the calls they are named after, \<open>opt_error\<close> those
  of \<open>setsockopt\<close>.
\<close>

datatype io_error =
    IO_timeout | IO_error "int option" | IO_ssl ssl_kind "int option" | IO_value_error | IO_other nat

fun io_exn :: "io_error \<Rightarrow> exn" where
  "io_exn IO_timeout = SocketTimeout"
| "io_exn (IO_error n) = OSErr n"
| "io_exn (IO_ssl k n) = SSLErr k n"
| "io_exn IO_value_error = ValueError"
| "io_exn (IO_other k) = UserExn k"

datatype recv_event = Data bytes | Recv_fails io_error
datatype send_event = Takes nat | Send_fails io_error

record socket =
  incoming :: "recv_event list"
  send_events :: "send_event list"
  outgoing :: bytes
  sock_timeout :: "rat option"
  sock_opts :: "(string \<times> int \<times> int) list"
  fd_flags :: int
  fcntl_error :: "io_error option"
  connect_error :: "io_error option"
  opt_error :: "string \<Rightarrow> int \<Rightarrow> io_error option"
  unwrap_error :: "io_error option"
  shutdown_error :: "io_error option"
  close_error :: "io_error option"

definition EAGAIN :: int where "EAGAIN = 11"
definition EWOULDBLOCK :: int where "EWOULDBLOCK = 11"
definition EINTR :: int where "EINTR = 4"
definition ENOENT :: int where "ENOENT = 2"
definition EBADF :: int where "EBADF = 9"

definition UNAVAIL :: "int option list" where
  "UNAVAIL = [Some EAGAIN, Some EINTR, Some ENOENT, Some EWOULDBLOCK]"

definition recv :: "nat \<Rightarrow> (socket, exn, bytes) act" where
  "recv k s = (case incoming s of
     [] \<Rightarrow> (Inl Waiting, s)
   | Recv_fails e # es \<Rightarrow> (Inl (io_exn e), s\<lparr>incoming := es\<rparr>)
   | Data d # es \<Rightarrow>
       (Inr (take k d), s\<lparr>incoming := if length d \<le> k then es else Data (drop k d) # es\<rparr>))"

text \<open>The loop of \<open>sendall\<close> (TCP) and of \<open>SSLTransport._write\<close>: result, what was sent, events left.\<close>

fun send_loop :: "bool \<Rightarrow> bytes \<Rightarrow> send_event list \<Rightarrow> (exn + unit) \<times> bytes \<times> send_event list" where
  "send_loop ssl s [] = (Inr (), s, [])"
| "send_loop ssl s (ev # es) =
    (if s = [] then (Inr (), [], ev # es)
     else case ev of
       Takes k \<Rightarrow>
         if k = 0 then (if ssl then (Inl (OSErr None), [], es) else send_loop ssl s es)
         else (let (r, out, es') = send_loop ssl (drop k s) es in (r, take k s @ out, es'))
     | Send_fails e \<Rightarrow>
         (if ssl \<and> e = IO_value_error then Inl (OSErr None) else Inl (io_exn e), [], es))"

section \<open>The transport\<close>

record tcp_transport =
  is_ssl :: bool
  windows :: bool
  connected :: bool
  sock :: "socket option"
  raise_on_initial_eintr :: bool
  sslopts :: ssl_opts
  read_buffer :: bytes
  host :: pystr
  port :: int
  connect_timeout :: "rat option"
  read_timeout :: "rat option"
  write_timeout :: "rat option"
  socket_settings :: "(int \<times> int) list"

text \<open>
  The read loop over the buffer \<open>rbuf\<close>. It returns the buffer it reached in every case: the
  \<open>except\<close> clause of the source stores it before the exception goes on.
\<close>

function read_loop :: "int option list \<Rightarrow> bool \<Rightarrow> nat \<Rightarrow> bytes \<Rightarrow> socket
    \<Rightarrow> (exn + unit) \<times> bytes \<times> socket" where
  "read_loop errnos raise_initial n rbuf s =
    (if n \<le> length rbuf then (Inr (), rbuf, s)
     else case recv (n - length rbuf) s of
       (Inr d, s') \<Rightarrow>
         if d = [] then (Inl (OSErr None), rbuf, s')
         else read_loop errnos raise_initial n (rbuf @ d) s'
     | (Inl e, s') \<Rightarrow>
         if e \<noteq> Waiting \<and> is_OSError e \<and> exn_errno e \<in> set errnos then
           (if raise_initial then (Inl SocketTimeout, rbuf, s')
            else read_loop errnos raise_initial n rbuf s')
         else (Inl e, rbuf, s'))"
  by pat_completeness auto
termination
  by (relation "measures [\<lambda>(_, _, n, rbuf, _). n - length rbuf,
        \<lambda>(_, _, _, _, s). length (incoming s)]")
    (auto simp: recv_def split: list.splits recv_event.splits)

declare read_loop.simps [simp del]

definition errnos_of :: "tcp_transport \<Rightarrow> int option list" where
  "errnos_of t = (if is_ssl t then [Some ENOENT, Some EAGAIN, Some EINTR]
                  else [Some EAGAIN, Some EINTR])"

text \<open>\<open>_read(n, initial)\<close>; after \<open>close\<close> the receive function belongs to a closed socket.\<close>

definition read_n :: "nat \<Rightarrow> bool \<Rightarrow> (tcp_transport, exn, bytes) act" where
  "read_n n initial t =
    (if n \<le> length (read_buffer t)
     then (Inr (take n (read_buffer t)), t\<lparr>read_buffer := drop n (read_buffer t)\<rparr>)
     else case sock t of
       None \<Rightarrow> (Inl (if is_ssl t then ValueError else OSErr (Some EBADF)), t)
     | Some s \<Rightarrow>
        (case read_loop (errnos_of t) (initial \<and> raise_on_initial_eintr t) n (read_buffer t) s of
           (Inl e, rbuf, s') \<Rightarrow> (Inl e, t\<lparr>read_buffer := rbuf, sock := Some s'\<rparr>)
         | (Inr _, rbuf, s') \<Rightarrow>
             (Inr (take n rbuf), t\<lparr>read_buffer := drop n rbuf, sock := Some s'\<rparr>)))"

definition SIGNED_INT_MAX :: nat where
  "SIGNED_INT_MAX = 0x7FFFFFFF"

text \<open>
  The body of the \<open>try\<close> of \<open>read_frame\<close>. An exception carries the value \<open>read_frame_buffer\<close>
  has when it is raised.
\<close>

definition with_buffer :: "(exn \<Rightarrow> bytes) \<Rightarrow> (tcp_transport, exn, 'a) act
    \<Rightarrow> (tcp_transport, exn \<times> bytes, 'a) act" where
  "with_buffer b m t = (case m t of (Inl e, t') \<Rightarrow> (Inl (e, b e), t') | (Inr x, t') \<Rightarrow> (Inr x, t'))"

definition unpack_header :: "bytes \<Rightarrow> exn + int \<times> int \<times> int" where
  "unpack_header hdr =
     (if length hdr \<noteq> 7 then Inl StructError
      else bindE (sunpack_u 1 hdr 0) (\<lambda>frame_type. bindE (sunpack_u 2 hdr 1) (\<lambda>ch.
           bindE (sunpack_u 4 hdr 3) (\<lambda>n. Inr (frame_type, ch, n)))))"

definition read_payload :: "bytes \<Rightarrow> nat \<Rightarrow> (tcp_transport, exn \<times> bytes, bytes) act" where
  "read_payload hdr n =
    (if n > SIGNED_INT_MAX then
       bindA (with_buffer (\<lambda>_. hdr) (read_n SIGNED_INT_MAX False)) (\<lambda>part1.
       bindA (with_buffer (\<lambda>e. if is_OSError e then hdr @ part1 else hdr)
                (read_n (n - SIGNED_INT_MAX) False)) (\<lambda>part2.
         retA (part1 @ part2)))
     else with_buffer (\<lambda>_. hdr) (read_n n False))"

definition read_frame_parts :: "(tcp_transport, exn \<times> bytes, frame \<times> byte) act" where
  "read_frame_parts =
     bindA (with_buffer (\<lambda>_. []) (read_n 7 True)) (\<lambda>hdr.
     bindA (with_buffer (\<lambda>_. hdr) (liftA (unpack_header hdr))) (\<lambda>(frame_type, ch, n).
     bindA (read_payload hdr (nat n)) (\<lambda>payload.
     bindA (with_buffer (\<lambda>_. hdr @ payload) (read_n 1 False)) (\<lambda>last.
       retA ((frame_type, ch, payload), hd last)))))"

text \<open>Its \<open>except\<close> clauses, for an exception and the \<open>read_frame_buffer\<close> of that moment.\<close>

definition read_frame_failed :: "exn \<Rightarrow> bytes \<Rightarrow> tcp_transport \<Rightarrow> exn \<times> tcp_transport" where
  "read_frame_failed e buf t =
    (let restored = t\<lparr>read_buffer := buf @ read_buffer t\<rparr> in
     if e = SocketTimeout then (SocketTimeout, restored)
     else if is_OSError e then
       if windows t \<and> exn_errno e = Some EWOULDBLOCK then (SocketTimeout, restored)
       else if (case e of SSLErr SSL_timed_out _ \<Rightarrow> True | _ \<Rightarrow> False) then (SocketTimeout, restored)
       else (e, if exn_errno e \<notin> set UNAVAIL then t\<lparr>connected := False\<rparr> else t)
     else (e, t))"

definition read_frame :: "(tcp_transport, exn, frame) act" where
  "read_frame t = (case read_frame_parts t of
     (Inl (e, buf), t') \<Rightarrow> (case read_frame_failed e buf t' of (e', t'') \<Rightarrow> (Inl e', t''))
   | (Inr (frm, frame_end), t') \<Rightarrow>
       if frame_end = 206 then (Inr frm, t')
       else (Inl (raise_amqp UnexpectedFrame ''Received frame_end {} while expecting 0xce''), t'))"

section \<open>Writing\<close>

definition write_raw :: "bytes \<Rightarrow> (tcp_transport, exn, unit) act" where
  "write_raw d t = (case sock t of
     None \<Rightarrow> (Inl (if is_ssl t then AttributeError else OSErr (Some EBADF)), t)
   | Some s \<Rightarrow> (case send_loop (is_ssl t) d (send_events s) of (r, out, es) \<Rightarrow>
       (r, t\<lparr>sock := Some (s\<lparr>outgoing := outgoing s @ out, send_events := es\<rparr>)\<rparr>)))"

definition write_bytes :: "bytes \<Rightarrow> (tcp_transport, exn, unit) act" where
  "write_bytes d t = (case write_raw d t of
     (Inl e, t') \<Rightarrow>
       (Inl e, if e \<noteq> SocketTimeout \<and> is_OSError e \<and> exn_errno e \<notin> set UNAVAIL
               then t'\<lparr>connected := False\<rparr> else t')
   | (Inr x, t') \<Rightarrow> (Inr x, t'))"

section \<open>Timeouts\<close>

definition set_timeout :: "rat option \<Rightarrow> tcp_transport \<Rightarrow> tcp_transport" where
  "set_timeout tmo t =
     t\<lparr>sock := (case sock t of None \<Rightarrow> None | Some s \<Rightarrow> Some (s\<lparr>sock_timeout := tmo\<rparr>))\<rparr>"

text \<open>
  The exceptions of the body of a \<open>having_timeout\<close> block, translated, and the block over a
  state \<open>'s\<close> that contains the transport (\<open>view\<close>, \<open>upd\<close>). The socket bound before the body is
  the one restored: when the body has closed it (\<open>sock\<close> is then \<open>None\<close>), \<open>settimeout\<close> raises
  EBADF in the \<open>finally\<close> clause, whatever the body did.
\<close>

definition timeout_error :: "exn \<Rightarrow> exn" where
  "timeout_error e = (case e of
     SSLErr SSL_timed_out _ \<Rightarrow> SocketTimeout
   | SSLErr SSL_not_complete _ \<Rightarrow> SocketTimeout
   | SSLErr SSL_other _ \<Rightarrow> e
   | _ \<Rightarrow> if is_OSError e \<and> exn_errno e = Some EWOULDBLOCK then SocketTimeout else e)"

definition having_timeout :: "('s \<Rightarrow> tcp_transport) \<Rightarrow> ((tcp_transport \<Rightarrow> tcp_transport) \<Rightarrow> 's \<Rightarrow> 's)
    \<Rightarrow> rat option \<Rightarrow> ('s, exn, 'a) act \<Rightarrow> ('s, exn, 'a) act" where
  "having_timeout view upd tmo m st =
    (case tmo of
       None \<Rightarrow> m st
     | Some _ \<Rightarrow> (case sock (view st) of
         None \<Rightarrow> (Inl AttributeError, st)
       | Some s \<Rightarrow>
           (let prev = sock_timeout s;
                st1 = (if prev \<noteq> tmo then upd (set_timeout tmo) st else st)
            in case m st1 of (r, st2) \<Rightarrow>
              if tmo \<noteq> prev \<and> sock (view st2) = None then (Inl (OSErr (Some EBADF)), st2)
              else (case r of Inl e \<Rightarrow> Inl (timeout_error e) | Inr x \<Rightarrow> Inr x,
                    if tmo \<noteq> prev then upd (set_timeout prev) st2 else st2))))"

section \<open>Addresses\<close>

definition AMQP_PORT :: int where
  "AMQP_PORT = 5672"

definition is_ipv6_char :: "nat \<Rightarrow> bool" where
  "is_ipv6_char c \<longleftrightarrow> c = 46 \<or> is_digit c \<or> 97 \<le> c \<and> c \<le> 102 \<or> c = 58"

text \<open>\<open>IPV6_LITERAL.match\<close>: the two groups, on the ASCII digits.\<close>

definition ipv6_match :: "pystr \<Rightarrow> (pystr \<times> pystr option) option" where
  "ipv6_match s = (case s of
     [] \<Rightarrow> None
   | c # r \<Rightarrow>
      (let g1 = takeWhile is_ipv6_char r; r1 = dropWhile is_ipv6_char r
       in if c = 91 \<and> g1 \<noteq> [] \<and> r1 \<noteq> [] \<and> hd r1 = 93 then
            (let r2 = tl r1; ds = takeWhile is_digit (tl r2)
             in Some (g1, if r2 \<noteq> [] \<and> hd r2 = 58 \<and> ds \<noteq> [] then Some ds else None))
          else None))"

definition rsplit_colon :: "pystr \<Rightarrow> pystr \<times> pystr" where
  "rsplit_colon s =
     (rev (tl (dropWhile (\<lambda>c. c \<noteq> 58) (rev s))), rev (takeWhile (\<lambda>c. c \<noteq> 58) (rev s)))"

definition to_host_port :: "pystr \<Rightarrow> int \<Rightarrow> exn + pystr \<times> int" where
  "to_host_port hst dflt = (case ipv6_match hst of
     Some (g1, None) \<Rightarrow> Inr (g1, dflt)
   | Some (g1, Some ds) \<Rightarrow> bindE (get_or ValueError (parse_int ds)) (\<lambda>p. Inr (g1, p))
   | None \<Rightarrow>
      if 58 \<in> set hst then
        (case rsplit_colon hst of (h, p) \<Rightarrow>
           bindE (get_or ValueError (parse_int p)) (\<lambda>p. Inr (h, p)))
      else Inr (hst, dflt))"

text \<open>The constructors of the two classes; \<open>opts\<close> are the options of \<open>SSLTransport\<close>.\<close>

definition transport_init :: "bool \<Rightarrow> ssl_opts \<Rightarrow> bool \<Rightarrow> pystr \<Rightarrow> rat option \<Rightarrow> rat option \<Rightarrow> rat option
    \<Rightarrow> (int \<times> int) list \<Rightarrow> bool \<Rightarrow> exn + tcp_transport" where
  "transport_init ssl opts win hst ctimeout rtimeout wtimeout settings eintr =
     bindE (to_host_port hst AMQP_PORT) (\<lambda>(h, p).
       Inr \<lparr>is_ssl = ssl, windows = win, connected = False, sock = None,
            raise_on_initial_eintr = eintr, sslopts = opts, read_buffer = [], host = h, port = p,
            connect_timeout = ctimeout, read_timeout = rtimeout, write_timeout = wtimeout,
            socket_settings = settings\<rparr>)"

text \<open>
  \<open>Transport\<close>: the class, from the \<open>ssl\<close> argument, \<open>None\<close> when it is false; a true value that is
  not a dictionary gives no options.
\<close>

definition Transport :: "ssl_opts option option \<Rightarrow> bool \<Rightarrow> pystr \<Rightarrow> rat option \<Rightarrow> rat option \<Rightarrow> rat option
    \<Rightarrow> (int \<times> int) list \<Rightarrow> bool \<Rightarrow> exn + tcp_transport" where
  "Transport ssl win hst ctimeout rtimeout wtimeout settings eintr = (case ssl of
     None \<Rightarrow> transport_init False no_ssl_opts win hst ctimeout rtimeout wtimeout settings eintr
   | Some opts \<Rightarrow> transport_init True (arg_or no_ssl_opts opts) win hst ctimeout rtimeout wtimeout settings eintr)"

section \<open>Connecting\<close>

definition DEFAULT_SOCKET_SETTINGS :: "(string \<times> int) list" where
  "DEFAULT_SOCKET_SETTINGS =
    [(''TCP_NODELAY'', 1), (''TCP_USER_TIMEOUT'', 1000), (''TCP_KEEPIDLE'', 60),
     (''TCP_KEEPINTVL'', 10), (''TCP_KEEPCNT'', 9)]"

text \<open>
  \<open>_get_tcp_socket_defaults\<close>: \<open>consts\<close> gives the constants the \<open>socket\<close> module has, \<open>getopt\<close>
  the current value of an option. A dict update appends or replaces.
\<close>

fun socket_defaults :: "(string \<Rightarrow> int option) \<Rightarrow> (int \<Rightarrow> int) \<Rightarrow> string list \<Rightarrow> (int \<times> int) list
    \<Rightarrow> (int \<times> int) list" where
  "socket_defaults consts getopt [] opts = opts"
| "socket_defaults consts getopt (opt # os) opts =
     socket_defaults consts getopt os
      (case (if opt = ''TCP_USER_TIMEOUT''
             then Some (case consts opt of Some n \<Rightarrow> n | None \<Rightarrow> 18) else consts opt) of
         None \<Rightarrow> opts
       | Some enum \<Rightarrow>
           if enum = 0 then opts
           else case map_of DEFAULT_SOCKET_SETTINGS opt of
             Some v \<Rightarrow> AList.update enum v opts
           | None \<Rightarrow> (case consts opt of
               Some c \<Rightarrow> AList.update enum (getopt c) opts
             | None \<Rightarrow> opts))"

definition tcp_options :: "(string \<Rightarrow> int option) \<Rightarrow> (int \<Rightarrow> int) \<Rightarrow> string list \<Rightarrow> (int \<times> int) list
    \<Rightarrow> (int \<times> int) list" where
  "tcp_options consts getopt known settings =
     fold (\<lambda>(k, v). AList.update k v) settings (socket_defaults consts getopt known [])"

definition on_socket :: "(socket, exn, 'a) act \<Rightarrow> (tcp_transport, exn, 'a) act" where
  "on_socket f t = (case sock t of
     None \<Rightarrow> (Inl AttributeError, t)
   | Some s \<Rightarrow> (case f s of (r, s') \<Rightarrow> (r, t\<lparr>sock := Some s'\<rparr>)))"

definition setsockopt :: "string \<Rightarrow> int \<Rightarrow> int \<Rightarrow> (socket, exn, unit) act" where
  "setsockopt level opt v s = (case opt_error s level opt of
     Some e \<Rightarrow> (Inl (io_exn e), s)
   | None \<Rightarrow> (Inr (), s\<lparr>sock_opts := sock_opts s @ [(level, opt, v)]\<rparr>))"

text \<open>The microseconds of a timeout, as \<open>pack('ll', sec, usec)\<close> splits them.\<close>

definition timeval :: "rat \<Rightarrow> int" where
  "timeval interval =
     (let trunc = (\<lambda>x. if x < 0 then - floor (- x) else floor x); sec = trunc interval
      in sec * 1000000 + trunc ((interval - of_int sec) * 1000000))"

definition SO_KEEPALIVE :: int where "SO_KEEPALIVE = 9"
definition SO_RCVTIMEO :: int where "SO_RCVTIMEO = 20"
definition SO_SNDTIMEO :: int where "SO_SNDTIMEO = 21"

definition AMQP_PROTOCOL_HEADER :: bytes where
  "AMQP_PROTOCOL_HEADER = pyb ''AMQP'' @ [0, 0, 9, 1]"

text \<open>
  What connecting uses of its surroundings: the constants of the \<open>socket\<close> module, the current
  value of an option, the options of the platform, the \<open>fcntl\<close> module (\<open>None\<close> where it cannot be
  imported) with its constant \<open>FD_CLOEXEC\<close> where it has one, the \<open>ssl\<close> module, and the TLS handshake
  on a wrapped socket.
\<close>

record net =
  sock_consts :: "string \<Rightarrow> int option"
  sock_getopt :: "int \<Rightarrow> int"
  tcp_opts :: "string list"
  fcntl_module :: "int option option"
  ssl_module :: tls_module
  do_handshake :: "tls_session \<Rightarrow> socket \<Rightarrow> exn + socket"

text \<open>\<open>SSLTransport._setup_transport\<close>: wrap the socket, set its timeout, shake hands.\<close>

definition setup_ssl :: "net \<Rightarrow> (tcp_transport, exn, unit) act" where
  "setup_ssl N =
     bindA (getA sslopts) (\<lambda>opts.
     bindA (liftA (wrap_socket (ssl_module N) opts)) (\<lambda>session.
     bindA (getA connect_timeout) (\<lambda>tmo.
     bindA (on_socket (modA (\<lambda>s. s\<lparr>sock_timeout := tmo\<rparr>))) (\<lambda>_.
     on_socket (\<lambda>s. case do_handshake N session s of Inl e \<Rightarrow> (Inl e, s) | Inr s' \<Rightarrow> (Inr (), s'))))))"

text \<open>\<open>_init_socket\<close>; TCP empties the read buffer where TLS wraps the socket.\<close>

definition init_socket :: "net \<Rightarrow> (tcp_transport, exn, unit) act" where
  "init_socket N =
     bindA (on_socket (modA (\<lambda>s. s\<lparr>sock_timeout := None\<rparr>))) (\<lambda>_.
     bindA (on_socket (setsockopt ''SOL_SOCKET'' SO_KEEPALIVE 1)) (\<lambda>_.
     bindA (getA socket_settings) (\<lambda>settings.
     bindA (forA (tcp_options (sock_consts N) (sock_getopt N) (tcp_opts N) settings)
              (\<lambda>(opt, v). on_socket (setsockopt ''SOL_TCP'' opt v))) (\<lambda>_.
     bindA (getA write_timeout) (\<lambda>wt.
     bindA (getA read_timeout) (\<lambda>rt.
     bindA (forA [(SO_SNDTIMEO, wt), (SO_RCVTIMEO, rt)] (\<lambda>(opt, interval). case interval of
              None \<Rightarrow> retA ()
            | Some i \<Rightarrow> on_socket (setsockopt ''SOL_SOCKET'' opt (timeval i)))) (\<lambda>_.
     bindA (getA is_ssl) (\<lambda>ssl.
     bindA (if ssl then setup_ssl N else modA (\<lambda>t. t\<lparr>read_buffer := []\<rparr>)) (\<lambda>_.
     write_raw AMQP_PROTOCOL_HEADER)))))))))"

text \<open>\<open>utils.set_cloexec\<close>; the two calls of \<open>fcntl\<close> may fail on the descriptor.\<close>

definition set_cloexec :: "int option option \<Rightarrow> bool \<Rightarrow> (socket, exn, unit) act" where
  "set_cloexec fcntl cloexec s = (case fcntl of
     None \<Rightarrow> (Inr (), s)
   | Some None \<Rightarrow> (Inl NotImplementedExn, s)
   | Some (Some FD_CLOEXEC) \<Rightarrow>
      (case fcntl_error s of
         Some e \<Rightarrow> (Inl (io_exn e), s)
       | None \<Rightarrow> (Inr (), s\<lparr>fd_flags := if cloexec then fd_flags s OR FD_CLOEXEC
                                      else fd_flags s AND NOT FD_CLOEXEC\<rparr>)))"

definition open_socket :: "int option option \<Rightarrow> rat option \<Rightarrow> (socket, exn, unit) act" where
  "open_socket fcntl timeout =
     bindA (catchA (set_cloexec fcntl True)
              (\<lambda>e. if e = NotImplementedExn then retA () else raiseA e)) (\<lambda>_.
     bindA (modA (\<lambda>s. s\<lparr>sock_timeout := timeout\<rparr>)) (\<lambda>_ s.
     case connect_error s of None \<Rightarrow> (Inr (), s) | Some e \<Rightarrow> (Inl (io_exn e), s)))"

text \<open>What the \<open>except\<close> clauses do with the socket: \<open>self.sock.close(); self.sock = None\<close>.\<close>

definition drop_sock :: "(tcp_transport, exn, unit) act" where
  "drop_sock t = (case sock t of
     None \<Rightarrow> (Inr (), t)
   | Some s \<Rightarrow> (case close_error s of
       None \<Rightarrow> (Inr (), t\<lparr>sock := None\<rparr>) | Some e \<Rightarrow> (Inl (io_exn e), t)))"

text \<open>
  \<open>_connect\<close> over the addresses \<open>getaddrinfo\<close> gave: each with the socket it leads to, or the
  exception creating one raises.
\<close>

fun connect_loop :: "int option option \<Rightarrow> rat option \<Rightarrow> (io_error + socket) list
    \<Rightarrow> (tcp_transport, exn, unit) act" where
  "connect_loop fcntl timeout [] t = (Inr (), t)"
| "connect_loop fcntl timeout (x # es) t =
    (case (case x of
             Inl e \<Rightarrow> (Inl (io_exn e), t)
           | Inr s \<Rightarrow> on_socket (open_socket fcntl timeout) (t\<lparr>sock := Some s\<rparr>)) of
       (Inr _, t') \<Rightarrow> (Inr (), t')
     | (Inl e, t') \<Rightarrow>
        if is_OSError e then
          (case drop_sock t' of
             (Inl e', t'') \<Rightarrow> (Inl e', t'')
           | (Inr _, t'') \<Rightarrow> if es = [] then (Inl e, t'') else connect_loop fcntl timeout es t'')
        else (Inl e, t'))"

definition connect :: "io_error + (io_error + socket) list \<Rightarrow> net \<Rightarrow> (tcp_transport, exn, unit) act" where
  "connect addrs N t =
    (if connected t then (Inr (), t)
     else case bindA (liftA (case addrs of Inl e \<Rightarrow> Inl (io_exn e) | Inr es \<Rightarrow> Inr es)) (\<lambda>entries.
               bindA (connect_loop (fcntl_module N) (connect_timeout t) entries) (\<lambda>_. init_socket N)) t of
       (Inr _, t') \<Rightarrow> (Inr (), t'\<lparr>connected := True\<rparr>)
     | (Inl e, t') \<Rightarrow>
        if is_OSError e then bindA drop_sock (\<lambda>_. raiseA e) t' else (Inl e, t'))"

text \<open>\<open>close\<close>: every \<open>OSError\<close> on the way is swallowed.\<close>

definition ignore_OSError :: "io_error option \<Rightarrow> ('s, exn, unit) act" where
  "ignore_OSError err = (case err of
     None \<Rightarrow> retA ()
   | Some e \<Rightarrow> if is_OSError (io_exn e) then retA () else raiseA (io_exn e))"

definition close :: "(tcp_transport, exn, unit) act" where
  "close =
     bindA (getA sock) (\<lambda>so. case so of
       None \<Rightarrow> modA (\<lambda>t. t\<lparr>connected := False\<rparr>)
     | Some s \<Rightarrow>
         bindA (getA is_ssl) (\<lambda>ssl.
         bindA (if ssl then ignore_OSError (unwrap_error s) else retA ()) (\<lambda>_.
         bindA (ignore_OSError (shutdown_error s)) (\<lambda>_.
         bindA (ignore_OSError (close_error s)) (\<lambda>_.
         modA (\<lambda>t. t\<lparr>sock := None, connected := False\<rparr>))))))"

end
