(* ===== verification/Transport_Facts.thy ===== *)
theory Transport_Facts
  imports Transport
begin

text \<open>
  Facts about the transport: no byte of the stream is lost or invented by a read, whatever
  exceptions interrupt it; \<open>read_frame\<close> takes exactly one frame off the stream or, on a
  timeout, nothing; written bytes reach the socket in order; an address splits as intended.
\<close>

section \<open>The stream of bytes still to be read\<close>

fun pending_data :: "recv_event list \<Rightarrow> bytes" where
  "pending_data [] = []"
| "pending_data (Data d # es) = d @ pending_data es"
| "pending_data (Recv_fails e # es) = pending_data es"

definition sock_data :: "socket option \<Rightarrow> bytes" where
  "sock_data so = (case so of None \<Rightarrow> [] | Some s \<Rightarrow> pending_data (incoming s))"

definition unread :: "tcp_transport \<Rightarrow> bytes" where
  "unread t = read_buffer t @ sock_data (sock t)"

text \<open>A script in which every receive yields bytes.\<close>

definition steady :: "recv_event list \<Rightarrow> bool" where
  "steady es \<longleftrightarrow> (\<forall>e \<in> set es. \<exists>d. e = Data d \<and> d \<noteq> [])"

lemma recv_data:
  assumes "recv k s = (r, s')"
  shows "pending_data (incoming s) = (case r of Inl _ \<Rightarrow> [] | Inr d \<Rightarrow> d) @ pending_data (incoming s')"
  using assms by (auto simp: recv_def split: list.splits recv_event.splits)

lemma recv_length: "recv k s = (Inr d, s') \<Longrightarrow> length d \<le> k"
  by (auto simp: recv_def split: list.splits recv_event.splits)

lemma recv_rest: "recv k s = (r, s') \<Longrightarrow> s' = s\<lparr>incoming := incoming s'\<rparr>"
  by (auto simp: recv_def split: list.splits recv_event.splits)

lemma read_loop_data:
  assumes "read_loop errnos ini n rbuf s = (r, rbuf', s')"
  shows "rbuf @ pending_data (incoming s) = rbuf' @ pending_data (incoming s')
    \<and> s' = s\<lparr>incoming := incoming s'\<rparr> \<and> (length rbuf \<le> n \<longrightarrow> length rbuf' \<le> n)
    \<and> (r = Inr () \<longrightarrow> n \<le> length rbuf')"
  using assms
proof (induction errnos ini n rbuf s arbitrary: r rbuf' s' rule: read_loop.induct)
  case (1 errnos ini n rbuf s)
  show ?case
  proof (cases "n \<le> length rbuf")
    case True
    then show ?thesis using "1.prems" by (subst (asm) read_loop.simps) auto
  next
    case False
    obtain q s1 where q: "recv (n - length rbuf) s = (q, s1)" by (cases "recv (n - length rbuf) s")
    have d: "pending_data (incoming s) = (case q of Inl _ \<Rightarrow> [] | Inr d \<Rightarrow> d) @ pending_data (incoming s1)"
      and s1: "s1 = s\<lparr>incoming := incoming s1\<rparr>"
      using recv_data [OF q] recv_rest [OF q] by auto
    have upd: "s' = s\<lparr>incoming := incoming s'\<rparr>" if "s' = s1\<lparr>incoming := incoming s'\<rparr>"
      using that s1 by (metis socket.update_convs(1) socket.surjective)
    show ?thesis
    proof (cases q)
      case (Inl e)
      show ?thesis
        using "1.prems" "1.IH"(1) [OF False q [symmetric] Inl] False q Inl d upd s1
        by (subst (asm) read_loop.simps) (auto split: if_splits)
    next
      case (Inr x)
      have "length x \<le> n - length rbuf" using recv_length q Inr by blast
      then show ?thesis
        using "1.prems" "1.IH"(2) [OF False q [symmetric] Inr] False q Inr d upd s1
        by (subst (asm) read_loop.simps) (auto split: if_splits)
    qed
  qed
qed

text \<open>With a steady script a read gets its bytes, however they are cut into packets.\<close>

lemma steady_recv:
  assumes "steady (incoming s)" and "incoming s \<noteq> []" and "0 < k"
  shows "\<exists>d s'. recv k s = (Inr d, s') \<and> d \<noteq> [] \<and> steady (incoming s')"
  using assms by (cases "incoming s") (auto simp: recv_def steady_def split: recv_event.splits)

lemma read_loop_steady:
  assumes "steady (incoming s)" and "n \<le> length (rbuf @ pending_data (incoming s))"
  shows "\<exists>rbuf' s'. read_loop errnos ini n rbuf s = (Inr (), rbuf', s') \<and> steady (incoming s')"
  using assms
proof (induction errnos ini n rbuf s rule: read_loop.induct)
  case (1 errnos ini n rbuf s)
  show ?case
  proof (cases "n \<le> length rbuf")
    case True
    then show ?thesis using "1.prems" by (subst read_loop.simps) auto
  next
    case False
    then have "incoming s \<noteq> []" using "1.prems"(2) by auto
    moreover have "0 < n - length rbuf" using False by simp
    ultimately obtain d s1
      where d: "recv (n - length rbuf) s = (Inr d, s1)" "d \<noteq> []" "steady (incoming s1)"
      using steady_recv [OF "1.prems"(1)] by blast
    have "n \<le> length ((rbuf @ d) @ pending_data (incoming s1))"
      using "1.prems"(2) recv_data [OF d(1)] by simp
    from "1.IH"(2) [OF False d(1) [symmetric] refl d(2) d(3) this] False d
    show ?thesis by (subst read_loop.simps) simp
  qed
qed

section \<open>Exact reads\<close>

definition sent_bytes :: "tcp_transport \<Rightarrow> bytes" where
  "sent_bytes t = (case sock t of None \<Rightarrow> [] | Some s \<Rightarrow> outgoing s)"

definition timeout_of :: "tcp_transport \<Rightarrow> rat option option" where
  "timeout_of t = map_option sock_timeout (sock t)"

definition send_script :: "tcp_transport \<Rightarrow> send_event list option" where
  "send_script t = map_option send_events (sock t)"

text \<open>A socket whose closing fails with OS errors at most.\<close>

definition only_OSErrors :: "socket \<Rightarrow> bool" where
  "only_OSErrors s \<longleftrightarrow> (\<forall>e. unwrap_error s = Some e \<or> shutdown_error s = Some e
     \<or> close_error s = Some e \<longrightarrow> is_OSError (io_exn e))"

definition clean_close :: "tcp_transport \<Rightarrow> bool" where
  "clean_close t \<longleftrightarrow> (\<forall>s. sock t = Some s \<longrightarrow> only_OSErrors s)"

text \<open>What reading leaves alone.\<close>

definition same_sender :: "tcp_transport \<Rightarrow> tcp_transport \<Rightarrow> bool" where
  "same_sender t t' \<longleftrightarrow> sent_bytes t' = sent_bytes t \<and> (sock t' = None) = (sock t = None)
     \<and> timeout_of t' = timeout_of t \<and> send_script t' = send_script t
     \<and> connect_timeout t' = connect_timeout t \<and> clean_close t' = clean_close t
     \<and> is_ssl t' = is_ssl t \<and> windows t' = windows t"

lemma same_sender_refl [simp]: "same_sender t t"
  by (simp add: same_sender_def)

lemma same_sender_trans: "same_sender t t' \<Longrightarrow> same_sender t' t'' \<Longrightarrow> same_sender t t''"
  by (simp add: same_sender_def)

lemma read_loop_sender:
  assumes "read_loop errnos ini n rbuf s = (r, rbuf', s')"
  shows "outgoing s' = outgoing s" and "sock_timeout s' = sock_timeout s"
    and "send_events s' = send_events s" and "only_OSErrors s' = only_OSErrors s"
proof -
  have *: "s' = s\<lparr>incoming := incoming s'\<rparr>" using read_loop_data [OF assms] by blast
  have "outgoing s' = outgoing (s\<lparr>incoming := incoming s'\<rparr>)" using * by (rule arg_cong)
  then show "outgoing s' = outgoing s" by simp
  have "sock_timeout s' = sock_timeout (s\<lparr>incoming := incoming s'\<rparr>)" using * by (rule arg_cong)
  then show "sock_timeout s' = sock_timeout s" by simp
  have "send_events s' = send_events (s\<lparr>incoming := incoming s'\<rparr>)" using * by (rule arg_cong)
  then show "send_events s' = send_events s" by simp
  have "only_OSErrors s' = only_OSErrors (s\<lparr>incoming := incoming s'\<rparr>)" using * by (rule arg_cong)
  then show "only_OSErrors s' = only_OSErrors s" by (simp add: only_OSErrors_def)
qed

lemma read_n_unread:
  assumes "read_n n ini t = (r, t')"
  shows "unread t = (case r of Inl _ \<Rightarrow> [] | Inr bs \<Rightarrow> bs) @ unread t'"
    and "\<And>bs. r = Inr bs \<Longrightarrow> length bs = n"
    and "same_sender t t'" and "connected t' = connected t"
proof -
  consider (buffered) "n \<le> length (read_buffer t)"
    | (closed) "\<not> n \<le> length (read_buffer t)" "sock t = None"
    | (loop) s q rbuf s' where "\<not> n \<le> length (read_buffer t)" "sock t = Some s"
        "read_loop (errnos_of t) (ini \<and> raise_on_initial_eintr t) n (read_buffer t) s = (q, rbuf, s')"
  proof (cases "n \<le> length (read_buffer t)")
    case False
    show ?thesis
    proof (cases "sock t")
      case (Some s)
      then show ?thesis
        using False loop
        by (cases "read_loop (errnos_of t) (ini \<and> raise_on_initial_eintr t) n (read_buffer t) s") blast
    qed (use False closed in blast)
  qed (use buffered in blast)
  then have "unread t = (case r of Inl _ \<Rightarrow> [] | Inr bs \<Rightarrow> bs) @ unread t'
    \<and> (\<forall>bs. r = Inr bs \<longrightarrow> length bs = n) \<and> same_sender t t' \<and> connected t' = connected t"
  proof cases
    case buffered
    have "take n (read_buffer t) @ drop n (read_buffer t) @ x = read_buffer t @ x" for x
      by (metis append.assoc append_take_drop_id)
    then show ?thesis
      using assms buffered by (auto simp: read_n_def unread_def same_sender_def sent_bytes_def timeout_of_def send_script_def
          clean_close_def)
  next
    case closed
    then show ?thesis using assms by (auto simp: read_n_def)
  next
    case loop
    have "take n rbuf @ drop n rbuf @ x = rbuf @ x" for x
      by (metis append.assoc append_take_drop_id)
    then show ?thesis
      using assms loop read_loop_data [OF loop(3)] read_loop_sender [OF loop(3)]
      by (auto simp: read_n_def unread_def sock_data_def same_sender_def sent_bytes_def timeout_of_def send_script_def
          clean_close_def
          split: sum.splits)
  qed
  then show "unread t = (case r of Inl _ \<Rightarrow> [] | Inr bs \<Rightarrow> bs) @ unread t'"
    and "\<And>bs. r = Inr bs \<Longrightarrow> length bs = n" and "same_sender t t'" and "connected t' = connected t"
    by blast+
qed

definition steady_transport :: "tcp_transport \<Rightarrow> bool" where
  "steady_transport t = (case sock t of None \<Rightarrow> False | Some s \<Rightarrow> steady (incoming s))"

lemma read_n_steady:
  assumes "steady_transport t" and "n \<le> length (unread t)"
  obtains bs t' where "read_n n ini t = (Inr bs, t')" and "steady_transport t'"
proof -
  obtain s where s: "sock t = Some s" "steady (incoming s)"
    using assms(1) by (auto simp: steady_transport_def split: option.splits)
  show thesis
  proof (cases "n \<le> length (read_buffer t)")
    case True
    then show ?thesis using that s by (simp add: read_n_def steady_transport_def)
  next
    case False
    have "n \<le> length (read_buffer t @ pending_data (incoming s))"
      using assms(2) s by (simp add: unread_def sock_data_def)
    from read_loop_steady [OF s(2) this, of "errnos_of t" "ini \<and> raise_on_initial_eintr t"]
    show ?thesis using False that s by (auto simp: read_n_def steady_transport_def)
  qed
qed

section \<open>read_frame\<close>

lemma with_buffer_cases:
  assumes "with_buffer b m t = (r, t')"
  obtains (failed) e where "m t = (Inl e, t')" and "r = Inl (e, b e)"
    | (ok) x where "m t = (Inr x, t')" and "r = Inr x"
  using assms by (auto simp: with_buffer_def split: prod.splits sum.splits)

text \<open>Whatever happens, what was taken off the stream is \<open>read_frame_buffer\<close> or the frame.\<close>

lemma read_payload_unread:
  assumes "read_payload hdr n t = (r, t')"
  shows "case r of Inl (e, b) \<Rightarrow> is_OSError e \<longrightarrow> hdr @ unread t = b @ unread t'
    | Inr p \<Rightarrow> unread t = p @ unread t' \<and> length p = n"
    and "same_sender t t'" and "connected t' = connected t"
proof -
  have *: "(case r of Inl (e, b) \<Rightarrow> is_OSError e \<longrightarrow> hdr @ unread t = b @ unread t'
    | Inr p \<Rightarrow> unread t = p @ unread t' \<and> length p = n)
    \<and> same_sender t t' \<and> connected t' = connected t"
  proof (cases "n > SIGNED_INT_MAX")
    case False
    then have "with_buffer (\<lambda>_. hdr) (read_n n False) t = (r, t')"
      using assms by (simp add: read_payload_def)
    then show ?thesis by (cases rule: with_buffer_cases) (auto dest: read_n_unread)
  next
    case True
    then have "bindA (with_buffer (\<lambda>_. hdr) (read_n SIGNED_INT_MAX False)) (\<lambda>part1.
       bindA (with_buffer (\<lambda>e. if is_OSError e then hdr @ part1 else hdr)
                (read_n (n - SIGNED_INT_MAX) False)) (\<lambda>part2. retA (part1 @ part2))) t = (r, t')"
      using assms by (simp add: read_payload_def)
    then show ?thesis
    proof (cases rule: bindA_cases)
      case (raised e)
      from raised(1) show ?thesis using raised(2)
        by (cases rule: with_buffer_cases) (auto dest: read_n_unread)
    next
      case (ok p1 t1)
      from ok(1) have p1: "read_n SIGNED_INT_MAX False t = (Inr p1, t1)"
        by (cases rule: with_buffer_cases) auto
      note u1 = read_n_unread [OF p1]
      from ok(2) show ?thesis
      proof (cases rule: bindA_cases)
        case (raised e)
        from raised(1) show ?thesis using raised(2) u1
          by (cases rule: with_buffer_cases) (auto dest: read_n_unread intro: same_sender_trans)
      next
        case (ok p2 t2)
        from ok(1) have p2: "read_n (n - SIGNED_INT_MAX) False t1 = (Inr p2, t2)"
          by (cases rule: with_buffer_cases) auto
        show ?thesis
          using u1 read_n_unread [OF p2] ok(2) True by (auto intro: same_sender_trans)
      qed
    qed
  qed
  then show "case r of Inl (e, b) \<Rightarrow> is_OSError e \<longrightarrow> hdr @ unread t = b @ unread t'
    | Inr p \<Rightarrow> unread t = p @ unread t' \<and> length p = n"
    and "same_sender t t'" and "connected t' = connected t" by blast+
qed

lemma unpack_header_pack:
  assumes "unpack_header hdr = Inr (ft, ch, n)" and "n = int (length p)"
  shows "pack_frame ft ch p = Inr (hdr @ p @ [FRAME_END])"
proof -
  have len: "length hdr = 7" and u: "unpack_u 1 hdr 0 = Some ft" "unpack_u 2 hdr 1 = Some ch"
    "unpack_u 4 hdr 3 = Some n"
    using assms(1) by (auto simp: unpack_header_def sunpack_u_def bindE_eq_Inr split: if_splits)
  have "hdr = slice hdr 0 1 @ slice hdr 1 2 @ slice hdr 3 4"
  proof -
    have "slice hdr 0 1 @ slice hdr 1 2 @ slice hdr 3 4 = slice hdr 0 7"
      using slice_slice [of hdr 0 1 2] slice_slice [of hdr 0 3 4] by (simp add: numeral_3_eq_3 flip: append_assoc)
    then have "hdr = slice hdr 0 1 @ slice hdr 1 2 @ slice hdr 3 4" by (simp add: slice_def len)
    then show ?thesis .
  qed
  then show ?thesis
    using u [THEN pack_u_unpack_u] assms(2) by (simp add: pack_frame_def spack_u_def)
qed

lemma pack_frame_header:
  assumes "pack_frame ft ch p = Inr d"
  obtains hdr where "d = hdr @ p @ [FRAME_END]" and "length hdr = 7"
    and "unpack_header hdr = Inr (ft, ch, int (length p))"
proof -
  obtain a b c where abc: "pack_u 1 ft = Some a" "pack_u 2 ch = Some b"
    "pack_u 4 (int (length p)) = Some c" and d: "d = a @ b @ c @ p @ [FRAME_END]"
    using assms by (auto simp: pack_frame_def spack_u_def bindE_eq_Inr)
  have len: "length a = 1" "length b = 2" "length c = 4" using abc by (auto dest: pack_u_SomeD)
  have "sunpack_u 1 (a @ b @ c) 0 = Inr ft" using sunpack_u_at [OF abc(1), of "[]" "b @ c"] by simp
  moreover have "sunpack_u 2 (a @ b @ c) 1 = Inr ch" using sunpack_u_at [OF abc(2), of a c] len by simp
  moreover have "sunpack_u 4 (a @ b @ c) 3 = Inr (int (length p))"
    using sunpack_u_at [OF abc(3), of "a @ b" "[]"] len by (simp add: numeral_3_eq_3)
  ultimately show thesis
    using that [of "a @ b @ c"] d len by (simp add: unpack_header_def)
qed

lemma read_frame_parts_unread:
  assumes "read_frame_parts t = (r, t')"
  shows "case r of
      Inl (e, b) \<Rightarrow> is_OSError e \<longrightarrow> unread t = b @ unread t'
    | Inr ((ft, ch, p), fe) \<Rightarrow> \<exists>hdr. unpack_header hdr = Inr (ft, ch, int (length p))
        \<and> unread t = hdr @ p @ [fe] @ unread t'"
    and "same_sender t t'" and "connected t' = connected t"
proof -
  have *: "(case r of
      Inl (e, b) \<Rightarrow> is_OSError e \<longrightarrow> unread t = b @ unread t'
    | Inr ((ft, ch, p), fe) \<Rightarrow> \<exists>hdr. unpack_header hdr = Inr (ft, ch, int (length p))
        \<and> unread t = hdr @ p @ [fe] @ unread t') \<and> same_sender t t' \<and> connected t' = connected t"
    using assms unfolding read_frame_parts_def
  proof (cases rule: bindA_cases)
    case (raised e)
    from raised(1) show ?thesis using raised(2)
      by (cases rule: with_buffer_cases) (auto dest: read_n_unread)
  next
    case (ok hdr t1)
    from ok(1) have "read_n 7 True t = (Inr hdr, t1)" by (cases rule: with_buffer_cases) auto
    note u1 = read_n_unread [OF this]
    show ?thesis
    proof (cases "unpack_header hdr")
      case (Inl e)
      then have "\<not> is_OSError e"
        by (auto simp: unpack_header_def sunpack_u_def bindE_eq_Inl get_or_def is_OSError_def
            split: if_splits option.splits)
      then show ?thesis using ok(2) Inl u1 by (auto simp: with_buffer_def bindA_def)
    next
      case (Inr h)
      obtain ft ch n where h: "unpack_header hdr = Inr (ft, ch, n)" using Inr by (cases h) auto
      then have n: "0 \<le> n"
        using unpack_u_range [of 4 hdr 3 n]
        by (auto simp: unpack_header_def sunpack_u_def bindE_eq_Inr split: if_splits)
      have "bindA (read_payload hdr (nat n)) (\<lambda>payload.
         bindA (with_buffer (\<lambda>_. hdr @ payload) (read_n 1 False)) (\<lambda>last.
           retA ((ft, ch, payload), hd last))) t1 = (r, t')"
        using ok(2) h by (simp add: with_buffer_def bindA_def)
      then show ?thesis
      proof (cases rule: bindA_cases)
        case (raised eb)
        then show ?thesis
          using read_payload_unread [OF raised(1)] u1 by (cases eb) (auto intro: same_sender_trans)
      next
        case (ok p t2)
        note u2 = read_payload_unread [OF ok(1)]
        from ok(2) show ?thesis
        proof (cases rule: bindA_cases)
          case (raised e)
          from raised(1) show ?thesis using raised(2) u1 u2
            by (cases rule: with_buffer_cases) (auto dest: read_n_unread intro: same_sender_trans)
        next
          case (ok last t3)
          from ok(1) have l: "read_n 1 False t2 = (Inr last, t3)"
            by (cases rule: with_buffer_cases) auto
          note u3 = read_n_unread [OF l]
          have "last = [hd last]" using u3(2) by (cases last) auto
          then have "unread t = hdr @ p @ [hd last] @ unread t3" using u1 u2 u3(1) by simp
          then show ?thesis
            using u1 u2 u3(3,4) ok(2) h n by (auto intro: same_sender_trans)
        qed
      qed
    qed
  qed
  then show "case r of
      Inl (e, b) \<Rightarrow> is_OSError e \<longrightarrow> unread t = b @ unread t'
    | Inr ((ft, ch, p), fe) \<Rightarrow> \<exists>hdr. unpack_header hdr = Inr (ft, ch, int (length p))
        \<and> unread t = hdr @ p @ [fe] @ unread t'"
    and "same_sender t t'" and "connected t' = connected t" by blast+
qed

text \<open>A frame off the stream.\<close>

lemma read_frame_takes_frame:
  assumes "read_frame t = (Inr (ft, ch, p), t')"
  shows "\<exists>d. pack_frame ft ch p = Inr d \<and> unread t = d @ unread t'"
    and "same_sender t t'" and "connected t' = connected t"
proof -
  obtain fe where fe: "read_frame_parts t = (Inr ((ft, ch, p), fe), t')" "fe = 206"
    using assms by (auto simp: read_frame_def split: prod.splits sum.splits if_splits)
  note u = read_frame_parts_unread [OF fe(1)]
  obtain hdr where "unpack_header hdr = Inr (ft, ch, int (length p))"
    "unread t = hdr @ p @ [fe] @ unread t'"
    using u(1) by auto
  then show "\<exists>d. pack_frame ft ch p = Inr d \<and> unread t = d @ unread t'"
    using unpack_header_pack [of hdr ft ch "int (length p)" p] fe(2) by (simp add: FRAME_END_def)
  show "same_sender t t'" "connected t' = connected t" using u(2,3) by blast+
qed

text \<open>Nothing is lost when a timeout interrupts it, at whatever byte.\<close>

lemma read_frame_restores:
  assumes "read_frame t = (Inl SocketTimeout, t')"
  shows "unread t' = unread t \<and> connected t' = connected t"
proof -
  obtain e b t1 where 1: "read_frame_parts t = (Inl (e, b), t1)"
    and f: "read_frame_failed e b t1 = (SocketTimeout, t')"
    using assms
    by (auto simp: read_frame_def raise_amqp_def split: prod.splits sum.splits if_splits)
  have e: "is_OSError e" "t' = t1\<lparr>read_buffer := b @ read_buffer t1\<rparr>"
    using f by (auto simp: read_frame_failed_def Let_def is_OSError_def split: if_splits exn.splits)
  show ?thesis
    using read_frame_parts_unread [OF 1] e by (simp add: unread_def)
qed

lemma read_frame_sender: "read_frame t = (r, t') \<Longrightarrow> same_sender t t'"
proof -
  assume rf: "read_frame t = (r, t')"
  obtain q t1 where q: "read_frame_parts t = (q, t1)" by (cases "read_frame_parts t")
  have "same_sender t1 (t1\<lparr>connected := c\<rparr>)" "same_sender t1 (t1\<lparr>read_buffer := b\<rparr>)" for c b
    by (simp_all add: same_sender_def sent_bytes_def timeout_of_def send_script_def
          clean_close_def)
  then have "same_sender t1 t'"
    using rf q
    by (auto simp: read_frame_def read_frame_failed_def Let_def split: sum.splits prod.splits if_splits)
  then show "same_sender t t'" using same_sender_trans read_frame_parts_unread(2) [OF q] by blast
qed

lemma read_n_steady':
  assumes "steady_transport t" and "unread t = xs @ rest" and "length xs = n"
  obtains t' where "read_n n ini t = (Inr xs, t')" and "steady_transport t'" and "unread t' = rest"
proof -
  obtain bs t' where r: "read_n n ini t = (Inr bs, t')" "steady_transport t'"
    using read_n_steady [OF assms(1), of n ini] assms by auto
  have "xs @ rest = bs @ unread t'" "length bs = n" using read_n_unread [OF r(1)] assms by auto
  then show thesis using that [of t'] r assms(3) by auto
qed

lemma read_payload_steady:
  assumes "steady_transport t" and "unread t = p @ rest"
  obtains t' where "read_payload hdr (length p) t = (Inr p, t')" and "steady_transport t'"
    and "unread t' = rest"
proof (cases "length p > SIGNED_INT_MAX")
  case False
  obtain t' where "read_n (length p) False t = (Inr p, t')" "steady_transport t'" "unread t' = rest"
    using read_n_steady' [OF assms refl] by blast
  then show thesis using that [of t'] False by (simp add: read_payload_def with_buffer_def)
next
  case True
  let ?p1 = "take SIGNED_INT_MAX p" and ?p2 = "drop SIGNED_INT_MAX p"
  have "unread t = ?p1 @ ?p2 @ rest" using assms(2) by simp
  then obtain t1 where 1: "read_n SIGNED_INT_MAX False t = (Inr ?p1, t1)" "steady_transport t1"
      "unread t1 = ?p2 @ rest"
    using read_n_steady' [OF assms(1)] True by (metis length_take min.absorb4)
  obtain t' where "read_n (length p - SIGNED_INT_MAX) False t1 = (Inr ?p2, t')" "steady_transport t'"
      "unread t' = rest"
    using read_n_steady' [OF 1(2,3)] by (metis length_drop)
  then show thesis using that [of t'] 1 True by (simp add: read_payload_def with_buffer_def bindA_def)
qed

text \<open>However the bytes of a frame are cut into packets, \<open>read_frame\<close> returns the frame.\<close>

lemma read_frame_steady:
  assumes st: "steady_transport t" and d: "pack_frame ft ch p = Inr d" and u: "unread t = d @ rest"
  obtains t' where "read_frame t = (Inr (ft, ch, p), t')" and "steady_transport t'"
    and "unread t' = rest"
proof -
  obtain hdr where hdr: "d = hdr @ p @ [FRAME_END]" "length hdr = 7"
    "unpack_header hdr = Inr (ft, ch, int (length p))"
    using pack_frame_header [OF d] by blast
  obtain t1 where 1: "read_n 7 True t = (Inr hdr, t1)" "steady_transport t1"
    "unread t1 = p @ FRAME_END # rest"
    using read_n_steady' [OF st, of hdr "p @ FRAME_END # rest" 7 True] u hdr by auto
  obtain t2 where 2: "read_payload hdr (length p) t1 = (Inr p, t2)" "steady_transport t2"
    "unread t2 = FRAME_END # rest"
    using read_payload_steady [OF 1(2,3)] by blast
  obtain t3 where 3: "read_n 1 False t2 = (Inr [FRAME_END], t3)" "steady_transport t3"
    "unread t3 = rest"
    using read_n_steady' [OF 2(2), of "[FRAME_END]" rest 1 False] 2(3) by auto
  have "read_frame_parts t = (Inr ((ft, ch, p), FRAME_END), t3)"
    by (simp add: read_frame_parts_def bindA_def with_buffer_def 1 2 3 [simplified] hdr)
  then show thesis using that [of t3] 3 by (simp add: read_frame_def FRAME_END_def)
qed

text \<open>The frames of a whole stream.\<close>

fun read_frames :: "nat \<Rightarrow> (tcp_transport, exn, frame list) act" where
  "read_frames 0 t = (Inr [], t)"
| "read_frames (Suc n) t =
     bindA read_frame (\<lambda>f. bindA (read_frames n) (\<lambda>fs. retA (f # fs))) t"

lemma read_frames_steady:
  assumes "steady_transport t" and "encode_frames fs = Inr out" and "unread t = out @ rest"
  shows "\<exists>t'. read_frames (length fs) t = (Inr fs, t') \<and> steady_transport t' \<and> unread t' = rest"
  using assms
proof (induction fs arbitrary: t out)
  case Nil
  then show ?case by simp
next
  case (Cons f fs)
  obtain ft ch p where f: "f = (ft, ch, p)" by (cases f)
  obtain d r where d: "pack_frame ft ch p = Inr d" and r: "encode_frames fs = Inr r"
    and out: "out = d @ r"
    using Cons.prems(2) f by auto
  obtain t1 where 1: "read_frame t = (Inr f, t1)" "steady_transport t1" "unread t1 = r @ rest"
    using read_frame_steady [OF Cons.prems(1) d, of "r @ rest"] Cons.prems(3) out f by auto
  obtain t2 where "read_frames (length fs) t1 = (Inr fs, t2)" "steady_transport t2" "unread t2 = rest"
    using Cons.IH [OF 1(2) r 1(3)] by blast
  then show ?case using 1(1) by (simp add: bindA_def)
qed

section \<open>Writing\<close>

lemma send_loop_sent:
  assumes "send_loop ssl s evs = (r, out, evs')"
  shows "\<exists>rest. s = out @ rest \<and> (r = Inr () \<longrightarrow> rest = [])"
  using assms
proof (induction ssl s evs arbitrary: r out evs' rule: send_loop.induct)
  case (1 ssl s)
  then show ?case by auto
next
  case (2 ssl s ev es)
  show ?case
  proof (cases "s = []")
    case True
    then show ?thesis using "2.prems" by simp
  next
    case False
    show ?thesis
    proof (cases ev)
      case (Send_fails e)
      then show ?thesis using "2.prems" False by (auto split: if_splits)
    next
      case (Takes k)
      show ?thesis
      proof (cases "k = 0")
        case True
        show ?thesis using "2.IH"(1) [OF False Takes True] "2.prems" False Takes True
          by (auto split: if_splits)
      next
        case k: False
        obtain q out' es' where q: "send_loop ssl (drop k s) es = (q, out', es')"
          by (cases "send_loop ssl (drop k s) es")
        obtain rest where "drop k s = out' @ rest" "q = Inr () \<longrightarrow> rest = []"
          using "2.IH"(2) [OF False Takes k q] by blast
        moreover have "r = q" "out = take k s @ out'" using "2.prems" False Takes k q by simp_all
        ultimately show ?thesis using append_take_drop_id [of k s] by (metis append.assoc)
      qed
    qed
  qed
qed

text \<open>A write that returns has sent all its bytes; one that raises, a prefix of them.\<close>

lemma write_bytes_sent:
  assumes "write_bytes d t = (r, t')"
  shows "\<exists>out rest. d = out @ rest \<and> sent_bytes t' = sent_bytes t @ out \<and> (r = Inr () \<longrightarrow> rest = [])"
    and "unread t' = unread t" and "(sock t' = None) = (sock t = None)"
    and "steady_transport t' = steady_transport t"
proof -
  have *: "(\<exists>out rest. d = out @ rest \<and> sent_bytes t' = sent_bytes t @ out \<and> (r = Inr () \<longrightarrow> rest = []))
    \<and> unread t' = unread t \<and> (sock t' = None) = (sock t = None) \<and> steady_transport t' = steady_transport t"
  proof (cases "sock t")
    case None
    then show ?thesis using assms
      by (auto simp: write_bytes_def write_raw_def sent_bytes_def unread_def steady_transport_def split: if_splits)
  next
    case (Some s)
    obtain q out es where q: "send_loop (is_ssl t) d (send_events s) = (q, out, es)"
      by (cases "send_loop (is_ssl t) d (send_events s)")
    obtain rest where "d = out @ rest" "q = Inr () \<longrightarrow> rest = []" using send_loop_sent [OF q] by blast
    moreover have "r = q" "sent_bytes t' = sent_bytes t @ out" "unread t' = unread t" "sock t' \<noteq> None"
      "steady_transport t' = steady_transport t"
      using assms q Some
      by (auto simp: write_bytes_def write_raw_def sent_bytes_def unread_def sock_data_def
          steady_transport_def split: sum.splits if_splits)
    ultimately show ?thesis
      using Some by (intro conjI exI [of _ out] exI [of _ rest]) simp_all
  qed
  then show "\<exists>out rest. d = out @ rest \<and> sent_bytes t' = sent_bytes t @ out \<and> (r = Inr () \<longrightarrow> rest = [])"
    and "unread t' = unread t" and "(sock t' = None) = (sock t = None)"
    and "steady_transport t' = steady_transport t" by blast+
qed

text \<open>A socket whose sends take everything.\<close>

definition writable :: "tcp_transport \<Rightarrow> bool" where
  "writable t \<longleftrightarrow> send_script t = Some []"

lemma write_bytes_writable:
  assumes "writable t"
  obtains t' where "write_bytes d t = (Inr (), t')" and "writable t'" and "unread t' = unread t"
    and "sent_bytes t' = sent_bytes t @ d" and "steady_transport t' = steady_transport t"
    and "connect_timeout t' = connect_timeout t" and "clean_close t' = clean_close t"
proof -
  obtain s where s: "sock t = Some s" "send_events s = []" using assms by (auto simp: writable_def send_script_def)
  show thesis
    by (rule that [of "t\<lparr>sock := Some (s\<lparr>outgoing := outgoing s @ d, send_events := []\<rparr>)\<rparr>"])
      (use s in \<open>simp_all add: write_bytes_def write_raw_def writable_def send_script_def unread_def
        sock_data_def sent_bytes_def steady_transport_def clean_close_def only_OSErrors_def\<close>)
qed

interpretation tx: byte_sink write_bytes sent_bytes
  by unfold_locales (use write_bytes_sent(1) in fastforce)

section \<open>Timeouts, closing\<close>

text \<open>The timeout of the socket is the same after the block, if the body leaves it alone.\<close>

lemma having_timeout_restores:
  assumes "having_timeout (\<lambda>t. t) (\<lambda>f. f) tmo m t = (r, t')"
    and "\<And>t r t'. m t = (r, t') \<Longrightarrow> timeout_of t' = timeout_of t"
  shows "timeout_of t' = timeout_of t"
proof (cases tmo)
  case None
  then show ?thesis using assms by (auto simp: having_timeout_def)
next
  case (Some x)
  show ?thesis
  proof (cases "sock t")
    case None
    then show ?thesis using assms(1) Some by (simp add: having_timeout_def)
  next
    case s: (Some s)
    show ?thesis
    proof (cases "sock_timeout s = tmo")
      case True
      then show ?thesis
        using assms Some s by (auto simp: having_timeout_def Let_def split: prod.splits)
    next
      case False
      obtain q t2 where q: "m (set_timeout tmo t) = (q, t2)" by (cases "m (set_timeout tmo t)")
      have "sock t2 \<noteq> None"
        using assms(2) [OF q] s by (auto simp: timeout_of_def set_timeout_def)
      then show ?thesis
        using assms(1) Some s False q
        by (auto simp: having_timeout_def Let_def timeout_of_def set_timeout_def split: if_splits)
    qed
  qed
qed

lemma close_closes:
  assumes "close t = (Inr (), t')" shows "sock t' = None \<and> connected t' = False"
  using assms by (auto simp: close_def elim!: bindA_cases split: option.splits if_splits)

lemma ignore_OSError_OK:
  "(\<And>e. err = Some e \<Longrightarrow> is_OSError (io_exn e)) \<Longrightarrow> ignore_OSError err s = (Inr (), s)"
  by (simp add: ignore_OSError_def split: option.split)

lemma close_returns:
  assumes "\<And>s. sock t = Some s \<Longrightarrow> only_OSErrors s"
  shows "close t = (Inr (), t\<lparr>sock := None, connected := False\<rparr>)"
proof (cases "sock t")
  case None
  then have "t\<lparr>connected := False\<rparr> = t\<lparr>sock := None, connected := False\<rparr>" by simp
  then show ?thesis using None by (simp add: close_def bindA_def)
next
  case (Some s)
  have "ignore_OSError (unwrap_error s) x = (Inr (), x)"
    "ignore_OSError (shutdown_error s) x = (Inr (), x)" "ignore_OSError (close_error s) x = (Inr (), x)"
    for x :: tcp_transport
    using assms [OF Some] by (auto simp: only_OSErrors_def intro!: ignore_OSError_OK)
  then show ?thesis using Some by (simp add: close_def bindA_def)
qed

section \<open>Addresses\<close>

lemma to_host_port_ipv6:
  assumes "h \<noteq> []" and "\<forall>c \<in> set h. is_ipv6_char c" and "ds \<noteq> []" and "\<forall>c \<in> set ds. is_digit c"
    and "parse_int ds = Some p"
  shows "to_host_port (91 # h @ [93, 58] @ ds) dflt = Inr (h, p)"
proof -
  have no: "\<not> is_ipv6_char 93" by (simp add: is_ipv6_char_def is_digit_def)
  have tw: "takeWhile is_digit ds = ds" using assms(4) by (simp add: takeWhile_eq_all_conv)
  show ?thesis
    using assms no
    by (simp add: tw to_host_port_def ipv6_match_def Let_def takeWhile_append2 dropWhile_append2)
qed

lemma to_host_port_name:
  assumes "\<forall>c cs. h = c # cs \<longrightarrow> c \<noteq> 91" and "58 \<notin> set ds" and "parse_int ds = Some p"
  shows "to_host_port (h @ 58 # ds) dflt = Inr (h, p)"
proof -
  have "ipv6_match (h @ 58 # ds) = None"
    using assms(1) by (cases h) (simp_all add: ipv6_match_def Let_def)
  moreover have "takeWhile (\<lambda>c. c \<noteq> 58) (rev ds @ 58 # rev h) = rev ds"
    "dropWhile (\<lambda>c. c \<noteq> 58) (rev ds @ 58 # rev h) = 58 # rev h"
    using assms(2) until_separator [of 58 "rev ds" "rev h"] by auto
  ultimately show ?thesis
    using assms(3) by (simp add: to_host_port_def rsplit_colon_def)
qed

lemma to_host_port_plain:
  assumes "58 \<notin> set h" and "\<forall>c cs. h = c # cs \<longrightarrow> c \<noteq> 91"
  shows "to_host_port h dflt = Inr (h, dflt)"
proof -
  have "ipv6_match h = None" using assms(2) by (cases h) (simp_all add: ipv6_match_def Let_def)
  then show ?thesis using assms(1) by (simp add: to_host_port_def)
qed

section \<open>Socket options\<close>

text \<open>The option number of a name: \<open>TCP_USER_TIMEOUT\<close> is 18 where the module lacks it.\<close>

definition option_number :: "(string \<Rightarrow> int option) \<Rightarrow> string \<Rightarrow> int option" where
  "option_number consts opt =
    (if opt = ''TCP_USER_TIMEOUT'' then Some (arg_or 18 (consts opt)) else consts opt)"

lemma socket_defaults_known:
  assumes "k \<in> dom (map_of (socket_defaults consts getopt known opts))"
  shows "k \<in> dom (map_of opts) \<or> (\<exists>opt \<in> set known. option_number consts opt = Some k)"
  using assms
proof (induction known arbitrary: opts)
  case (Cons opt known)
  let ?enum = "if opt = ''TCP_USER_TIMEOUT''
             then Some (case consts opt of Some n \<Rightarrow> n | None \<Rightarrow> 18) else consts opt"
  have num: "option_number consts opt = ?enum" by (simp add: option_number_def arg_or_def split: option.split)
  let ?opts = "(case ?enum of
         None \<Rightarrow> opts
       | Some enum \<Rightarrow>
           if enum = 0 then opts
           else case map_of DEFAULT_SOCKET_SETTINGS opt of
             Some v \<Rightarrow> AList.update enum v opts
           | None \<Rightarrow> (case consts opt of
               Some c \<Rightarrow> AList.update enum (getopt c) opts
             | None \<Rightarrow> opts))"
  have step: "dom (map_of ?opts) \<subseteq> dom (map_of opts) \<union> {k. ?enum = Some k}"
    by (auto simp: AList.update_conv' split: option.splits if_splits)
  have "k \<in> dom (map_of (socket_defaults consts getopt known ?opts))"
    using Cons.prems by (simp only: socket_defaults.simps)
  from Cons.IH [OF this] step show ?case using num by auto
qed simp

lemma tcp_options_of:
  assumes "distinct (map fst settings)"
  shows "map_of (tcp_options consts getopt known settings) k = (case map_of settings k of
      Some v \<Rightarrow> Some v | None \<Rightarrow> map_of (socket_defaults consts getopt known []) k)"
  using map_of_fold_update [OF assms] by (simp add: tcp_options_def)

end
