(* ===== verification/Sasl.thy ===== *)
theory Sasl
  imports Transport_Facts
begin

text \<open>
  sasl.py: the authentication mechanisms and their first response. The \<open>gssapi\<close> package is
  not part of the source: what \<open>GSSAPI\<close> asks of it and of name resolution are parameters, and
  without it the module defines the no-op \<open>FakeGSSAPI\<close>. A mechanism whose response comes from
  elsewhere (GSSAPI, or a subclass of the application) is \<open>Custom\<close>, with its response as a value.
\<close>

datatype sasl =
    PLAIN "pystr option" "pystr option"
  | AMQPLAIN "pystr option" "pystr option"
  | FakeGSSAPI
  | EXTERNAL
  | RAW bytes bytes
  | Custom "bytes option" "nat + bytes option"

definition mechanism :: "sasl \<Rightarrow> bytes option" where
  "mechanism a = (case a of
     PLAIN _ _ \<Rightarrow> Some (pyb ''PLAIN'')
   | AMQPLAIN _ _ \<Rightarrow> Some (pyb ''AMQPLAIN'')
   | FakeGSSAPI \<Rightarrow> None
   | EXTERNAL \<Rightarrow> Some (pyb ''EXTERNAL'')
   | RAW m _ \<Rightarrow> Some m
   | Custom m _ \<Rightarrow> m)"

text \<open>\<open>start\<close>: the response, or \<open>None\<close> for \<open>NotImplemented\<close>.\<close>

definition encode_utf8 :: "pystr \<Rightarrow> exn + bytes" where
  "encode_utf8 s = get_or UnicodeEncodeError (utf8_encode_strict s)"

definition plain_start :: "pystr option \<Rightarrow> pystr option \<Rightarrow> exn + bytes option" where
  "plain_start username password = (case (username, password) of
     (Some u, Some p) \<Rightarrow>
       bindE (encode_utf8 u) (\<lambda>ub. bindE (encode_utf8 p) (\<lambda>pb.
         Inr (Some ([0] @ ub @ [0] @ pb))))
   | _ \<Rightarrow> Inr None)"

definition amqplain_start :: "pystr option \<Rightarrow> pystr option \<Rightarrow> exn + bytes option" where
  "amqplain_start username password = (case (username, password) of
     (Some u, Some p) \<Rightarrow>
       bindE (write_table [(KBytes (pyb ''LOGIN''), VStr u), (KBytes (pyb ''PASSWORD''), VStr p)])
         (\<lambda>t. Inr (Some (drop 4 t)))
   | _ \<Rightarrow> Inr None)"

definition sasl_start :: "sasl \<Rightarrow> exn + bytes option" where
  "sasl_start a = (case a of
     PLAIN u p \<Rightarrow> plain_start u p
   | AMQPLAIN u p \<Rightarrow> amqplain_start u p
   | FakeGSSAPI \<Rightarrow> Inr None
   | EXTERNAL \<Rightarrow> Inr (Some [])
   | RAW _ r \<Rightarrow> Inr (Some r)
   | Custom _ r \<Rightarrow> (case r of Inl k \<Rightarrow> Inl (UserExn k) | Inr resp \<Rightarrow> Inr resp))"

text \<open>\<open>FakeGSSAPI(client_name, fail_soft)\<close> and the choice \<open>Connection.__init__\<close> makes.\<close>

definition fake_gssapi_init :: "bool \<Rightarrow> exn + sasl" where
  "fake_gssapi_init fail_soft = (if fail_soft then Inr FakeGSSAPI else Inl NotImplementedExn)"

text \<open>
  \<open>Connection.__init__\<close>: the mechanisms of the client, in the order it tries them. The arguments
  \<open>login_method\<close> and \<open>login_response\<close> may be of any type; \<open>RAW\<close> asserts that they are bytes.
\<close>

definition raw_init :: "pyval \<Rightarrow> pyval \<Rightarrow> exn + sasl" where
  "raw_init mech response = (case (mech, response) of
     (VBytes m, VBytes r) \<Rightarrow> Inr (RAW m r) | _ \<Rightarrow> Inl AssertionExn)"

definition choose_authentication :: "sasl list \<Rightarrow> pyval \<Rightarrow> pyval
    \<Rightarrow> pystr option \<Rightarrow> pystr option \<Rightarrow> exn + sasl list" where
  "choose_authentication authentication login_method login_response userid password =
    (if authentication \<noteq> [] then Inr authentication
     else if login_method = VNone then
       bindE (fake_gssapi_init True) (\<lambda>g.
         Inr [g, EXTERNAL, AMQPLAIN userid password, PLAIN userid password])
     else if login_method = VStr (pys ''GSSAPI'') then
       bindE (fake_gssapi_init False) (\<lambda>g. Inr [g])
     else if login_method = VStr (pys ''EXTERNAL'') then Inr [EXTERNAL]
     else if login_method = VStr (pys ''AMQPLAIN'') then
       (if userid = None \<or> password = None then Inl ValueError else Inr [AMQPLAIN userid password])
     else if login_method = VStr (pys ''PLAIN'') then
       (if userid = None \<or> password = None then Inl ValueError else Inr [PLAIN userid password])
     else if login_response \<noteq> VNone then
       bindE (raw_init login_method login_response) (\<lambda>a. Inr [a])
     else Inl ValueError)"

section \<open>GSSAPI\<close>

text \<open>What calls of the package raise: its own \<open>GSSError\<close>, or another exception.\<close>

datatype gss_exn = GSSError nat | Other_exn exn

text \<open>
  The package (\<open>Credentials\<close> of a client name, the first step of a context for a service name),
  and the host the client is connected to: \<open>inet\<close> says that the socket has an address of
  IPv4 or IPv6, \<open>resolved\<close> is what \<open>gethostbyaddr\<close> makes of its peer.
\<close>

record gss =
  credentials :: "bytes \<Rightarrow> gss_exn + nat"
  first_step :: "bytes \<Rightarrow> nat option \<Rightarrow> gss_exn + bytes"
  inet :: bool
  resolved :: "exn + pystr"
  host_name :: pystr

definition encode_ascii :: "pystr \<Rightarrow> exn + bytes" where
  "encode_ascii s = (if \<forall>c \<in> set s. c < 128 then Inr (map word_of_nat s) else Inl UnicodeEncodeError)"

text \<open>\<open>GSSAPI.__init__\<close>: the client name as bytes; an empty one stays as it is.\<close>

definition gssapi_client_name :: "pystr option \<Rightarrow> exn + bytes option" where
  "gssapi_client_name name = (case name of
     None \<Rightarrow> Inr None
   | Some n \<Rightarrow> if n = [] then Inr None else bindE (encode_ascii n) (\<lambda>b. Inr (Some b)))"

definition get_hostname :: "gss \<Rightarrow> bool \<Rightarrow> exn + bytes" where
  "get_hostname G rdns =
     bindE (if rdns \<and> inet G then resolved G else Inr (host_name G)) encode_ascii"

definition gssapi_start :: "gss \<Rightarrow> bytes option \<Rightarrow> bytes \<Rightarrow> bool \<Rightarrow> bool \<Rightarrow> exn + bytes option" where
  "gssapi_start G client_name service rdns fail_soft =
    (case bindE (case client_name of
              None \<Rightarrow> Inr None | Some n \<Rightarrow> bindE (credentials G n) (\<lambda>c. Inr (Some c))) (\<lambda>creds.
          bindE (case get_hostname G rdns of Inl e \<Rightarrow> Inl (Other_exn e) | Inr h \<Rightarrow> Inr h) (\<lambda>hostname.
          first_step G (service @ [64] @ hostname) creds)) of
       Inr token \<Rightarrow> Inr (Some token)
     | Inl (GSSError k) \<Rightarrow> if fail_soft then Inr None else Inl (UserExn k)
     | Inl (Other_exn e) \<Rightarrow> Inl e)"

text \<open>A soft failure of the package, and only that, makes the client try the next mechanism.\<close>

lemma gssapi_declines:
  assumes "gssapi_start G name service rdns fail_soft = Inr None" shows "fail_soft"
  using assms by (auto simp: gssapi_start_def split: sum.splits gss_exn.splits if_splits)

section \<open>What a server reads back\<close>

text \<open>RFC 4616: an authorisation identity, NUL, the user, NUL, the password.\<close>

definition plain_parse :: "bytes \<Rightarrow> bytes \<times> bytes \<times> bytes" where
  "plain_parse r =
    (let r1 = drop 1 (dropWhile (\<lambda>b. b \<noteq> 0) r)
     in (takeWhile (\<lambda>b. b \<noteq> 0) r, takeWhile (\<lambda>b. b \<noteq> 0) r1, drop 1 (dropWhile (\<lambda>b. b \<noteq> 0) r1)))"

lemma enc_cp_nonzero:
  assumes "c \<noteq> 0" and "c < 0x110000" shows "(0 :: byte) \<notin> word_of_nat ` set (enc_cp c)"
proof
  assume "(0 :: byte) \<in> word_of_nat ` set (enc_cp c)"
  then obtain b where b: "b \<in> set (enc_cp c)" "word_of_nat b = (0 :: byte)" by auto
  have "b < 256" using enc_cp_byte [OF assms(2) b(1)] .
  then have "b = 0" using arg_cong [OF b(2), of unat] by (simp add: unsigned_of_nat take_bit_eq_mod)
  then show False using b(1) assms(1) by (auto simp: enc_cp_def split: if_splits)
qed

lemma utf8_encode_nonzero:
  assumes "0 \<notin> set s" and "valid_str s" shows "0 \<notin> set (utf8_encode s)"
proof
  assume "0 \<in> set (utf8_encode s)"
  then obtain c where c: "c \<in> set s" "(0 :: byte) \<in> word_of_nat ` set (enc_cp c)"
    by (auto simp: utf8_encode_def)
  have "c \<noteq> 0" "c < 0x110000" using assms c(1) by (auto simp: valid_str_def intro: gr0I)
  then show False using enc_cp_nonzero c(2) by blast
qed

lemma plain_start_parses:
  assumes "plain_start (Some u) (Some p) = Inr (Some r)" and "0 \<notin> set u" and "valid_str u"
    and "valid_str p"
  shows "\<exists>ub pb. plain_parse r = ([], ub, pb) \<and> utf8_decode ub = Some u \<and> utf8_decode pb = Some p"
proof -
  have r: "r = [0] @ utf8_encode u @ [0] @ utf8_encode p"
    using assms(1)
    by (auto simp: plain_start_def encode_utf8_def utf8_encode_strict_def bindE_eq_Inr split: if_splits)
  have "0 \<notin> set (utf8_encode u)" using utf8_encode_nonzero assms by blast
  from until_separator [OF this] show ?thesis using assms by (simp add: r plain_parse_def)
qed

lemma amqplain_start_reads:
  assumes "amqplain_start (Some u) (Some p) = Inr (Some r)" and "valid_str u" and "valid_str p"
  shows "\<exists>l. pack_u 4 (int (length r)) = Some l \<and> read_table (l @ r) 0
    = Inr (VDict [(KStr (pys ''LOGIN''), VStr u), (KStr (pys ''PASSWORD''), VStr p)], 4 + length r)"
proof -
  let ?d = "[(KBytes (pyb ''LOGIN''), VStr u), (KBytes (pyb ''PASSWORD''), VStr p)]"
  obtain t where t: "write_table ?d = Inr t" and r: "r = drop 4 t"
    using assms(1) by (auto simp: amqplain_start_def bindE_eq_Inr)
  obtain data l where l: "pack_u 4 (int (length data)) = Some l" and td: "t = l @ data"
    using t by (auto simp: write_table_Inr)
  have len: "length l = 4" using l by (auto dest: pack_u_SomeD)
  have dec: "utf8_decode (pyb ''LOGIN'') = Some (pys ''LOGIN'')"
    "utf8_decode (pyb ''PASSWORD'') = Some (pys ''PASSWORD'')"
    by code_simp+
  have "read_table ([] @ t @ []) (length ([] :: bytes))
    = Inr (VDict (canon_entries ?d []), length ([] :: bytes) + length t)"
    by (rule read_written_table [OF t]) (use assms dec in \<open>simp add: readable_key_def\<close>)
  moreover have "canon_entries ?d [] = [(KStr (pys ''LOGIN''), VStr u), (KStr (pys ''PASSWORD''), VStr p)]"
    by (simp add: canon_key_def dec dict_set_def) (simp add: pys_def)
  ultimately show ?thesis using l td r len by simp
qed

end
