(* ===== verification/World.thy ===== *)
theory World
  imports Sasl
begin

text \<open>
  The objects of a running client: the connection, its channels, the waiters of blocked
  calls, and what they share (transport, frame writer, frame handler). Objects have
  references (0 is the connection, which is its own channel 0). Also here: releasing a channel
  and a connection (\<open>collect\<close>), channel ids, \<open>Connection.connect\<close> and the three properties
  that connect on demand.
\<close>

section \<open>State\<close>

text \<open>Arguments of handlers and callbacks: wire values, a content, or an exception.\<close>

datatype marg = AV pyval | AM "message option" | AE exn

text \<open>
  The one-shot waiter \<open>wait\<close> creates: what calling it does first, and, once it was called, its
  value (the arguments without the method).
\<close>

datatype wait_callback = No_callback | Confirm_handler | User_callback nat

record waiter =
  on_call :: wait_callback
  result_args :: "marg list option"

record chan =
  is_closing :: bool
  conn_ref :: bool
  channel_id :: "int option"
  auto_decode :: bool
  pending :: "(method_sig \<times> nat) list"
  is_open :: bool
  active :: pyval
  callbacks :: "(pystr \<times> nat option) list"
  cancel_callbacks :: "(pystr \<times> nat) list"
  events :: "(string \<times> nat list) list"
  no_ack_consumers :: "pystr list"
  on_open :: "nat option"
  confirm_selected :: bool
  publish_confirms :: bool

text \<open>
  \<open>conn_ref\<close>: the object's \<open>connection\<close> attribute is set. \<open>channels\<close>: the connection's table,
  \<open>None\<close> after \<open>collect\<close>. \<open>dial\<close> scripts what successive attempts to connect meet, \<open>clock\<close> the
  readings of \<open>monotonic()\<close>; \<open>log\<close> is the list of application callbacks called.
\<close>

record world =
  objects :: "nat \<Rightarrow> chan"
  next_ref :: nat
  waiters :: "nat \<Rightarrow> waiter"
  next_waiter :: nat
  channels :: "(int \<times> nat) list option"
  used_channel_ids :: "int list"
  channel_max :: int
  fw :: "tcp_transport frame_writer"
  fh :: frame_handler
  has_transport :: bool
  has_frame_writer :: bool
  has_inbound :: bool
  handshake_complete :: bool
  fresh_transport :: "tcp_transport option"
  dial :: "(io_error + (io_error + socket) list) list"
  authentication :: "sasl list"
  client_properties :: "(pykey \<times> pyval) list"
  server_properties :: pyval
  server_version :: "pyval \<times> pyval"
  mechanisms :: "bytes list"
  locales :: "pystr list"
  locale_name :: pystr
  virtual_host :: pystr
  confirm_publish :: bool
  on_blocked :: "nat option"
  on_unblocked :: "nat option"
  client_heartbeat :: int
  server_heartbeat :: int
  heartbeat :: int
  prev_sent :: "nat option"
  prev_recv :: "nat option"
  last_heartbeat_sent :: rat
  last_heartbeat_received :: rat
  clock :: "rat list"
  log :: "(nat \<times> marg list) list"

text \<open>
  What the program gets from elsewhere: the codec registry, the application's callbacks, the
  \<open>socket\<close> and \<open>ssl\<close> modules, and the capabilities to negotiate (a class attribute).
\<close>

record env =
  codecs :: codecs
  decoders :: "pystr \<Rightarrow> bytes \<Rightarrow> exn + pystr"
  app :: "nat \<Rightarrow> marg list \<Rightarrow> (world, exn, unit) act"
  net_of :: net
  negotiate_capabilities :: "(pystr \<times> bool) list"

type_synonym 'a wact = "(world, exn, 'a) act"

text \<open>
  \<open>drain_events(timeout)\<close>, on which everything that blocks rests, together with the fuel of
  the loops around it.
\<close>

type_synonym drainer = "nat \<times> (rat option \<Rightarrow> unit wact)"

definition upd_obj :: "nat \<Rightarrow> (chan \<Rightarrow> chan) \<Rightarrow> world \<Rightarrow> world" where
  "upd_obj r f w = w\<lparr>objects := (objects w)(r := f (objects w r))\<rparr>"

definition call_app :: "env \<Rightarrow> nat \<Rightarrow> marg list \<Rightarrow> unit wact" where
  "call_app E cb args = bindA (modA (\<lambda>w. w\<lparr>log := log w @ [(cb, args)]\<rparr>)) (\<lambda>_. app E cb args)"

definition call_app_opt :: "env \<Rightarrow> nat option \<Rightarrow> marg list \<Rightarrow> unit wact" where
  "call_app_opt E cb args = (case cb of None \<Rightarrow> retA () | Some c \<Rightarrow> call_app E c args)"

definition recoverable :: exn where
  "recoverable = raise_amqp RecoverableConnectionError ''connection already closed''"

section \<open>Channel ids\<close>

text \<open>\<open>array('H').append(i)\<close>.\<close>

definition append_id :: "int \<Rightarrow> int wact" where
  "append_id i w = (if 0 \<le> i \<and> i \<le> 65535
     then (Inr i, w\<lparr>used_channel_ids := used_channel_ids w @ [i]\<rparr>)
     else (Inl OverflowError, w))"

fun first_free :: "int list \<Rightarrow> int list \<Rightarrow> int option" where
  "first_free used [] = None"
| "first_free used (i # is) = (if i \<notin> set used then Some i else first_free used is)"

definition get_free_channel_id :: "int wact" where
  "get_free_channel_id w =
    (case first_free (used_channel_ids w) [1..channel_max w] of
       Some i \<Rightarrow> append_id i w
     | None \<Rightarrow> (Inl (Amqp (amqp_error_init ResourceError
         (Some (pys ''No free channel ids, current={}, channel_max={}'')) (Some Channel_Open)
         None None)), w))"

definition claim_channel_id :: "int \<Rightarrow> int wact" where
  "claim_channel_id i w =
    (if i \<in> set (used_channel_ids w)
     then (Inl (raise_amqp ConnectionError ''Channel {!r} already open''), w)
     else append_id i w)"

section \<open>Releasing objects\<close>

text \<open>\<open>Channel.collect\<close>.\<close>

definition channel_collect :: "nat \<Rightarrow> world \<Rightarrow> world" where
  "channel_collect r w =
    (let c = objects w r;
         w1 = upd_obj r (\<lambda>c. c\<lparr>is_open := False, channel_id := None, conn_ref := False,
                callbacks := [], cancel_callbacks := [], events := [], no_ack_consumers := []\<rparr>) w
     in if conn_ref c then
          (case channel_id c of
             None \<Rightarrow> w1
           | Some i \<Rightarrow> w1\<lparr>channels := map_option (AList.delete i) (channels w),
                          used_channel_ids := remove1 i (used_channel_ids w)\<rparr>)
        else w1)"

definition on_transport :: "(tcp_transport, exn, 'a) act \<Rightarrow> 'a wact" where
  "on_transport m w = (case m (transport (fw w)) of
     (r, t) \<Rightarrow> (r, w\<lparr>fw := (fw w)\<lparr>transport := t\<rparr>\<rparr>))"

definition upd_transport :: "(tcp_transport \<Rightarrow> tcp_transport) \<Rightarrow> world \<Rightarrow> world" where
  "upd_transport f w = w\<lparr>fw := (fw w)\<lparr>transport := f (transport (fw w))\<rparr>\<rparr>"

text \<open>\<open>Connection.collect\<close>: close the transport, collect every other channel, forget all.\<close>

definition connection_collect :: "unit wact" where
  "connection_collect =
     bindA (getA has_transport) (\<lambda>ht.
     bindA (if ht then on_transport close else retA ()) (\<lambda>_.
     modA (\<lambda>w.
       (let w1 = (case channels w of
              None \<Rightarrow> w
            | Some tbl \<Rightarrow> fold channel_collect (filter (\<lambda>r. r \<noteq> 0) (map snd tbl)) w)
        in (upd_obj 0 (\<lambda>c. c\<lparr>conn_ref := False\<rparr>) w1)\<lparr>has_transport := False, channels := None\<rparr>))))"

section \<open>Connecting\<close>

definition conn_connected :: "world \<Rightarrow> bool" where
  "conn_connected w \<longleftrightarrow> has_transport w \<and> connected (transport (fw w))"

text \<open>\<open>while not self._handshake_complete: self.drain_events(timeout=self.connect_timeout)\<close>.\<close>

fun handshake_loop :: "nat \<Rightarrow> (rat option \<Rightarrow> unit wact) \<Rightarrow> unit wact" where
  "handshake_loop 0 drain w = (if handshake_complete w then (Inr (), w) else (Inl OutOfFuel, w))"
| "handshake_loop (Suc n) drain w =
    (if handshake_complete w then (Inr (), w)
     else bindA (drain (connect_timeout (transport (fw w)))) (\<lambda>_. handshake_loop n drain) w)"

definition next_dial :: "(io_error + (io_error + socket) list) wact" where
  "next_dial w = (case dial w of
     [] \<Rightarrow> (Inl Waiting, w) | d # ds \<Rightarrow> (Inr d, w\<lparr>dial := ds\<rparr>))"

text \<open>
  \<open>self.transport = self.Transport(...)\<close>, which raises ValueError for a bad port
  (\<open>fresh_transport\<close> is then \<open>None\<close>), and the two closures.
\<close>

definition new_transport :: "unit wact" where
  "new_transport =
     bindA (getA fresh_transport) (\<lambda>ft. bindA (liftA (get_or ValueError ft)) (\<lambda>t.
       modA (\<lambda>w. w\<lparr>fw := (fw w)\<lparr>transport := t\<rparr>, has_transport := True\<rparr>)))"

definition new_closures :: "unit wact" where
  "new_closures =
     bindA (modA (\<lambda>w. w\<lparr>fh := frame_handler_init (bytes_recv (fh w)), has_inbound := True\<rparr>)) (\<lambda>_.
     bindA (getA (\<lambda>w. frame_writer_init (frame_max (fw w)) (bytes_sent (fw w)) (transport (fw w)))) (\<lambda>r.
     bindA (liftA r) (\<lambda>f. modA (\<lambda>w. w\<lparr>fw := f, has_frame_writer := True\<rparr>))))"

definition dial_up :: "env \<Rightarrow> unit wact" where
  "dial_up E =
     bindA new_transport (\<lambda>_.
     bindA next_dial (\<lambda>addrs.
     on_transport (connect addrs (net_of E))))"

definition connect_body :: "env \<Rightarrow> drainer \<Rightarrow> unit wact" where
  "connect_body E dr =
     bindA (dial_up E) (\<lambda>_.
     bindA new_closures (\<lambda>_. handshake_loop (fst dr) (snd dr)))"

definition connection_connect :: "env \<Rightarrow> drainer \<Rightarrow> unit wact" where
  "connection_connect E dr w =
    (if conn_connected w then (Inr (), w)
     else catchA (connect_body E dr)
       (\<lambda>e. if is_OSError e then bindA connection_collect (\<lambda>_. raiseA e) else raiseA e) w)"

text \<open>The properties \<open>transport\<close>, \<open>frame_writer\<close> and \<open>on_inbound_frame\<close>.\<close>

definition force_connect :: "env \<Rightarrow> drainer \<Rightarrow> (world \<Rightarrow> bool) \<Rightarrow> unit wact" where
  "force_connect E dr avail w =
    (if avail w then (Inr (), w) else connection_connect E dr w)"

text \<open>A property whose value is still \<open>None\<close> afterwards fails on the first use of it.\<close>

definition need :: "env \<Rightarrow> drainer \<Rightarrow> (world \<Rightarrow> bool) \<Rightarrow> unit wact" where
  "need E dr avail =
     bindA (force_connect E dr avail) (\<lambda>_.
     bindA (getA avail) (\<lambda>p. if p then retA () else raiseA AttributeError))"

end
