(* ===== verification/Abstract_Channel.thy ===== *)
theory Abstract_Channel
  imports World
begin

text \<open>
  abstract_channel.py: what the connection and its channels share. \<open>send_method\<close> writes a
  method and may wait for the answer; \<open>wait\<close> registers a waiter and drains events until it is
  called; \<open>dispatch_method\<close> hands an inbound method to the listener and to the waiter.
\<close>

section \<open>Results\<close>

text \<open>
  What an operation returns: a promise of no further use, nothing, the tuple of the answer's
  arguments, or the first of them.
\<close>

datatype result = RPromise | RNone | RTuple "marg list" | ROne marg | RRef nat

definition shape_result :: "bool \<Rightarrow> marg list \<Rightarrow> result" where
  "shape_result returns_tuple args =
     (if returns_tuple then RTuple args else case args of [] \<Rightarrow> RTuple [] | a # _ \<Rightarrow> ROne a)"

section \<open>wait\<close>

text \<open>\<open>for m in method: prev_p.append(pending.get(m)); pending[m] = p\<close>, and the \<open>finally\<close> clause.\<close>

fun install :: "nat \<Rightarrow> method_sig list \<Rightarrow> (method_sig \<times> nat) list
    \<Rightarrow> nat option list \<times> (method_sig \<times> nat) list" where
  "install p [] pend = ([], pend)"
| "install p (m # ms) pend =
     (let (prevs, pend') = install p ms (AList.update m p pend) in (map_of pend m # prevs, pend'))"

fun restore :: "method_sig list \<Rightarrow> nat option list \<Rightarrow> (method_sig \<times> nat) list
    \<Rightarrow> (method_sig \<times> nat) list" where
  "restore (m # ms) (Some q # prevs) pend = restore ms prevs (AList.update m q pend)"
| "restore (m # ms) (None # prevs) pend = restore ms prevs (AList.delete m pend)"
| "restore _ _ pend = pend"

definition new_waiter :: "wait_callback \<Rightarrow> nat wact" where
  "new_waiter cb w = (Inr (next_waiter w),
     w\<lparr>waiters := (waiters w)(next_waiter w := \<lparr>on_call = cb, result_args = None\<rparr>),
       next_waiter := next_waiter w + 1\<rparr>)"

text \<open>\<open>while not p.ready: ...\<close>; the fuel bounds the number of turns.\<close>

fun wait_loop :: "nat \<Rightarrow> (rat option \<Rightarrow> unit wact) \<Rightarrow> nat \<Rightarrow> nat \<Rightarrow> rat option \<Rightarrow> marg list wact" where
  "wait_loop n drain r p tmo w = (case result_args (waiters w p) of
     Some args \<Rightarrow> (Inr args, w)
   | None \<Rightarrow>
      if \<not> conn_ref (objects w r) then (Inl recoverable, w)
      else (case n of
        0 \<Rightarrow> (Inl OutOfFuel, w)
      | Suc k \<Rightarrow> bindA (drain tmo) (\<lambda>_. wait_loop k drain r p tmo) w))"

declare wait_loop.simps [simp del]

definition wait :: "drainer \<Rightarrow> nat \<Rightarrow> method_sig list \<Rightarrow> wait_callback \<Rightarrow> rat option \<Rightarrow> bool
    \<Rightarrow> result wact" where
  "wait dr r methods cb tmo returns_tuple =
     bindA (new_waiter cb) (\<lambda>p.
     bindA (getA (\<lambda>w. install p methods (pending (objects w r)))) (\<lambda>(prevs, pend).
     bindA (modA (upd_obj r (\<lambda>c. c\<lparr>pending := pend\<rparr>))) (\<lambda>_.
     finallyA
       (bindA (wait_loop (fst dr) (snd dr) r p tmo) (\<lambda>args. retA (shape_result returns_tuple args)))
       (upd_obj r (\<lambda>c. c\<lparr>pending := restore methods prevs (pending c)\<rparr>)))))"

section \<open>send_method\<close>

text \<open>\<open>conn.frame_writer(1, self.channel_id, sig, args, content)\<close>.\<close>

definition write_method :: "env \<Rightarrow> drainer \<Rightarrow> nat \<Rightarrow> method_sig \<Rightarrow> pyval \<Rightarrow> message option
    \<Rightarrow> unit wact" where
  "write_method E dr r sig args content =
     bindA (need E dr has_frame_writer) (\<lambda>_ w. case channel_id (objects w r) of
       None \<Rightarrow> (Inl StructError, w)
     | Some ch \<Rightarrow>
         (case write_frame (codecs E) write_bytes 1 ch (Some sig) args content (fw w) of
            (q, f, _) \<Rightarrow> (q, w\<lparr>fw := f\<rparr>)))"

definition send_method :: "env \<Rightarrow> drainer \<Rightarrow> nat \<Rightarrow> method_sig \<Rightarrow> string \<Rightarrow> pyval list
    \<Rightarrow> message option \<Rightarrow> unit wact \<Rightarrow> unit wact" where
  "send_method E dr r sig fmt args content callback w =
    (if \<not> conn_ref (objects w r) then (Inl recoverable, w)
     else bindA (liftA (if fmt = [] then Inr (VStr []) else bindE (dumps fmt args) (\<lambda>b. Inr (VBytes b))))
       (\<lambda>a. bindA (write_method E dr r sig a content) (\<lambda>_. callback)) w)"

text \<open>\<open>send_method\<close> with its \<open>wait\<close> and \<open>returns_tuple\<close> arguments; no methods: do not wait.\<close>

definition send_wait :: "env \<Rightarrow> drainer \<Rightarrow> nat \<Rightarrow> method_sig \<Rightarrow> string \<Rightarrow> pyval list
    \<Rightarrow> message option \<Rightarrow> method_sig list \<Rightarrow> bool \<Rightarrow> result wact" where
  "send_wait E dr r sig fmt args content waits returns_tuple =
     bindA (send_method E dr r sig fmt args content (retA ())) (\<lambda>_.
     if waits = [] then retA RPromise
     else wait dr r waits No_callback None returns_tuple)"

section \<open>dispatch_method\<close>

definition connection_METHODS :: "method_t list" where
  "connection_METHODS =
    [spec_method Connection_Start (Some ''ooFSS'') False,
     spec_method Connection_OpenOk None False,
     spec_method Connection_Secure (Some ''s'') False,
     spec_method Connection_Tune (Some ''BlB'') False,
     spec_method Connection_Close (Some ''BsBB'') False,
     spec_method Connection_Blocked None False,
     spec_method Connection_Unblocked None False,
     spec_method Connection_CloseOk None False]"

definition channel_METHODS :: "method_t list" where
  "channel_METHODS =
    [spec_method Channel_Close (Some ''BsBB'') False,
     spec_method Channel_CloseOk None False,
     spec_method Channel_Flow (Some ''b'') False,
     spec_method Channel_FlowOk (Some ''b'') False,
     spec_method Channel_OpenOk None False,
     spec_method Exchange_DeclareOk None False,
     spec_method Exchange_DeleteOk None False,
     spec_method Exchange_BindOk None False,
     spec_method Exchange_UnbindOk None False,
     spec_method Queue_BindOk None False,
     spec_method Queue_UnbindOk None False,
     spec_method Queue_DeclareOk (Some ''sll'') False,
     spec_method Queue_DeleteOk (Some ''l'') False,
     spec_method Queue_PurgeOk (Some ''l'') False,
     spec_method Basic_Cancel (Some ''s'') False,
     spec_method Basic_CancelOk (Some ''s'') False,
     spec_method Basic_ConsumeOk (Some ''s'') False,
     spec_method Basic_Deliver (Some ''sLbss'') True,
     spec_method Basic_GetEmpty (Some ''s'') False,
     spec_method Basic_GetOk (Some ''Lbssl'') True,
     spec_method Basic_QosOk None False,
     spec_method Basic_RecoverOk None False,
     spec_method Basic_Return (Some ''Bsss'') True,
     spec_method Tx_CommitOk None False,
     spec_method Tx_RollbackOk None False,
     spec_method Tx_SelectOk None False,
     spec_method Confirm_SelectOk None False,
     spec_method Basic_Ack (Some ''Lb'') False,
     spec_method Basic_Nack (Some ''Lb'') False]"

definition METHODS :: "nat \<Rightarrow> method_sig \<Rightarrow> method_t option" where
  "METHODS r sig = find (\<lambda>m. m_sig m = sig) (if r = 0 then connection_METHODS else channel_METHODS)"

definition ALLOWED_METHODS_WHEN_CLOSING :: "nat \<Rightarrow> method_sig list" where
  "ALLOWED_METHODS_WHEN_CLOSING r =
     (if r = 0 then [Connection_Close, Connection_CloseOk] else [Channel_Close, Channel_CloseOk])"

text \<open>\<open>content.body.decode(content.content_encoding)\<close>, any exception swallowed.\<close>

definition decode_body :: "env \<Rightarrow> message \<Rightarrow> message" where
  "decode_body E msg = (case (body msg, get_attr msg ''content_encoding'') of
     (VBytes b, Inr (VStr enc)) \<Rightarrow>
       (case (if enc = pys ''utf-8'' then get_or UnicodeDecodeError (utf8_decode_strict b)
              else decoders E enc b) of
          Inr s \<Rightarrow> msg\<lparr>body := VStr s\<rparr>
        | Inl _ \<Rightarrow> msg)
   | _ \<Rightarrow> msg)"

text \<open>Calling the waiter with the method and its arguments.\<close>

definition call_waiter :: "env \<Rightarrow> nat \<Rightarrow> method_sig \<Rightarrow> marg list \<Rightarrow> unit wact" where
  "call_waiter E p sig args =
    (let done = (\<lambda>v. modA (\<lambda>w. w\<lparr>waiters := (waiters w)(p := (waiters w p)\<lparr>result_args := Some v\<rparr>)\<rparr>))
     in bindA (getA (\<lambda>w. on_call (waiters w p))) (\<lambda>cb. case cb of
          No_callback \<Rightarrow> done args
        | Confirm_handler \<Rightarrow> if sig = Basic_Nack then raiseA MessageNacked else done []
        | User_callback k \<Rightarrow>
            bindA (call_app E k (AV (VList [VInt (fst sig), VInt (snd sig)]) # args)) (\<lambda>_. done [])))"

text \<open>
  \<open>listener r sig\<close> is the entry of \<open>_callbacks\<close>: a listener gets the arguments and hands them
  on, a content possibly changed.
\<close>

type_synonym listeners = "nat \<Rightarrow> method_sig \<Rightarrow> (marg list \<Rightarrow> marg list wact) option"

definition run_listener :: "(marg list \<Rightarrow> marg list wact) option \<Rightarrow> marg list \<Rightarrow> marg list wact" where
  "run_listener ls args = (case ls of None \<Rightarrow> retA args | Some f \<Rightarrow> f args)"

definition dispatch_method :: "env \<Rightarrow> listeners \<Rightarrow> nat \<Rightarrow> method_sig \<Rightarrow> bytes \<Rightarrow> message option
    \<Rightarrow> unit wact" where
  "dispatch_method E listener r sig payload content w =
    (let c = objects w r in
     if is_closing c \<and> sig \<notin> set (ALLOWED_METHODS_WHEN_CLOSING r) then (Inr (), w)
     else
       (let content = (if auto_decode c then map_option (decode_body E) content else content)
        in case METHODS r sig of
          None \<Rightarrow> (Inl (raise_amqp AMQPNotImplementedError ''Unknown AMQP method {!r}''), w)
        | Some m \<Rightarrow>
           (let one_shot = map_of (pending c) sig; ls = listener r sig in
            if one_shot = None \<and> ls = None then (Inr (), w)
            else
              bindA (modA (upd_obj r (\<lambda>c. c\<lparr>pending := AList.delete sig (pending c)\<rparr>))) (\<lambda>_.
              bindA (liftA (case m_args m of
                       None \<Rightarrow> Inr []
                     | Some fmt \<Rightarrow> bindE (loads fmt payload 4) (\<lambda>(vs, _). Inr (map AV vs)))) (\<lambda>args.
              bindA (run_listener ls (args @ (if m_content m then [AM content] else []))) (\<lambda>args.
              case one_shot of None \<Rightarrow> retA () | Some p \<Rightarrow> call_waiter E p sig args))) w)))"

end
