(* ===== verification/Channel.thy ===== *)
theory Channel
  imports Abstract_Channel
begin

text \<open>
  channel.py: opening and closing a channel, flow, the exchange, queue, basic, transaction and
  confirm methods, and the handlers of the methods the server sends. Keyword arguments are
  explicit; text arguments are \<open>VStr\<close>, flags \<open>VBool\<close>, tables \<open>VDict\<close> or \<open>VNone\<close>.
\<close>

section \<open>Life cycle\<close>

definition fresh_chan :: "env \<Rightarrow> world \<Rightarrow> int \<Rightarrow> bool \<Rightarrow> nat option \<Rightarrow> chan" where
  "fresh_chan E w i decode cb =
     \<lparr>is_closing = False, conn_ref = True, channel_id = Some i, auto_decode = decode, pending = [],
      is_open = False, active = VBool True, callbacks = [], cancel_callbacks = [], events = [],
      no_ack_consumers = [], on_open = cb, confirm_selected = False,
      publish_confirms = confirm_publish w\<rparr>"

text \<open>\<open>Channel.__init__\<close>: the id, then the entry in the connection's table.\<close>

definition channel_init :: "env \<Rightarrow> int option \<Rightarrow> bool \<Rightarrow> nat option \<Rightarrow> nat wact" where
  "channel_init E cid decode cb =
     bindA (case cid of Some i \<Rightarrow> if i \<noteq> 0 then claim_channel_id i else get_free_channel_id
            | None \<Rightarrow> get_free_channel_id) (\<lambda>i w.
     case channels w of
       None \<Rightarrow> (Inl TypeError, w)
     | Some tbl \<Rightarrow>
         (Inr (next_ref w),
          w\<lparr>objects := (objects w)(next_ref w := fresh_chan E w i decode cb),
            next_ref := next_ref w + 1,
            channels := Some (AList.update i (next_ref w) tbl)\<rparr>))"

definition channel_open :: "env \<Rightarrow> drainer \<Rightarrow> nat \<Rightarrow> result wact" where
  "channel_open E dr r w =
    (if is_open (objects w r) then (Inr RNone, w)
     else send_wait E dr r Channel_Open ''s'' [VStr []] None [Channel_OpenOk] False w)"

definition do_revive :: "env \<Rightarrow> drainer \<Rightarrow> nat \<Rightarrow> unit wact" where
  "do_revive E dr r =
     bindA (modA (upd_obj r (\<lambda>c. c\<lparr>is_open := False\<rparr>))) (\<lambda>_.
     bindA (channel_open E dr r) (\<lambda>_. retA ()))"

definition channel_close :: "env \<Rightarrow> drainer \<Rightarrow> nat \<Rightarrow> pyval \<Rightarrow> pyval \<Rightarrow> method_sig
    \<Rightarrow> result wact" where
  "channel_close E dr r rcode rtext sig =
     finallyA
       (\<lambda>w. if \<not> conn_ref (objects w r) \<or> channels w = None \<or> \<not> is_open (objects w r)
            then (Inr RNone, w)
            else bindA (modA (upd_obj r (\<lambda>c. c\<lparr>is_closing := True\<rparr>))) (\<lambda>_.
              send_wait E dr r Channel_Close ''BsBB''
                [rcode, rtext, VInt (fst sig), VInt (snd sig)] None
                [Channel_CloseOk] False) w)
       (upd_obj r (\<lambda>c. c\<lparr>is_closing := False, conn_ref := False\<rparr>))"

text \<open>\<open>AbstractChannel.__exit__\<close>; \<open>__enter__\<close> gives the channel itself.\<close>

definition channel_exit :: "env \<Rightarrow> drainer \<Rightarrow> nat \<Rightarrow> unit wact" where
  "channel_exit E dr r = bindA (channel_close E dr r (VInt 0) (VStr []) (0, 0)) (\<lambda>_. retA ())"

text \<open>\<open>_on_close\<close>; the connection of the channel is object 0.\<close>

definition channel_on_close :: "env \<Rightarrow> drainer \<Rightarrow> nat \<Rightarrow> int \<Rightarrow> pystr \<Rightarrow> int \<Rightarrow> int \<Rightarrow> unit wact" where
  "channel_on_close E dr r rcode rtext class_id method_id =
     bindA (send_method E dr r Channel_CloseOk [] [] None (retA ())) (\<lambda>_ w.
       if \<not> is_closing (objects w 0) \<and> \<not> is_closing (objects w r) then
         bindA (do_revive E dr r) (\<lambda>_.
           raiseA (Amqp (error_for_code rcode rtext (class_id, method_id) ChannelError))) w
       else (Inr (), w))"

definition channel_on_close_ok :: "nat \<Rightarrow> unit wact" where
  "channel_on_close_ok r = modA (channel_collect r)"

definition channel_flow :: "env \<Rightarrow> drainer \<Rightarrow> nat \<Rightarrow> pyval \<Rightarrow> result wact" where
  "channel_flow E dr r act = send_wait E dr r Channel_Flow ''b'' [act] None [Channel_FlowOk] False"

definition x_flow_ok :: "env \<Rightarrow> drainer \<Rightarrow> nat \<Rightarrow> pyval \<Rightarrow> unit wact" where
  "x_flow_ok E dr r act = send_method E dr r Channel_FlowOk ''b'' [act] None (retA ())"

definition channel_on_flow :: "env \<Rightarrow> drainer \<Rightarrow> nat \<Rightarrow> pyval \<Rightarrow> unit wact" where
  "channel_on_flow E dr r act =
     bindA (modA (upd_obj r (\<lambda>c. c\<lparr>active := act\<rparr>))) (\<lambda>_. x_flow_ok E dr r act)"

definition channel_on_open_ok :: "env \<Rightarrow> nat \<Rightarrow> unit wact" where
  "channel_on_open_ok E r =
     bindA (modA (upd_obj r (\<lambda>c. c\<lparr>is_open := True\<rparr>))) (\<lambda>_ w.
       call_app_opt E (on_open (objects w r)) [] w)"

section \<open>Exchanges\<close>

definition nowait_for :: "pyval \<Rightarrow> method_sig \<Rightarrow> method_sig list" where
  "nowait_for nowait sig = (if truthy nowait then [] else [sig])"

definition exchange_declare :: "env \<Rightarrow> drainer \<Rightarrow> nat \<Rightarrow> pyval \<Rightarrow> pyval \<Rightarrow> pyval \<Rightarrow> pyval \<Rightarrow> pyval
    \<Rightarrow> pyval \<Rightarrow> pyval \<Rightarrow> result wact" where
  "exchange_declare E dr r exchange type passive durable auto_delete nowait arguments =
     bindA (send_wait E dr r Exchange_Declare ''BssbbbbbF''
        [VInt 0, exchange, type, passive, durable, auto_delete, VBool False, nowait, arguments]
        None (nowait_for nowait Exchange_DeclareOk) False) (\<lambda>_. retA RNone)"

definition exchange_delete :: "env \<Rightarrow> drainer \<Rightarrow> nat \<Rightarrow> pyval \<Rightarrow> pyval \<Rightarrow> pyval \<Rightarrow> result wact" where
  "exchange_delete E dr r exchange if_unused nowait =
     send_wait E dr r Exchange_Delete ''Bsbb'' [VInt 0, exchange, if_unused, nowait]
        None (nowait_for nowait Exchange_DeleteOk) False"

definition exchange_bind :: "env \<Rightarrow> drainer \<Rightarrow> nat \<Rightarrow> pyval \<Rightarrow> pyval \<Rightarrow> pyval \<Rightarrow> pyval \<Rightarrow> pyval
    \<Rightarrow> result wact" where
  "exchange_bind E dr r destination source routing_key nowait arguments =
     send_wait E dr r Exchange_Bind ''BsssbF''
        [VInt 0, destination, source, routing_key, nowait, arguments]
        None (nowait_for nowait Exchange_BindOk) False"

definition exchange_unbind :: "env \<Rightarrow> drainer \<Rightarrow> nat \<Rightarrow> pyval \<Rightarrow> pyval \<Rightarrow> pyval \<Rightarrow> pyval \<Rightarrow> pyval
    \<Rightarrow> result wact" where
  "exchange_unbind E dr r destination source routing_key nowait arguments =
     send_wait E dr r Exchange_Unbind ''BsssbF''
        [VInt 0, destination, source, routing_key, nowait, arguments]
        None (nowait_for nowait Exchange_UnbindOk) False"

section \<open>Queues\<close>

definition queue_bind :: "env \<Rightarrow> drainer \<Rightarrow> nat \<Rightarrow> pyval \<Rightarrow> pyval \<Rightarrow> pyval \<Rightarrow> pyval \<Rightarrow> pyval
    \<Rightarrow> result wact" where
  "queue_bind E dr r queue exchange routing_key nowait arguments =
     send_wait E dr r Queue_Bind ''BsssbF''
        [VInt 0, queue, exchange, routing_key, nowait, arguments]
        None (nowait_for nowait Queue_BindOk) False"

definition queue_unbind :: "env \<Rightarrow> drainer \<Rightarrow> nat \<Rightarrow> pyval \<Rightarrow> pyval \<Rightarrow> pyval \<Rightarrow> pyval \<Rightarrow> pyval
    \<Rightarrow> result wact" where
  "queue_unbind E dr r queue exchange routing_key nowait arguments =
     send_wait E dr r Queue_Unbind ''BsssF'' [VInt 0, queue, exchange, routing_key, arguments]
        None (nowait_for nowait Queue_UnbindOk) False"

definition queue_declare :: "env \<Rightarrow> drainer \<Rightarrow> nat \<Rightarrow> pyval \<Rightarrow> pyval \<Rightarrow> pyval \<Rightarrow> pyval \<Rightarrow> pyval
    \<Rightarrow> pyval \<Rightarrow> pyval \<Rightarrow> result wact" where
  "queue_declare E dr r queue passive durable exclusive auto_delete nowait arguments =
     bindA (send_method E dr r Queue_Declare ''BsbbbbbF''
        [VInt 0, queue, passive, durable, exclusive, auto_delete, nowait, arguments]
        None (retA ())) (\<lambda>_.
     if truthy nowait then retA RNone
     else bindA (wait dr r [Queue_DeclareOk] No_callback None True) (\<lambda>res. case res of
        RTuple [q, messages, consumers] \<Rightarrow> retA (RTuple [q, messages, consumers])
      | _ \<Rightarrow> raiseA TypeError))"

definition queue_delete :: "env \<Rightarrow> drainer \<Rightarrow> nat \<Rightarrow> pyval \<Rightarrow> pyval \<Rightarrow> pyval \<Rightarrow> pyval
    \<Rightarrow> result wact" where
  "queue_delete E dr r queue if_unused if_empty nowait =
     send_wait E dr r Queue_Delete ''Bsbbb'' [VInt 0, queue, if_unused, if_empty, nowait]
        None (nowait_for nowait Queue_DeleteOk) False"

definition queue_purge :: "env \<Rightarrow> drainer \<Rightarrow> nat \<Rightarrow> pyval \<Rightarrow> pyval \<Rightarrow> result wact" where
  "queue_purge E dr r queue nowait =
     send_wait E dr r Queue_Purge ''Bsb'' [VInt 0, queue, nowait]
        None (nowait_for nowait Queue_PurgeOk) False"

section \<open>Consumers\<close>

definition basic_ack :: "env \<Rightarrow> drainer \<Rightarrow> nat \<Rightarrow> pyval \<Rightarrow> pyval \<Rightarrow> result wact" where
  "basic_ack E dr r tag multiple =
     send_wait E dr r Basic_Ack ''Lb'' [tag, multiple] None [] False"

definition basic_reject :: "env \<Rightarrow> drainer \<Rightarrow> nat \<Rightarrow> pyval \<Rightarrow> pyval \<Rightarrow> result wact" where
  "basic_reject E dr r tag requeue =
     send_wait E dr r Basic_Reject ''Lb'' [tag, requeue] None [] False"

definition basic_cancel :: "env \<Rightarrow> drainer \<Rightarrow> nat \<Rightarrow> pystr \<Rightarrow> pyval \<Rightarrow> result wact" where
  "basic_cancel E dr r consumer_tag nowait w =
    (if \<not> conn_ref (objects w r) then (Inr RNone, w)
     else bindA (modA (upd_obj r (\<lambda>c. c\<lparr>no_ack_consumers :=
            removeAll consumer_tag (no_ack_consumers c)\<rparr>))) (\<lambda>_.
       send_wait E dr r Basic_Cancel ''sb'' [VStr consumer_tag, nowait]
         None (nowait_for nowait Basic_CancelOk) False) w)"

definition remove_tag :: "nat \<Rightarrow> pystr \<Rightarrow> nat option wact" where
  "remove_tag r tag w = (Inr (map_of (cancel_callbacks (objects w r)) tag),
     upd_obj r (\<lambda>c. c\<lparr>callbacks := AList.delete tag (callbacks c),
       cancel_callbacks := AList.delete tag (cancel_callbacks c)\<rparr>) w)"

definition on_basic_cancel :: "env \<Rightarrow> nat \<Rightarrow> pystr \<Rightarrow> unit wact" where
  "on_basic_cancel E r tag =
     bindA (remove_tag r tag) (\<lambda>cb. case cb of
       Some k \<Rightarrow> call_app E k [AV (VStr tag)]
     | None \<Rightarrow> raiseA (Amqp (amqp_error_init ConsumerCancelled (Some tag) (Some Basic_Cancel) None None)))"

definition on_basic_cancel_ok :: "nat \<Rightarrow> pystr \<Rightarrow> unit wact" where
  "on_basic_cancel_ok r tag = bindA (remove_tag r tag) (\<lambda>_. retA ())"

definition basic_consume :: "env \<Rightarrow> drainer \<Rightarrow> nat \<Rightarrow> pyval \<Rightarrow> pystr \<Rightarrow> pyval \<Rightarrow> pyval \<Rightarrow> pyval
    \<Rightarrow> pyval \<Rightarrow> nat option \<Rightarrow> pyval \<Rightarrow> nat option \<Rightarrow> result wact" where
  "basic_consume E dr r queue consumer_tag no_local no_ack exclusive nowait callback arguments
      on_cancel =
     bindA (send_wait E dr r Basic_Consume ''BssbbbbF''
        [VInt 0, queue, VStr consumer_tag, no_local, no_ack, exclusive, nowait, arguments]
        None (nowait_for nowait Basic_ConsumeOk) True) (\<lambda>p.
     bindA (liftA (if \<not> truthy nowait then
                     (case p of RTuple (AV (VStr t) # _) \<Rightarrow> Inr t | _ \<Rightarrow> Inl TypeError)
                   else if consumer_tag = [] then Inl ValueError else Inr consumer_tag)) (\<lambda>tag.
     bindA (modA (upd_obj r (\<lambda>c. c\<lparr>
        callbacks := AList.update tag callback (callbacks c),
        cancel_callbacks := (case on_cancel of None \<Rightarrow> cancel_callbacks c
                             | Some k \<Rightarrow> AList.update tag k (cancel_callbacks c)),
        no_ack_consumers := (if truthy no_ack then List.insert tag (no_ack_consumers c)
                             else no_ack_consumers c)\<rparr>))) (\<lambda>_.
     retA (if truthy nowait then p else ROne (AV (VStr tag))))))"

definition deliver_info :: "(string \<times> pyval) list \<Rightarrow> nat \<Rightarrow> message \<Rightarrow> message" where
  "deliver_info info r msg = msg\<lparr>channel := Some r, delivery_info := Some info\<rparr>"

definition on_basic_deliver :: "env \<Rightarrow> drainer \<Rightarrow> nat \<Rightarrow> pystr \<Rightarrow> pyval \<Rightarrow> pyval \<Rightarrow> pyval \<Rightarrow> pyval
    \<Rightarrow> message \<Rightarrow> message wact" where
  "on_basic_deliver E dr r tag dtag redelivered exchange routing_key msg =
    (let msg = deliver_info [(''consumer_tag'', VStr tag), (''delivery_tag'', dtag),
           (''redelivered'', redelivered), (''exchange'', exchange), (''routing_key'', routing_key)]
           r msg
     in bindA (getA (\<lambda>w. map_of (callbacks (objects w r)) tag)) (\<lambda>fun. case fun of
          None \<Rightarrow> bindA (basic_reject E dr r dtag (VBool True)) (\<lambda>_. retA msg)
        | Some None \<Rightarrow> raiseA TypeError
        | Some (Some k) \<Rightarrow> bindA (call_app E k [AM (Some msg)]) (\<lambda>_. retA msg)))"

definition basic_get :: "env \<Rightarrow> drainer \<Rightarrow> nat \<Rightarrow> pyval \<Rightarrow> pyval \<Rightarrow> result wact" where
  "basic_get E dr r queue no_ack =
     bindA (send_wait E dr r Basic_Get ''Bsb'' [VInt 0, queue, no_ack]
        None [Basic_GetOk, Basic_GetEmpty] True) (\<lambda>ret. case ret of
       RTuple [AV dtag, AV redelivered, AV exchange, AV routing_key, AV message_count, AM (Some msg)]
         \<Rightarrow> retA (ROne (AM (Some (deliver_info [(''delivery_tag'', dtag),
              (''redelivered'', redelivered), (''exchange'', exchange), (''routing_key'', routing_key),
              (''message_count'', message_count)] r msg))))
     | RTuple args \<Rightarrow> if length args < 2 then retA RNone else raiseA TypeError
     | _ \<Rightarrow> raiseA TypeError)"

section \<open>Publishing\<close>

text \<open>\<open>client_properties.get('capabilities', {}).get('connection.blocked', False)\<close>.\<close>

definition wants_blocked :: "(pykey \<times> pyval) list \<Rightarrow> exn + bool" where
  "wants_blocked props = (case map_of props (KStr (pys ''capabilities'')) of
     None \<Rightarrow> Inr False
   | Some (VDict cap) \<Rightarrow> Inr (case map_of cap (KStr (pys ''connection.blocked'')) of
       None \<Rightarrow> False | Some v \<Rightarrow> truthy v)
   | Some _ \<Rightarrow> Inl AttributeError)"

definition plain_publish :: "env \<Rightarrow> drainer \<Rightarrow> nat \<Rightarrow> message \<Rightarrow> pyval \<Rightarrow> pyval \<Rightarrow> pyval \<Rightarrow> pyval
    \<Rightarrow> rat option \<Rightarrow> result wact" where
  "plain_publish E dr r msg exchange routing_key mandatory immediate tmo w =
    (if \<not> conn_ref (objects w r) then
       (Inl (raise_amqp RecoverableConnectionError ''basic_publish: connection closed''), w)
     else
       bindA (liftA (wants_blocked (client_properties w))) (\<lambda>blk.
       bindA (if blk then
                catchA (snd dr (Some 0)) (\<lambda>e. if e = SocketTimeout then retA () else raiseA e)
              else retA ()) (\<lambda>_.
       bindA (getA (\<lambda>w. conn_ref (objects w r))) (\<lambda>alive.
       if \<not> alive then raiseA AttributeError else
       catchA
         (bindA (need E dr has_transport) (\<lambda>_.
          having_timeout (\<lambda>w. transport (fw w)) upd_transport tmo
            (send_wait E dr r Basic_Publish ''Bssbb''
               [VInt 0, exchange, routing_key, mandatory, immediate] (Some msg) [] False)))
         (\<lambda>e. if e = SocketTimeout
              then raiseA (raise_amqp RecoverableChannelError ''basic_publish: timed out'')
              else raiseA e)))) w)"

definition confirm_select :: "env \<Rightarrow> drainer \<Rightarrow> nat \<Rightarrow> pyval \<Rightarrow> result wact" where
  "confirm_select E dr r nowait =
     send_wait E dr r Confirm_Select ''b'' [nowait] None (nowait_for nowait Confirm_SelectOk) False"

definition basic_publish_confirm :: "env \<Rightarrow> drainer \<Rightarrow> nat \<Rightarrow> message \<Rightarrow> pyval \<Rightarrow> pyval \<Rightarrow> pyval
    \<Rightarrow> pyval \<Rightarrow> rat option \<Rightarrow> rat option \<Rightarrow> result wact" where
  "basic_publish_confirm E dr r msg exchange routing_key mandatory immediate tmo confirm_tmo =
     bindA (getA (\<lambda>w. confirm_selected (objects w r))) (\<lambda>sel.
     bindA (if sel then retA () else
              bindA (modA (upd_obj r (\<lambda>c. c\<lparr>confirm_selected := True\<rparr>))) (\<lambda>_.
              bindA (confirm_select E dr r (VBool False)) (\<lambda>_. retA ()))) (\<lambda>_.
     bindA (plain_publish E dr r msg exchange routing_key mandatory immediate tmo) (\<lambda>ret.
     bindA (wait dr r [Basic_Ack, Basic_Nack] Confirm_handler
              (case confirm_tmo of Some t \<Rightarrow> if t = 0 then tmo else Some t | None \<Rightarrow> tmo) False)
       (\<lambda>_. retA ret))))"

definition basic_publish :: "env \<Rightarrow> drainer \<Rightarrow> nat \<Rightarrow> message \<Rightarrow> pyval \<Rightarrow> pyval \<Rightarrow> pyval
    \<Rightarrow> pyval \<Rightarrow> rat option \<Rightarrow> rat option \<Rightarrow> result wact" where
  "basic_publish E dr r msg exchange routing_key mandatory immediate tmo confirm_tmo w =
    (if publish_confirms (objects w r)
     then basic_publish_confirm E dr r msg exchange routing_key mandatory immediate tmo confirm_tmo w
     else plain_publish E dr r msg exchange routing_key mandatory immediate tmo w)"

definition handlers_of :: "nat \<Rightarrow> string \<Rightarrow> world \<Rightarrow> nat list" where
  "handlers_of r name w = (case map_of (events (objects w r)) name of None \<Rightarrow> [] | Some ks \<Rightarrow> ks)"

definition on_basic_return :: "env \<Rightarrow> nat \<Rightarrow> int \<Rightarrow> pystr \<Rightarrow> pyval \<Rightarrow> pyval \<Rightarrow> message option
    \<Rightarrow> unit wact" where
  "on_basic_return E r rcode rtext exchange routing_key msg =
    (let exc = Amqp (error_for_code rcode rtext Basic_Return ChannelError)
     in bindA (getA (handlers_of r ''basic_return'')) (\<lambda>ks.
          if ks = [] then raiseA exc
          else forA ks (\<lambda>k. call_app E k [AE exc, AV exchange, AV routing_key, AM msg])))"

definition on_basic_ack :: "env \<Rightarrow> nat \<Rightarrow> pyval \<Rightarrow> pyval \<Rightarrow> unit wact" where
  "on_basic_ack E r tag multiple =
     bindA (getA (handlers_of r ''basic_ack'')) (\<lambda>ks.
       forA ks (\<lambda>k. call_app E k [AV tag, AV multiple]))"

definition on_basic_nack :: "env \<Rightarrow> nat \<Rightarrow> pyval \<Rightarrow> pyval \<Rightarrow> unit wact" where
  "on_basic_nack E r tag multiple =
     bindA (getA (handlers_of r ''basic_nack'')) (\<lambda>ks.
       forA ks (\<lambda>k. call_app E k [AV tag, AV multiple]))"

section \<open>Quality of service, recovery, transactions\<close>

definition basic_qos :: "env \<Rightarrow> drainer \<Rightarrow> nat \<Rightarrow> pyval \<Rightarrow> pyval \<Rightarrow> pyval \<Rightarrow> result wact" where
  "basic_qos E dr r prefetch_size prefetch_count a_global =
     send_wait E dr r Basic_Qos ''lBb'' [prefetch_size, prefetch_count, a_global] None
       [Basic_QosOk] False"

definition basic_recover :: "env \<Rightarrow> drainer \<Rightarrow> nat \<Rightarrow> pyval \<Rightarrow> result wact" where
  "basic_recover E dr r requeue = send_wait E dr r Basic_Recover ''b'' [requeue] None [] False"

definition basic_recover_async :: "env \<Rightarrow> drainer \<Rightarrow> nat \<Rightarrow> pyval \<Rightarrow> result wact" where
  "basic_recover_async E dr r requeue =
     send_wait E dr r Basic_RecoverAsync ''b'' [requeue] None [] False"

definition tx_select :: "env \<Rightarrow> drainer \<Rightarrow> nat \<Rightarrow> result wact" where
  "tx_select E dr r = send_wait E dr r Tx_Select [] [] None [Tx_SelectOk] False"

definition tx_commit :: "env \<Rightarrow> drainer \<Rightarrow> nat \<Rightarrow> result wact" where
  "tx_commit E dr r = send_wait E dr r Tx_Commit [] [] None [Tx_CommitOk] False"

definition tx_rollback :: "env \<Rightarrow> drainer \<Rightarrow> nat \<Rightarrow> result wact" where
  "tx_rollback E dr r = send_wait E dr r Tx_Rollback [] [] None [Tx_RollbackOk] False"

section \<open>The listeners\<close>

text \<open>
  \<open>_setup_listeners\<close>, with the arguments the wire formats give; a handler called with other
  arguments raises TypeError.
\<close>

definition keep :: "unit wact \<Rightarrow> marg list \<Rightarrow> marg list wact" where
  "keep m args = bindA m (\<lambda>_. retA args)"

definition channel_listener :: "env \<Rightarrow> drainer \<Rightarrow> nat \<Rightarrow> method_sig
    \<Rightarrow> (marg list \<Rightarrow> marg list wact) option" where
  "channel_listener E dr r sig =
    (if sig = Channel_Close then Some (\<lambda>args. case args of
        [AV (VInt code), AV (VStr text), AV (VInt c), AV (VInt m)] \<Rightarrow>
          keep (channel_on_close E dr r code text c m) args
      | _ \<Rightarrow> raiseA TypeError)
     else if sig = Channel_CloseOk then Some (\<lambda>args. keep (channel_on_close_ok r) args)
     else if sig = Channel_Flow then Some (\<lambda>args. case args of
        [AV a] \<Rightarrow> keep (channel_on_flow E dr r a) args | _ \<Rightarrow> raiseA TypeError)
     else if sig = Channel_OpenOk then Some (\<lambda>args. keep (channel_on_open_ok E r) args)
     else if sig = Basic_Cancel then Some (\<lambda>args. case args of
        [AV (VStr t)] \<Rightarrow> keep (on_basic_cancel E r t) args | _ \<Rightarrow> raiseA TypeError)
     else if sig = Basic_CancelOk then Some (\<lambda>args. case args of
        [AV (VStr t)] \<Rightarrow> keep (on_basic_cancel_ok r t) args | _ \<Rightarrow> raiseA TypeError)
     else if sig = Basic_Deliver then Some (\<lambda>args. case args of
        [AV (VStr t), AV d, AV red, AV ex, AV rk, AM (Some msg)] \<Rightarrow>
          bindA (on_basic_deliver E dr r t d red ex rk msg) (\<lambda>msg'.
            retA [AV (VStr t), AV d, AV red, AV ex, AV rk, AM (Some msg')])
      | _ \<Rightarrow> raiseA TypeError)
     else if sig = Basic_Return then Some (\<lambda>args. case args of
        [AV (VInt code), AV (VStr text), AV ex, AV rk, AM msg] \<Rightarrow>
          keep (on_basic_return E r code text ex rk msg) args
      | _ \<Rightarrow> raiseA TypeError)
     else if sig = Basic_Ack then Some (\<lambda>args. case args of
        [AV t, AV m] \<Rightarrow> keep (on_basic_ack E r t m) args | _ \<Rightarrow> raiseA TypeError)
     else if sig = Basic_Nack then Some (\<lambda>args. case args of
        [AV t, AV m] \<Rightarrow> keep (on_basic_nack E r t m) args | _ \<Rightarrow> raiseA TypeError)
     else None)"

end
