(* ===== verification/Connection.thy ===== *)
theory Connection
  imports Channel
begin

text \<open>
  connection.py: the handshake and the negotiation of its parameters, channels, closing, the
  event loop and heartbeats. \<open>drain_events\<close> ties the knot: every operation that blocks was
  defined over a \<open>drainer\<close>, and here is the one the program uses.
\<close>

section \<open>The handshake\<close>

text \<open>\<open>x.get(key)\<close>; only dictionaries have it.\<close>

definition dict_get :: "pyval \<Rightarrow> pystr \<Rightarrow> exn + pyval" where
  "dict_get d key = (case d of
     VDict kvs \<Rightarrow> Inr (case map_of kvs (KStr key) of None \<Rightarrow> VNone | Some v \<Rightarrow> v)
   | _ \<Rightarrow> Inl AttributeError)"

fun wanted_caps :: "(pystr \<times> bool) list \<Rightarrow> pyval \<Rightarrow> exn + (pykey \<times> pyval) list" where
  "wanted_caps [] scap = Inr []"
| "wanted_caps ((cap, enable) # cs) scap =
     bindE (dict_get scap cap) (\<lambda>v. bindE (wanted_caps cs scap) (\<lambda>rest.
       Inr (if truthy v then (KStr cap, VBool enable) # rest else rest)))"

text \<open>The new \<open>client_properties\<close>, with the negotiated capabilities.\<close>

definition negotiate :: "(pystr \<times> bool) list \<Rightarrow> pyval \<Rightarrow> (pykey \<times> pyval) list
    \<Rightarrow> exn + (pykey \<times> pyval) list" where
  "negotiate wanted sprops cprops =
    (let key = KStr (pys ''capabilities'') in
     bindE (dict_get sprops (pys ''capabilities'')) (\<lambda>sc.
     bindE (case map_of cprops key of
              None \<Rightarrow> Inr [] | Some (VDict cap) \<Rightarrow> Inr cap | Some _ \<Rightarrow> Inl AttributeError) (\<lambda>cap.
     bindE (wanted_caps wanted (py_or sc (VDict []))) (\<lambda>upds.
       let cap' = fold (\<lambda>(k, v). dict_set k v) upds cap
       in Inr (if cap' = [] then AList.delete key cprops else dict_set key (VDict cap') cprops)))))"

fun pick_authentication :: "bytes list \<Rightarrow> sasl list \<Rightarrow> exn + (bytes \<times> bytes) option" where
  "pick_authentication mechs [] = Inr None"
| "pick_authentication mechs (a # as) = (case mechanism a of
     None \<Rightarrow> pick_authentication mechs as
   | Some m \<Rightarrow>
      if m \<in> set mechs then
        bindE (sasl_start a) (\<lambda>r. case r of
          None \<Rightarrow> pick_authentication mechs as | Some resp \<Rightarrow> Inr (Some (m, resp)))
      else pick_authentication mechs as)"

definition on_start :: "env \<Rightarrow> drainer \<Rightarrow> pyval \<Rightarrow> pyval \<Rightarrow> pyval \<Rightarrow> pystr \<Rightarrow> pystr \<Rightarrow> unit wact" where
  "on_start E dr major minor sprops mechs locs =
     bindA (modA (\<lambda>w. w\<lparr>server_version := (major, minor), server_properties := sprops\<rparr>)) (\<lambda>_.
     bindA (liftA (encode_utf8 mechs)) (\<lambda>mb.
     bindA (modA (\<lambda>w. w\<lparr>mechanisms := split_at 32 mb, locales := split_at 32 locs\<rparr>)) (\<lambda>_.
     bindA (getA (\<lambda>w. negotiate (negotiate_capabilities E) sprops (client_properties w))) (\<lambda>r.
     bindA (liftA r) (\<lambda>props.
     bindA (modA (\<lambda>w. w\<lparr>client_properties := props\<rparr>)) (\<lambda>_.
     bindA (getA (\<lambda>w. pick_authentication (mechanisms w) (authentication w))) (\<lambda>r.
     bindA (liftA r) (\<lambda>auth. case auth of
       None \<Rightarrow> raiseA (raise_amqp ConnectionError ''Couldn't find appropriate auth mechanism (can offer: {}; available: {})'')
     | Some (m, resp) \<Rightarrow>
         bindA (getA locale_name) (\<lambda>loc.
         send_method E dr 0 Connection_StartOk ''FsSs''
           [VDict props, VBytes m, VBytes resp, VStr loc] None (retA ()))))))))))"

text \<open>\<open>_on_secure\<close>: a challenge is not answered.\<close>

definition on_secure :: "unit wact" where
  "on_secure = retA ()"

definition negotiate_heartbeat :: "int \<Rightarrow> int \<Rightarrow> int" where
  "negotiate_heartbeat client server =
    (let hb = (if server = 0 \<or> client = 0 then max server client else min server client)
     in if client = 0 then 0 else hb)"

definition on_tune_sent :: "env \<Rightarrow> drainer \<Rightarrow> unit wact" where
  "on_tune_sent E dr =
     bindA (getA virtual_host) (\<lambda>vh.
     send_method E dr 0 Connection_Open ''ssb'' [VStr vh, VStr [], VBool False] None (retA ()))"

definition tuned :: "int \<Rightarrow> int \<Rightarrow> int \<Rightarrow> world \<Rightarrow> world" where
  "tuned cmax fmax shb w =
     w\<lparr>channel_max := (if cmax \<noteq> 0 then cmax else channel_max w),
       fw := (fw w)\<lparr>frame_max := (if fmax \<noteq> 0 then fmax else frame_max (fw w))\<rparr>,
       server_heartbeat := shb,
       heartbeat := negotiate_heartbeat (client_heartbeat w) shb\<rparr>"

definition on_tune :: "env \<Rightarrow> drainer \<Rightarrow> int \<Rightarrow> int \<Rightarrow> int \<Rightarrow> unit wact" where
  "on_tune E dr cmax fmax shb =
     bindA (modA (tuned cmax fmax shb)) (\<lambda>_ w.
       send_method E dr 0 Connection_TuneOk ''BlB''
         [VInt (channel_max w), VInt (frame_max (fw w)), VInt (heartbeat w)] None
         (on_tune_sent E dr) w)"

definition on_open_ok :: "env \<Rightarrow> unit wact" where
  "on_open_ok E =
     bindA (modA (\<lambda>w. w\<lparr>handshake_complete := True\<rparr>)) (\<lambda>_ w.
       call_app_opt E (on_open (objects w 0)) [] w)"

section \<open>Closing\<close>

definition connection_on_close_ok :: "unit wact" where
  "connection_on_close_ok = connection_collect"

definition x_close_ok :: "env \<Rightarrow> drainer \<Rightarrow> unit wact" where
  "x_close_ok E dr = send_method E dr 0 Connection_CloseOk [] [] None connection_on_close_ok"

definition connection_on_close :: "env \<Rightarrow> drainer \<Rightarrow> int \<Rightarrow> pystr \<Rightarrow> int \<Rightarrow> int \<Rightarrow> unit wact" where
  "connection_on_close E dr rcode rtext class_id method_id =
     bindA (x_close_ok E dr) (\<lambda>_.
       raiseA (Amqp (error_for_code rcode rtext (class_id, method_id) ConnectionError)))"

definition connection_close :: "env \<Rightarrow> drainer \<Rightarrow> pyval \<Rightarrow> pyval \<Rightarrow> method_sig \<Rightarrow> result wact" where
  "connection_close E dr rcode rtext sig w =
    (if \<not> has_transport w then (Inr RNone, w)
     else finallyA
       (bindA (modA (upd_obj 0 (\<lambda>c. c\<lparr>is_closing := True\<rparr>))) (\<lambda>_.
        catchA (send_wait E dr 0 Connection_Close ''BsBB''
                 [rcode, rtext, VInt (fst sig), VInt (snd sig)] None [Connection_CloseOk] False)
          (\<lambda>e. if is_OSError e then bindA connection_collect (\<lambda>_. raiseA e) else raiseA e)))
       (upd_obj 0 (\<lambda>c. c\<lparr>is_closing := False\<rparr>)) w)"

definition on_blocked_method :: "env \<Rightarrow> unit wact" where
  "on_blocked_method E =
     bindA (getA on_blocked) (\<lambda>cb.
       call_app_opt E cb [AV (VStr (pys ''connection blocked, see broker logs''))])"

definition on_unblocked_method :: "env \<Rightarrow> unit wact" where
  "on_unblocked_method E = bindA (getA on_unblocked) (\<lambda>cb. call_app_opt E cb [])"

definition connection_listener :: "env \<Rightarrow> drainer \<Rightarrow> method_sig
    \<Rightarrow> (marg list \<Rightarrow> marg list wact) option" where
  "connection_listener E dr sig =
    (if sig = Connection_Start then Some (\<lambda>args. case args of
        [AV major, AV minor, AV sprops, AV (VStr mechs), AV (VStr locs)] \<Rightarrow>
          keep (on_start E dr major minor sprops mechs locs) args
      | _ \<Rightarrow> raiseA TypeError)
     else if sig = Connection_OpenOk then Some (\<lambda>args. keep (on_open_ok E) args)
     else if sig = Connection_Secure then Some (\<lambda>args. keep on_secure args)
     else if sig = Connection_Tune then Some (\<lambda>args. case args of
        [AV (VInt cmax), AV (VInt fmax), AV (VInt shb)] \<Rightarrow> keep (on_tune E dr cmax fmax shb) args
      | _ \<Rightarrow> raiseA TypeError)
     else if sig = Connection_Close then Some (\<lambda>args. case args of
        [AV (VInt code), AV (VStr text), AV (VInt c), AV (VInt m)] \<Rightarrow>
          keep (connection_on_close E dr code text c m) args
      | _ \<Rightarrow> raiseA TypeError)
     else if sig = Connection_Blocked then Some (\<lambda>args. keep (on_blocked_method E) args)
     else if sig = Connection_Unblocked then Some (\<lambda>args. keep (on_unblocked_method E) args)
     else if sig = Connection_CloseOk then Some (\<lambda>args. keep connection_on_close_ok args)
     else None)"

definition listener :: "env \<Rightarrow> drainer \<Rightarrow> listeners" where
  "listener E dr r sig = (if r = 0 then connection_listener E dr sig else channel_listener E dr r sig)"

section \<open>The event loop\<close>

definition on_inbound_method :: "env \<Rightarrow> drainer \<Rightarrow> delivery \<Rightarrow> unit wact" where
  "on_inbound_method E dr d w = (case d of (ch, sig, payload, content) \<Rightarrow>
     (case channels w of
        None \<Rightarrow> (Inl (raise_amqp RecoverableConnectionError ''Connection already closed''), w)
      | Some tbl \<Rightarrow> (case map_of tbl ch of
          None \<Rightarrow> (Inl KeyError, w)
        | Some r \<Rightarrow> dispatch_method E (listener E dr) r sig payload content w)))"

definition on_inbound_frame :: "env \<Rightarrow> drainer \<Rightarrow> frame \<Rightarrow> bool wact" where
  "on_inbound_frame E dr frm w = (case on_frame frm (fh w) of
     (Inl e, h) \<Rightarrow> (Inl e, w\<lparr>fh := h\<rparr>)
   | (Inr None, h) \<Rightarrow> (Inr False, w\<lparr>fh := h\<rparr>)
   | (Inr (Some d), h) \<Rightarrow> bindA (on_inbound_method E dr d) (\<lambda>_. retA True) (w\<lparr>fh := h\<rparr>))"

definition blocking_read :: "env \<Rightarrow> drainer \<Rightarrow> rat option \<Rightarrow> bool wact" where
  "blocking_read E dr tmo =
     bindA (need E dr has_transport) (\<lambda>_.
     bindA (on_transport (having_timeout (\<lambda>t. t) (\<lambda>f. f) tmo read_frame)) (\<lambda>frm.
     bindA (need E dr has_inbound) (\<lambda>_. on_inbound_frame E dr frm)))"

text \<open>
  \<open>while not self.blocking_read(timeout): pass\<close>. A handler that blocks drains events itself,
  with the rest of the fuel.
\<close>

fun drain_events :: "nat \<Rightarrow> env \<Rightarrow> rat option \<Rightarrow> unit wact" where
  "drain_events 0 E tmo w = (Inl OutOfFuel, w)"
| "drain_events (Suc n) E tmo w =
     bindA (blocking_read E (n, drain_events n E) tmo) (\<lambda>b.
       if b then retA () else drain_events n E tmo) w"

definition drainer :: "nat \<Rightarrow> env \<Rightarrow> drainer" where
  "drainer n E = (n, drain_events n E)"

text \<open>\<open>Connection.channel\<close>: the existing object, or a new one, opened.\<close>

definition connection_channel :: "env \<Rightarrow> drainer \<Rightarrow> int option \<Rightarrow> nat option \<Rightarrow> result wact" where
  "connection_channel E dr cid cb w = (case channels w of
     None \<Rightarrow> (Inl (raise_amqp RecoverableConnectionError ''Connection already closed.''), w)
   | Some tbl \<Rightarrow> (case (case cid of None \<Rightarrow> None | Some i \<Rightarrow> map_of tbl i) of
       Some r \<Rightarrow> (Inr (RRef r), w)
     | None \<Rightarrow>
        bindA (channel_init E cid True cb) (\<lambda>r.
        bindA (channel_open E dr r) (\<lambda>_. retA (RRef r))) w))"

section \<open>Heartbeats\<close>

text \<open>\<open>monotonic()\<close>: the next reading of the clock.\<close>

definition monotonic :: "rat wact" where
  "monotonic w = (case clock w of [] \<Rightarrow> (Inl Waiting, w) | t # ts \<Rightarrow> (Inr t, w\<lparr>clock := ts\<rparr>))"

definition send_heartbeat :: "env \<Rightarrow> drainer \<Rightarrow> unit wact" where
  "send_heartbeat E dr =
     bindA (need E dr has_frame_writer) (\<lambda>_ w.
       case write_frame (codecs E) write_bytes 8 0 None VNone None (fw w) of
         (q, f, _) \<Rightarrow> (q, w\<lparr>fw := f\<rparr>))"

definition heartbeat_tick :: "env \<Rightarrow> drainer \<Rightarrow> rat \<Rightarrow> unit wact" where
  "heartbeat_tick E dr rate w =
    (if heartbeat w = 0 then (Inr (), w)
     else
       let rate = (if rate \<le> 0 then 2 else rate);
           hb = of_int (heartbeat w);
           sent_now = bytes_sent (fw w);
           recv_now = bytes_recv (fh w)
       in bindA (if prev_sent w \<noteq> Some sent_now then
                  bindA monotonic (\<lambda>t. modA (\<lambda>w. w\<lparr>last_heartbeat_sent := t\<rparr>)) else retA ()) (\<lambda>_.
          bindA (if prev_recv w \<noteq> Some recv_now then
                  bindA monotonic (\<lambda>t. modA (\<lambda>w. w\<lparr>last_heartbeat_received := t\<rparr>)) else retA ()) (\<lambda>_.
          bindA monotonic (\<lambda>now.
          bindA (modA (\<lambda>w. w\<lparr>prev_sent := Some sent_now, prev_recv := Some recv_now\<rparr>)) (\<lambda>_.
          bindA (getA last_heartbeat_sent) (\<lambda>last.
          bindA (if now > last + hb / rate then
                  bindA (send_heartbeat E dr) (\<lambda>_.
                  bindA monotonic (\<lambda>t. modA (\<lambda>w. w\<lparr>last_heartbeat_sent := t\<rparr>))) else retA ()) (\<lambda>_.
          bindA (getA last_heartbeat_received) (\<lambda>rec.
          bindA monotonic (\<lambda>later.
          if rec \<noteq> 0 \<and> rec + 2 * hb < later
          then raiseA (raise_amqp ConnectionForced ''Too many heartbeats missed'')
          else retA ())))))))) w)"

section \<open>Accessors, and the connection as a context manager\<close>

definition is_alive :: "unit wact" where
  "is_alive = raiseA NotImplementedExn"

definition conn_sock :: "env \<Rightarrow> drainer \<Rightarrow> socket option wact" where
  "conn_sock E dr = bindA (need E dr has_transport) (\<lambda>_. getA (\<lambda>w. sock (transport (fw w))))"

definition server_capabilities :: "pyval wact" where
  "server_capabilities =
     bindA (getA server_properties) (\<lambda>props.
     bindA (liftA (dict_get props (pys ''capabilities''))) (\<lambda>v. retA (py_or v (VDict []))))"

definition connection_enter :: "env \<Rightarrow> drainer \<Rightarrow> unit wact" where
  "connection_enter E dr = connection_connect E dr"

definition connection_exit :: "env \<Rightarrow> drainer \<Rightarrow> unit wact" where
  "connection_exit E dr =
     bindA (connection_close E dr (VInt 0) (VStr []) (0, 0)) (\<lambda>_. retA ())"

section \<open>Construction\<close>

definition connection_obj :: "nat option \<Rightarrow> chan" where
  "connection_obj cb =
     \<lparr>is_closing = False, conn_ref = True, channel_id = Some 0, auto_decode = False, pending = [],
      is_open = False, active = VBool True, callbacks = [], cancel_callbacks = [], events = [],
      no_ack_consumers = [], on_open = cb, confirm_selected = False, publish_confirms = False\<rparr>"

text \<open>A reference no object has yet.\<close>

definition unallocated :: chan where
  "unallocated = (connection_obj None)\<lparr>conn_ref := False, channel_id := None\<rparr>"

text \<open>\<open>Connection.__init__\<close>, given the transport its parameters describe and its scripts.\<close>

definition connection_init :: "exn + sasl list \<Rightarrow> tcp_transport option
    \<Rightarrow> (io_error + (io_error + socket) list) list \<Rightarrow> rat list \<Rightarrow> tcp_transport \<Rightarrow> pystr \<Rightarrow> pystr
    \<Rightarrow> (pykey \<times> pyval) list \<Rightarrow> int \<Rightarrow> int \<Rightarrow> int \<Rightarrow> bool \<Rightarrow> nat option \<Rightarrow> nat option \<Rightarrow> nat option
    \<Rightarrow> exn + world" where
  "connection_init auth ft dials readings unconnected vhost loc props cmax fmax hb confirm
      open_cb blocked_cb unblocked_cb =
     bindE auth (\<lambda>auth. Inr
      \<lparr>objects = (\<lambda>_. unallocated)(0 := connection_obj open_cb), next_ref = 1,
       waiters = (\<lambda>_. \<lparr>on_call = No_callback, result_args = None\<rparr>), next_waiter = 0,
       channels = Some [(0, 0)], used_channel_ids = [],
       channel_max = (if cmax \<noteq> 0 then cmax else 65535),
       fw = \<lparr>frame_max = (if fmax \<noteq> 0 then fmax else 131072), bytes_sent = 0, buffer_store = [],
             transport = unconnected\<rparr>,
       fh = frame_handler_init 0, has_transport = False, has_frame_writer = False,
       has_inbound = False, handshake_complete = False, fresh_transport = ft, dial = dials,
       authentication = auth, client_properties = props, server_properties = VDict [],
       server_version = (VInt 0, VInt 0), mechanisms = [], locales = [], locale_name = loc,
       virtual_host = vhost, confirm_publish = confirm, on_blocked = blocked_cb,
       on_unblocked = unblocked_cb, client_heartbeat = hb, server_heartbeat = 0, heartbeat = 0,
       prev_sent = None, prev_recv = None, last_heartbeat_sent = 0, last_heartbeat_received = 0,
       clock = readings, log = []\<rparr>)"

end
