(* ===== verification/Samples.thy ===== *)
theory Samples
  imports Connection Framing_Roundtrip
begin

text \<open>
  Concrete values at which the properties are instantiated: a connected transport, a frame
  writer, a content.
\<close>

definition sample_socket :: "recv_event list \<Rightarrow> socket" where
  "sample_socket evs =
     \<lparr>incoming = evs, send_events = [], outgoing = [], sock_timeout = None, sock_opts = [],
      fd_flags = 0, fcntl_error = None, connect_error = None,
      opt_error = (\<lambda>_ _. None), unwrap_error = None, shutdown_error = None, close_error = None\<rparr>"

definition sample_transport :: "recv_event list \<Rightarrow> tcp_transport" where
  "sample_transport evs =
     \<lparr>is_ssl = False, windows = False, connected = True, sock = Some (sample_socket evs),
      raise_on_initial_eintr = True, sslopts = no_ssl_opts, read_buffer = [], host = pys ''localhost'', port = 5672,
      connect_timeout = None, read_timeout = None, write_timeout = None, socket_settings = []\<rparr>"

definition sample_writer :: "int \<Rightarrow> tcp_transport frame_writer" where
  "sample_writer fmax =
     \<lparr>frame_max = fmax, bytes_sent = 0, buffer_store = [], transport = sample_transport []\<rparr>"

definition no_codecs :: codecs where
  "no_codecs enc s = Inl LookupError"

definition sample_message :: message where
  "sample_message = message_init None [] (VBytes (replicate 9 1)) [(''delivery_mode'', VInt 2)]"

lemma sample_parts:
  "content_parts no_codecs sample_message = (Inr (replicate 9 1, [16, 0, 2]), sample_message)"
  by code_simp

lemma sample_readable: "props_readable (properties sample_message) PROPERTIES"
  by code_simp

text \<open>The bytes a writer with a frame size of 16 sends for it.\<close>

definition sample_wire :: bytes where
  "sample_wire =
    [1, 0, 1, 0, 0, 0, 6, 0, 60, 0, 60, 7, 8, 206] @
    [2, 0, 1, 0, 0, 0, 15, 0, 60, 0, 0, 0, 0, 0, 0, 0, 0, 0, 9, 16, 0, 2, 206] @
    [3, 0, 1, 0, 0, 0, 8] @ replicate 8 1 @ [206] @ [3, 0, 1, 0, 0, 0, 1, 1, 206]"

lemma sample_sent:
  "\<exists>s'. write_frame no_codecs write_bytes 1 1 (Some Basic_Deliver) (VBytes [7, 8])
     (Some sample_message) (sample_writer 16) = (Inr (), s', Some sample_message)
   \<and> sent_bytes (transport s') = sample_wire"
proof -
  let ?w = "write_frame no_codecs write_bytes 1 1 (Some Basic_Deliver) (VBytes [7, 8])
     (Some sample_message) (sample_writer 16)"
  have "fst ?w = Inr ()" "sent_bytes (transport (fst (snd ?w))) = sample_wire"
    "snd (snd ?w) = Some sample_message"
    by code_simp+
  then show ?thesis by (cases ?w) auto
qed

section \<open>A client\<close>

definition sample_net :: net where
  "sample_net =
     \<lparr>sock_consts = (\<lambda>_. None), sock_getopt = (\<lambda>_. 0), tcp_opts = [''TCP_NODELAY''],
      fcntl_module = Some (Some 1),
      ssl_module = \<lparr>HAS_SNI = True, chain_error = (\<lambda>_ _. None), ca_error = (\<lambda>_. None),
        cipher_error = (\<lambda>_. None)\<rparr>,
      do_handshake = (\<lambda>_. Inr)\<rparr>"

definition sample_env :: env where
  "sample_env =
     \<lparr>codecs = no_codecs, decoders = (\<lambda>_ _. Inl LookupError), app = (\<lambda>_ _. retA ()),
      net_of = sample_net,
      negotiate_capabilities = [(pys ''consumer_cancel_notify'', True)]\<rparr>"

text \<open>A new client that has nowhere to connect to.\<close>

definition sample_new :: world where
  "sample_new = projr (connection_init (Inr []) None [] [] (sample_transport []) [] [] [] 2 0 0 False
     None None None)"

lemma sample_new_init:
  "connection_init (Inr []) None [] [] (sample_transport []) [] [] [] 2 0 0 False None None None
    = Inr sample_new"
  by (simp add: sample_new_def connection_init_def)

text \<open>A connected client with one open channel, reading what \<open>evs\<close> holds.\<close>

definition sample_client :: "recv_event list \<Rightarrow> world" where
  "sample_client evs = sample_new
     \<lparr>objects := (objects sample_new)(1 := (connection_obj None)\<lparr>channel_id := Some 1, is_open := True\<rparr>),
      next_ref := 2, channels := Some [(0, 0), (1, 1)], used_channel_ids := [1],
      fw := (sample_writer 64)\<lparr>transport := sample_transport evs\<rparr>,
      has_transport := True, has_frame_writer := True, has_inbound := True, handshake_complete := True\<rparr>"

lemmas sample_client_defs = sample_client_def sample_new_def connection_init_def connection_obj_def
  unallocated_def sample_writer_def sample_transport_def sample_socket_def frame_handler_init_def

lemma sample_client_simps [simp]:
  "conn_ref (objects (sample_client evs) (Suc 0))" "\<not> is_closing (objects (sample_client evs) (Suc 0))"
  "pending (objects (sample_client evs) (Suc 0)) = []" "channels (sample_client evs) = Some [(0, 0), (1, 1)]"
  "transport (fw (sample_client evs)) = sample_transport evs" "expected_types (fh (sample_client evs)) ch = 1"
  "has_transport (sample_client evs)" "has_inbound (sample_client evs)" "has_frame_writer (sample_client evs)"
  by (simp_all add: sample_client_def sample_new_def connection_init_def connection_obj_def frame_handler_init_def)

lemma sample_steady: "steady_transport (sample_transport [Data d])" "unread (sample_transport [Data d]) = d"
  if "d \<noteq> []"
  using that
  by (simp_all add: steady_transport_def steady_def sample_transport_def sample_socket_def unread_def sock_data_def)

definition consuming_client :: "recv_event list \<Rightarrow> world" where
  "consuming_client evs = upd_obj 1 (\<lambda>c. c\<lparr>callbacks := [([116], Some 4)]\<rparr>) (sample_client evs)"

text \<open>What a server sends to deliver the content to its consumer.\<close>

definition sample_delivery :: bytes where
  "sample_delivery =
    [1, 0, 1, 0, 0, 0, 19, 0, 60, 0, 60, 1, 116, 0, 0, 0, 0, 0, 0, 0, 7, 0, 1, 101, 1, 107, 206] @
    [2, 0, 1, 0, 0, 0, 15, 0, 60, 0, 0, 0, 0, 0, 0, 0, 0, 0, 9, 16, 0, 2, 206] @
    [3, 0, 1, 0, 0, 0, 9] @ replicate 9 1 @ [206]"

lemma sample_delivery_sent:
  "\<exists>s' m'. write_frame no_codecs write_bytes 1 1 (Some Basic_Deliver)
     (VBytes [1, 116, 0, 0, 0, 0, 0, 0, 0, 7, 0, 1, 101, 1, 107]) (Some sample_message) (sample_writer 64)
     = (Inr (), s', m') \<and> sent_bytes (transport s') = sample_delivery"
proof -
  let ?w = "write_frame no_codecs write_bytes 1 1 (Some Basic_Deliver)
     (VBytes [1, 116, 0, 0, 0, 0, 0, 0, 0, 7, 0, 1, 101, 1, 107]) (Some sample_message) (sample_writer 64)"
  have "fst ?w = Inr ()" "sent_bytes (transport (fst (snd ?w))) = sample_delivery" by code_simp+
  then show ?thesis by (cases ?w) auto
qed

text \<open>What it sends in answer to a Get.\<close>

definition sample_get_ok :: bytes where
  "sample_get_ok =
    [1, 0, 1, 0, 0, 0, 21, 0, 60, 0, 71, 0, 0, 0, 0, 0, 0, 0, 7, 0, 1, 101, 1, 107, 0, 0, 0, 3, 206] @
    [2, 0, 1, 0, 0, 0, 15, 0, 60, 0, 0, 0, 0, 0, 0, 0, 0, 0, 9, 16, 0, 2, 206] @
    [3, 0, 1, 0, 0, 0, 9] @ replicate 9 1 @ [206]"

lemma sample_get_ok_sent:
  "\<exists>s' m'. write_frame no_codecs write_bytes 1 1 (Some Basic_GetOk)
     (VBytes [0, 0, 0, 0, 0, 0, 0, 7, 0, 1, 101, 1, 107, 0, 0, 0, 3]) (Some sample_message) (sample_writer 64)
     = (Inr (), s', m') \<and> sent_bytes (transport s') = sample_get_ok"
proof -
  let ?w = "write_frame no_codecs write_bytes 1 1 (Some Basic_GetOk)
     (VBytes [0, 0, 0, 0, 0, 0, 0, 7, 0, 1, 101, 1, 107, 0, 0, 0, 3]) (Some sample_message) (sample_writer 64)"
  have "fst ?w = Inr ()" "sent_bytes (transport (fst (snd ?w))) = sample_get_ok" by code_simp+
  then show ?thesis by (cases ?w) auto
qed

text \<open>What it sends when a message cannot be routed.\<close>

definition sample_return :: bytes where
  "sample_return =
    [1, 0, 1, 0, 0, 0, 11, 0, 60, 0, 50, 1, 56, 1, 78, 0, 1, 107, 206] @
    [2, 0, 1, 0, 0, 0, 15, 0, 60, 0, 0, 0, 0, 0, 0, 0, 0, 0, 9, 16, 0, 2, 206] @
    [3, 0, 1, 0, 0, 0, 9] @ replicate 9 1 @ [206]"

lemma sample_return_sent:
  "\<exists>s' m'. write_frame no_codecs write_bytes 1 1 (Some Basic_Return)
     (VBytes [1, 56, 1, 78, 0, 1, 107]) (Some sample_message) (sample_writer 64)
     = (Inr (), s', m') \<and> sent_bytes (transport s') = sample_return"
proof -
  let ?w = "write_frame no_codecs write_bytes 1 1 (Some Basic_Return)
     (VBytes [1, 56, 1, 78, 0, 1, 107]) (Some sample_message) (sample_writer 64)"
  have "fst ?w = Inr ()" "sent_bytes (transport (fst (snd ?w))) = sample_return" by code_simp+
  then show ?thesis by (cases ?w) auto
qed

text \<open>One that publishes with confirms, and one that has lost its connection.\<close>

definition confirming_client :: "recv_event list \<Rightarrow> world" where
  "confirming_client evs = upd_obj 1 (\<lambda>c. c\<lparr>confirm_selected := True\<rparr>) (sample_client evs)"

definition dropped_client :: world where
  "dropped_client = (sample_client [])
     \<lparr>has_transport := False, fresh_transport := Some ((sample_transport [])\<lparr>connected := False, sock := None\<rparr>),
      dial := [Inr [Inr (sample_socket [])]]\<rparr>"

text \<open>
  One that has nowhere been connected yet, and a server that sends Start (offering mechanism A),
  Tune (5 channels, frames of 64 octets, a heartbeat of 7 seconds) and OpenOk.
\<close>

definition sample_start :: bytes where
  "sample_start = [0, 10, 0, 10, 0, 9, 0, 0, 0, 0, 0, 0, 0, 1, 65, 0, 0, 0, 0]"
definition sample_tune :: bytes where
  "sample_tune = [0, 10, 0, 30, 0, 5, 0, 0, 0, 64, 0, 7]"
definition sample_open_ok :: bytes where
  "sample_open_ok = [0, 10, 0, 41]"

definition sample_server :: bytes where
  "sample_server = [1, 0, 0, 0, 0, 0, 19] @ sample_start @ [206] @ [1, 0, 0, 0, 0, 0, 12] @ sample_tune @ [206]
     @ [1, 0, 0, 0, 0, 0, 4] @ sample_open_ok @ [206]"

definition sample_unconnected :: world where
  "sample_unconnected = sample_new
     \<lparr>fw := (fw sample_new)\<lparr>frame_max := 64\<rparr>, authentication := [EXTERNAL, RAW [65] [66]], client_heartbeat := 9,
      fresh_transport := Some ((sample_transport [])\<lparr>connected := False, sock := None\<rparr>),
      dial := [Inr [Inr (sample_socket [Data (take 30 sample_server), Data (drop 30 sample_server)])]]\<rparr>"

text \<open>One that has no mechanism the server offers.\<close>

definition sample_unwelcome :: world where
  "sample_unwelcome = sample_unconnected\<lparr>authentication := [EXTERNAL]\<rparr>"

end
