(* ===== verification/Framing_Spec.thy ===== *)
theory Framing_Spec
  imports Framing_Inbound
begin

text \<open>
  What \<open>frame_handler\<close> promises, as an automaton of three phases for each channel, without
  tables or partially built messages; \<open>on_frame\<close> implements it.
\<close>

section \<open>The automaton\<close>

text \<open>
  \<open>Awaiting_body\<close>: the announced size of the body and what has arrived of it. A delivered
  content is its properties and its body.
\<close>

datatype phase =
    Idle
  | Awaiting_header method_sig bytes
  | Awaiting_body method_sig bytes props nat bytes

type_synonym delivered = "method_sig \<times> bytes \<times> (props \<times> pyval) option"

definition parse_header :: "bytes \<Rightarrow> exn + nat \<times> props" where
  "parse_header buf =
     bindE (sunpack_u 2 buf 0) (\<lambda>class_id. bindE (sunpack_u 8 buf 4) (\<lambda>n.
     if class_id \<noteq> 60 then Inl KeyError
     else bindE (decode_properties_basic buf 12) (\<lambda>(props, _). Inr (nat n, props))))"

definition unexpected :: exn where
  "unexpected = raise_amqp UnexpectedFrame ''Received frame {} while expecting type: {}''"

definition phase_step :: "phase \<Rightarrow> int \<times> bytes \<Rightarrow> (exn + delivered option) \<times> phase" where
  "phase_step p = (\<lambda>(t, buf).
    if t = 8 then (Inr None, p)
    else case p of
      Idle \<Rightarrow>
        if t \<noteq> 1 then (Inl unexpected, p)
        else (case unpack_sig buf of
          Inl e \<Rightarrow> (Inl e, p)
        | Inr sig \<Rightarrow> if sig \<in> set CONTENT_METHODS then (Inr None, Awaiting_header sig buf)
                     else (Inr (Some (sig, buf, None)), Idle))
    | Awaiting_header sig a \<Rightarrow>
        if t \<noteq> 2 then (Inl unexpected, p)
        else (case parse_header buf of
          Inl e \<Rightarrow> (Inl e, p)
        | Inr (n, props) \<Rightarrow>
            if n = 0 then (Inr (Some (sig, a, Some (props, VStr []))), Idle)
            else (Inr None, Awaiting_body sig a props n []))
    | Awaiting_body sig a props n got \<Rightarrow>
        if t \<noteq> 3 then (Inl unexpected, p)
        else if length (got @ buf) \<ge> n then (Inr (Some (sig, a, Some (props, VBytes (got @ buf)))), Idle)
        else (Inr None, Awaiting_body sig a props n (got @ buf)))"

fun phase_run :: "phase \<Rightarrow> (int \<times> bytes) list \<Rightarrow> (exn + delivered option) list" where
  "phase_run p [] = []"
| "phase_run p (f # fs) = (case phase_step p f of (r, p') \<Rightarrow> r # phase_run p' fs)"

section \<open>The abstraction\<close>

definition phase_of :: "frame_handler \<Rightarrow> int \<Rightarrow> phase" where
  "phase_of h ch = (case partial_messages h ch of
     None \<Rightarrow> Idle
   | Some m \<Rightarrow>
       if expected_types h ch = 2 then Awaiting_header (the (frame_method m)) (frame_args m)
       else Awaiting_body (the (frame_method m)) (frame_args m) (properties m) (body_size m)
              (concat (pending_chunks m)))"

definition delivered_of :: "delivery \<Rightarrow> delivered" where
  "delivered_of = (\<lambda>(ch, sig, a, content). (sig, a, map_option (\<lambda>m. (properties m, body m)) content))"

definition outcome_of :: "exn + delivery option \<Rightarrow> exn + delivered option" where
  "outcome_of r = (case r of Inl e \<Rightarrow> Inl e | Inr d \<Rightarrow> Inr (map_option delivered_of d))"

lemma inbound_header_parse:
  "inbound_header buf 0 m = (case parse_header buf of
     Inl e \<Rightarrow> (Inl e, snd (inbound_header buf 0 m))
   | Inr (n, props) \<Rightarrow> (Inr 12, m\<lparr>body_size := n, properties := props, ready := ready m \<or> n = 0\<rparr>))"
  by (cases "ready m")
    (auto simp: inbound_header_def parse_header_def bindA_def load_properties_def PROPERTY_CLASSES_def
      Basic_CLASS_ID_def bindE_def split: sum.splits option.splits prod.splits if_splits)

lemma inbound_header_failed:
  assumes "parse_header buf = Inl e"
  shows "frame_method (snd (inbound_header buf 0 m)) = frame_method m
    \<and> frame_args (snd (inbound_header buf 0 m)) = frame_args m"
  using assms
  by (auto simp: inbound_header_def parse_header_def bindA_def load_properties_def PROPERTY_CLASSES_def
      Basic_CLASS_ID_def bindE_def split: sum.splits option.splits prod.splits if_splits)

section \<open>One frame\<close>

lemma phase_of_upd [simp]:
  "phase_of (s\<lparr>bytes_recv := n\<rparr>) ch = phase_of s ch"
  "phase_of (set_partial ch None s) ch = Idle"
  "phase_of (set_expected ch e (set_partial ch (Some m) s)) ch =
     (if e = 2 then Awaiting_header (the (frame_method m)) (frame_args m)
      else Awaiting_body (the (frame_method m)) (frame_args m) (properties m) (body_size m)
             (concat (pending_chunks m)))"
  "phase_of (set_partial ch (Some m) s) ch =
     (if expected_types s ch = 2 then Awaiting_header (the (frame_method m)) (frame_args m)
      else Awaiting_body (the (frame_method m)) (frame_args m) (properties m) (body_size m)
             (concat (pending_chunks m)))"
  by (simp_all add: phase_of_def set_partial_def set_expected_def split: option.split)

lemma content_done_eq:
  "frame_method m = Some sig \<Longrightarrow>
   content_done ch m s = (Inr (Some (ch, sig, frame_args m, Some m)), set_partial ch None (set_expected ch 1 s))"
  by (simp add: content_done_def)

lemmas refine_simps = outcome_of_def delivered_of_def phase_step_def unexpected_def

text \<open>A frame of type 8, and one of a type the channel does not expect.\<close>

lemma on_frame_refines_other:
  assumes "channel_ok h ch" and "t \<noteq> expected_types h ch" and "on_frame (t, ch, buf) h = (r, h')"
  shows "phase_step (phase_of h ch) (t, buf) = (outcome_of r, phase_of h' ch)"
  using assms(1)
proof (cases rule: channel_cases)
  case idle
  then show ?thesis using assms(2,3) on_frame_reject [OF assms(2), of buf]
    by (auto simp: refine_simps phase_of_def)
next
  case (header m)
  then show ?thesis using assms(2,3) on_frame_reject [OF assms(2), of buf]
    by (auto simp: refine_simps phase_of_def)
next
  case (body m)
  then show ?thesis using assms(2,3) on_frame_reject [OF assms(2), of buf]
    by (auto simp: refine_simps phase_of_def)
qed

lemma on_frame_refines:
  assumes ok: "channel_ok h ch" and f: "on_frame (t, ch, buf) h = (r, h')"
  shows "phase_step (phase_of h ch) (t, buf) = (outcome_of r, phase_of h' ch)"
proof (cases "t = expected_types h ch")
  case False
  then show ?thesis by (rule on_frame_refines_other [OF ok _ f])
next
  case True
  from ok show ?thesis
  proof (cases rule: channel_cases)
    case idle
    then have "phase_of h ch = Idle" "t = 1" using True by (simp_all add: phase_of_def)
    then show ?thesis
      using f idle
      by (auto simp: on_frame_def bindA_def refine_simps message_init_def split: sum.splits if_splits)
  next
    case (header m)
    obtain sig where sig: "frame_method m = Some sig" using header(3) by (auto simp: message_ok_def)
    have p: "phase_of h ch = Awaiting_header sig (frame_args m)" "t = 2"
      using True header sig by (simp_all add: phase_of_def)
    have nr: "ready m = False" "Content.body m = VStr []" "pending_chunks m = []"
      using header(3) by (auto simp: message_ok_def)
    show ?thesis
    proof (cases "parse_header buf")
      case (Inl e)
      then show ?thesis
        using f p header sig inbound_header_parse [of buf m] inbound_header_failed [OF Inl, of m]
        by (auto simp: on_frame_header refine_simps split: prod.splits)
    next
      case (Inr np)
      obtain n props where np: "parse_header buf = Inr (n, props)" using Inr by (cases np) simp
      have ih: "inbound_header buf 0 m
          = (Inr 12, m\<lparr>body_size := n, properties := props, ready := (n = 0)\<rparr>)"
        using inbound_header_parse [of buf m] np nr by simp
      show ?thesis
        using f p header sig nr np
        by (auto simp: on_frame_header ih refine_simps content_done_eq)
    qed
  next
    case (body m)
    obtain sig where sig: "frame_method m = Some sig" using body(3) by (auto simp: message_ok_def)
    have p: "phase_of h ch = Awaiting_body sig (frame_args m) (properties m) (body_size m)
        (concat (pending_chunks m))" "t = 3"
      using True body sig by (simp_all add: phase_of_def)
    have m: "ready m = False" "body_received m = length (concat (pending_chunks m))"
      using body(3) by (auto simp: message_ok_def)
    let ?b = "concat (pending_chunks m) @ buf"
    let ?m = "inbound_body buf m"
    have m': "ready ?m = (body_size m \<le> length ?b)"
      "frame_method ?m = Some sig" "frame_args ?m = frame_args m" "properties ?m = properties m"
      "body_size ?m = body_size m" "ready ?m \<Longrightarrow> Content.body ?m = VBytes ?b"
      "\<not> ready ?m \<Longrightarrow> concat (pending_chunks ?m) = ?b"
      using m sig by (auto simp: inbound_body_def Let_def)
    show ?thesis
      using f p body m'
      by (cases "ready ?m") (auto simp: on_frame_body Let_def refine_simps content_done_eq)
  qed
qed

section \<open>Any run\<close>

lemma phase_run_refines:
  assumes "handler_ok h"
  shows "map outcome_of (fst (run_frames (map (\<lambda>(t, buf). (t, ch, buf)) fs) h))
    = phase_run (phase_of h ch) fs"
  using assms
proof (induction fs arbitrary: h)
  case Nil
  then show ?case by simp
next
  case (Cons f fs)
  obtain t buf where f: "f = (t, buf)" by (cases f)
  obtain r h' where h': "on_frame (t, ch, buf) h = (r, h')" by (cases "on_frame (t, ch, buf) h")
  have "phase_step (phase_of h ch) f = (outcome_of r, phase_of h' ch)"
    using on_frame_refines [OF _ h'] Cons.prems by (simp add: handler_ok_def f)
  then show ?case
    using Cons.IH [OF on_frame_ok [OF Cons.prems h']] by (simp add: f h' split_beta)
qed

lemma frames_of_map: "frames_of ch fs = map (\<lambda>(t, buf). (t, ch, buf)) (map (\<lambda>(t, _, buf). (t, buf)) (frames_of ch fs))"
  by (induction fs) (auto simp: frames_of_def)

lemma run_refines:
  "map outcome_of (results_of ch fs (fst (run_frames fs (frame_handler_init n))))
    = phase_run Idle (map (\<lambda>(t, _, buf). (t, buf)) (frames_of ch fs))"
proof -
  let ?h = "frame_handler_init n"
  have "results_of ch fs (fst (run_frames fs ?h)) = fst (run_frames (frames_of ch fs) ?h)"
    using run_frames_local [of ch ?h ?h fs] by (simp add: same_channel_def)
  then show ?thesis
    using phase_run_refines [OF handler_init_ok, of ch "map (\<lambda>(t, _, buf). (t, buf)) (frames_of ch fs)" n]
    unfolding frames_of_map [symmetric] by (simp add: phase_of_def frame_handler_init_def)
qed

end
