(* ===== verification/No_Fuel.thy ===== *)
theory No_Fuel
  imports Connection
begin

text \<open>
  \<open>OutOfFuel\<close> belongs to the fuelled loops only: no codec, no frame handler and no transport
  operation returns it. These are the leaves of the termination argument for the event loop.
\<close>

named_theorems no_fuel \<open>results that are not OutOfFuel\<close>

lemma bindE_no_fuel [no_fuel]:
  "m \<noteq> Inl OutOfFuel \<Longrightarrow> (\<And>x. m = Inr x \<Longrightarrow> f x \<noteq> Inl OutOfFuel) \<Longrightarrow> bindE m f \<noteq> Inl OutOfFuel"
  by (cases m) auto

lemma get_or_no_fuel [no_fuel]: "e \<noteq> OutOfFuel \<Longrightarrow> get_or e m \<noteq> Inl OutOfFuel"
  by (cases m) auto

lemma raise_amqp_no_fuel [simp]: "raise_amqp c t \<noteq> OutOfFuel"
  by (simp add: raise_amqp_def)

lemma io_exn_no_fuel [simp]: "io_exn e \<noteq> OutOfFuel"
  by (cases e) auto

lemma struct_no_fuel [no_fuel]:
  "spack_u n v \<noteq> Inl OutOfFuel" "spack_s n v \<noteq> Inl OutOfFuel"
  "sunpack_u n buf off \<noteq> Inl OutOfFuel" "sunpack_s n buf off \<noteq> Inl OutOfFuel"
  "pstr_t raw \<noteq> Inl OutOfFuel"
  by (simp_all add: spack_u_def spack_s_def sunpack_u_def sunpack_s_def pstr_t_def get_or_def
      split: option.split)

lemma with_length_no_fuel [no_fuel]: "with_length n b \<noteq> Inl OutOfFuel"
  by (auto simp: with_length_def bindE_eq_Inl struct_no_fuel)

lemma write_key_no_fuel [no_fuel]: "write_key k \<noteq> Inl OutOfFuel"
  by (cases k) (auto simp: write_key_def with_length_no_fuel)

lemma value_error_as_no_fuel [no_fuel]:
  "r \<noteq> Inl OutOfFuel \<Longrightarrow> value_error_as t r \<noteq> Inl OutOfFuel"
  by (auto simp: value_error_as_def split: sum.splits)

lemma write_item_no_fuel [no_fuel]:
  "write_item v \<noteq> Inl OutOfFuel"
  "write_entries kvs \<noteq> Inl OutOfFuel"
  "write_elems vs \<noteq> Inl OutOfFuel"
  by (induction v and kvs and vs rule: write_item_write_entries_write_elems.induct)
    (auto simp: bindE_eq_Inl split: decimal.splits
      dest: no_fuel [THEN notE])

lemma table_no_fuel [no_fuel]:
  "write_table d \<noteq> Inl OutOfFuel" "write_array xs \<noteq> Inl OutOfFuel"
  by (auto simp: write_table_def write_array_def bindE_eq_Inl with_length_no_fuel write_item_no_fuel)

lemma flushbits_no_fuel [no_fuel]: "flushbits bits \<noteq> Inl OutOfFuel"
  by (induction bits) (auto simp: bindE_eq_Inl struct_no_fuel)

lemma f64_to_int_no_fuel: "f64_to_int w \<noteq> Inl OutOfFuel"
  by (auto simp: f64_to_int_def Let_def split: prod.splits if_splits)

lemma values_no_fuel [no_fuel]:
  "as_index v \<noteq> Inl OutOfFuel" "py_int v \<noteq> Inl OutOfFuel" "as_float v \<noteq> Inl OutOfFuel"
  "f64_to_f32 w \<noteq> Inl OutOfFuel" "py_iter v \<noteq> Inl OutOfFuel"
  subgoal by (cases v) auto
  subgoal by (cases v rule: py_int.cases) (auto simp: f64_to_int_no_fuel get_or_def split: option.splits)
  subgoal by (cases v) (auto simp: Let_def split: if_splits)
  subgoal by (auto simp: f64_to_f32_def Let_def split: if_splits prod.splits)
  subgoal by (cases v) auto
  done

lemma dump_str_no_fuel [no_fuel]: "dump_str n v \<noteq> Inl OutOfFuel"
  by (auto simp: dump_str_def bindE_eq_Inl struct_no_fuel with_length_no_fuel split: pyval.splits)

lemma emit_no_fuel [no_fuel]: "d \<noteq> Inl OutOfFuel \<Longrightarrow> emit st d \<noteq> Inl OutOfFuel"
  by (cases st) (auto simp: emit_def bindE_eq_Inl flushbits_no_fuel)

lemma dumps_step_no_fuel [no_fuel]: "dumps_step p v st \<noteq> Inl OutOfFuel"
  by (cases st) (simp add: dumps_step_def Let_def emit_no_fuel bindE_no_fuel struct_no_fuel
      values_no_fuel dump_str_no_fuel table_no_fuel split: pyval.split)

lemma dumps_no_fuel [no_fuel]: "dumps fmt vs \<noteq> Inl OutOfFuel"
proof -
  have "dumps_loop fmt vs st \<noteq> Inl OutOfFuel" for st
    by (induction fmt vs st rule: dumps_loop.induct) (auto simp: bindE_eq_Inl dumps_step_no_fuel)
  then show ?thesis by (auto simp: dumps_def bindE_eq_Inl flushbits_no_fuel)
qed

lemma loads_no_fuel [no_fuel]: "loads fmt buf off \<noteq> Inl OutOfFuel"
  by (simp add: loads_def loads_loop_no_fuel)

section \<open>Contents and frames\<close>

lemma read_prop_no_fuel [no_fuel]:
  "read_prop_s fl buf m n st \<noteq> Inl OutOfFuel" "read_prop_F fl buf m n st \<noteq> Inl OutOfFuel"
  "read_prop_int k fl buf m n st \<noteq> Inl OutOfFuel"
  by (auto simp: read_prop_s_def read_prop_F_def read_prop_int_def bindE_eq_Inl struct_no_fuel
      loads_no_fuel split: prod.splits list.splits if_splits)

lemma decode_properties_no_fuel [no_fuel]: "decode_properties_basic buf off \<noteq> Inl OutOfFuel"
  unfolding decode_properties_basic_def
  by (intro bindE_no_fuel struct_no_fuel read_prop_no_fuel)

lemma inbound_header_no_fuel [no_fuel]: "fst (inbound_header buf off m) \<noteq> Inl OutOfFuel"
  by (auto simp: inbound_header_def bindA_def load_properties_def PROPERTY_CLASSES_def bindE_eq_Inl
      struct_no_fuel decode_properties_no_fuel split: sum.splits prod.splits option.splits if_splits)

lemma on_frame_no_fuel [no_fuel]: "fst (on_frame f s) \<noteq> Inl OutOfFuel"
proof -
  obtain t ch buf where f: "f = (t, ch, buf)" by (cases f)
  have "unpack_sig buf \<noteq> Inl OutOfFuel"
    by (auto simp: unpack_sig_def bindE_eq_Inl struct_no_fuel)
  moreover have "inbound_header buf 0 m \<noteq> (Inl OutOfFuel, m')" for m m'
    using inbound_header_no_fuel [of buf 0 m] by auto
  ultimately show ?thesis
    by (auto simp: f on_frame_defs split: sum.splits prod.splits option.splits if_splits)
qed

text \<open>The writer, if the codecs of the registry do not return it either.\<close>

lemma pack_frame_no_fuel [no_fuel]: "pack_frame t ch p \<noteq> Inl OutOfFuel"
  by (auto simp: pack_frame_def bindE_eq_Inl struct_no_fuel)

lemma payload_no_fuel [no_fuel]:
  "method_payload t sig args \<noteq> Inl OutOfFuel" "header_payload sig n props \<noteq> Inl OutOfFuel"
  "body_chunks b c \<noteq> Inl OutOfFuel"
  by (auto simp: method_payload_def header_payload_def body_chunks_def as_bytes_def Let_def bindE_eq_Inl
      struct_no_fuel split: option.splits pyval.splits if_splits)

lemma serialize_properties_no_fuel [no_fuel]: "serialize_properties msg \<noteq> Inl OutOfFuel"
proof -
  have "pack_flags fl \<noteq> Inl OutOfFuel" for fl
    by (induction fl) (auto simp: bindE_eq_Inl struct_no_fuel)
  moreover have "serialize_loop (properties msg) PROPERTIES 15 0 [] [] [] \<noteq> Inl OutOfFuel"
    using serialize_loop_eq [of PROPERTIES 15 "properties msg" 0 "[]" "[]" "[]"]
    by (simp add: PROPERTIES_def)
  ultimately show ?thesis
    by (auto simp: serialize_properties_def bindE_eq_Inl dumps_no_fuel)
qed

definition codecs_ok :: "codecs \<Rightarrow> bool" where
  "codecs_ok c \<longleftrightarrow> (\<forall>enc s. c enc s \<noteq> Inl OutOfFuel)"

lemma content_parts_no_fuel [no_fuel]:
  assumes "codecs_ok c" shows "fst (content_parts c msg) \<noteq> Inl OutOfFuel"
proof -
  have "py_encode c s enc \<noteq> Inl OutOfFuel" for s enc
    using assms by (auto simp: py_encode_def codecs_ok_def get_or_def split: pyval.splits option.splits)
  then show ?thesis
    by (auto simp: content_parts_def encode_body_def bindA_def as_bytes_def serialize_properties_no_fuel
        split: sum.splits prod.splits pyval.splits)
qed

lemma send_loop_no_fuel [no_fuel]: "fst (send_loop ssl s evs) \<noteq> Inl OutOfFuel"
  by (induction ssl s evs rule: send_loop.induct)
    (auto split: send_event.splits prod.splits if_splits simp: Let_def)

lemma write_bytes_no_fuel [no_fuel]: "fst (write_bytes d t) \<noteq> Inl OutOfFuel"
  using send_loop_no_fuel [of "is_ssl t" d]
  by (auto simp: write_bytes_def write_raw_def split: sum.splits prod.splits option.splits if_splits)
    (metis fst_conv)

end
