(* ===== verification/Effects.thy ===== *)
theory Effects
  imports No_Fuel
begin

text \<open>
  A rule-based way to bound what an action may do: \<open>holds R X m\<close> says that \<open>m\<close> relates the
  states before and after it by \<open>R\<close>, whatever it returns or raises, and that an exception it
  raises is allowed by \<open>X\<close> in the state it started from; \<open>bad\<close> are the exceptions \<open>X\<close> may
  restrict. With \<open>R\<close> reflexive and transitive the
  judgement follows the structure of a program.
\<close>

definition holds :: "('s \<Rightarrow> 's \<Rightarrow> bool) \<Rightarrow> ('s \<Rightarrow> 'e \<Rightarrow> bool) \<Rightarrow> ('s, 'e, 'a) act \<Rightarrow> bool" where
  "holds R X m \<longleftrightarrow> (\<forall>s r s'. m s = (r, s') \<longrightarrow> R s s' \<and> (\<forall>e. r = Inl e \<longrightarrow> X s e))"

lemma holdsI:
  "(\<And>s r s'. m s = (r, s') \<Longrightarrow> R s s') \<Longrightarrow> (\<And>s e s'. m s = (Inl e, s') \<Longrightarrow> X s e) \<Longrightarrow> holds R X m"
  by (auto simp: holds_def)

lemma holdsD:
  assumes "holds R X m" and "m s = (r, s')"
  shows "R s s'" and "\<And>e. r = Inl e \<Longrightarrow> X s e"
  using assms by (auto simp: holds_def)

lemma holds_Inl: "holds R X m \<Longrightarrow> m s = (Inl e, s') \<Longrightarrow> X s e"
  by (auto simp: holds_def)

locale effect =
  fixes R :: "'s \<Rightarrow> 's \<Rightarrow> bool" and X :: "'s \<Rightarrow> 'e \<Rightarrow> bool" and bad :: "'e \<Rightarrow> bool"
  assumes refl: "R s s" and trans: "R s t \<Longrightarrow> R t u \<Longrightarrow> R s u"
    and upward: "R s t \<Longrightarrow> X t e \<Longrightarrow> X s e"
    and raise_ok: "\<not> bad e \<Longrightarrow> X s e"
begin

lemma ret [intro]: "holds R X (retA x)"
  by (rule holdsI) (auto intro: refl)

lemma raise [intro]: "\<not> bad e \<Longrightarrow> holds R X (raiseA e)"
  by (rule holdsI) (auto intro: refl raise_ok)

lemma get [intro]: "holds R X (getA f)"
  by (rule holdsI) (auto intro: refl)

lemma lift [intro]: "(\<And>e. r = Inl e \<Longrightarrow> \<not> bad e) \<Longrightarrow> holds R X (liftA r)"
  by (rule holdsI) (auto intro: refl raise_ok)

lemma modify [intro]: "(\<And>s. R s (f s)) \<Longrightarrow> holds R X (modA f)"
  by (rule holdsI) auto

lemma bind [intro]:
  assumes "holds R X m" and "\<And>x. holds R X (f x)"
  shows "holds R X (bindA m f)"
proof (rule holdsI)
  fix s r s' assume "bindA m f s = (r, s')"
  then show "R s s'"
  proof (cases rule: bindA_cases)
    case (raised e)
    then show ?thesis using holdsD(1) [OF assms(1)] by simp
  next
    case (ok x t)
    show ?thesis by (rule trans [OF holdsD(1) [OF assms(1) ok(1)] holdsD(1) [OF assms(2) ok(2)]])
  qed
next
  fix s e s' assume "bindA m f s = (Inl e, s')"
  then show "X s e"
  proof (cases rule: bindA_cases)
    case (raised e')
    then show ?thesis using holds_Inl [OF assms(1) raised(1)] by simp
  next
    case (ok x t)
    show ?thesis
      by (rule upward [OF holdsD(1) [OF assms(1) ok(1)] holds_Inl [OF assms(2) ok(2)]])
  qed
qed

lemma catch [intro]:
  assumes "holds R X m" and "\<And>e. \<not> bad e \<Longrightarrow> holds R X (h e)"
    and "\<And>e. bad e \<Longrightarrow> h e = raiseA e"
  shows "holds R X (catchA m h)"
proof (rule holdsI)
  fix s r s' assume 1: "catchA m h s = (r, s')"
  obtain q t where q: "m s = (q, t)" by (cases "m s")
  have Rt: "R s t" using holdsD(1) [OF assms(1) q] .
  show "R s s'"
  proof (cases q)
    case (Inl e)
    show ?thesis
      using 1 q Inl Rt assms(2) [of e, THEN holdsD(1)] assms(3) trans
      by (cases "bad e") (auto simp: catchA_def)
  qed (use 1 q Rt in \<open>auto simp: catchA_def\<close>)
next
  fix s e s' assume 1: "catchA m h s = (Inl e, s')"
  obtain q t where q: "m s = (q, t)" by (cases "m s")
  have Rt: "R s t" using holdsD(1) [OF assms(1) q] .
  show "X s e"
  proof (cases q)
    case (Inl e')
    show ?thesis
    proof (cases "bad e'")
      case True
      then show ?thesis
        using 1 q Inl holdsD(2) [OF assms(1) q Inl] assms(3) by (simp add: catchA_def)
    next
      case False
      then show ?thesis
        using 1 q Inl Rt holdsD(2) [OF assms(2) [OF False]] upward by (auto simp: catchA_def)
    qed
  qed (use 1 q in \<open>auto simp: catchA_def\<close>)
qed

lemma final [intro]:
  assumes "holds R X m" and "\<And>s. R s (f s)" shows "holds R X (finallyA m f)"
proof (rule holdsI)
  fix s r s' assume "finallyA m f s = (r, s')"
  then obtain t where "m s = (r, t)" "s' = f t" by (auto simp: finallyA_def split: prod.splits)
  then show "R s s'" using holdsD(1) [OF assms(1)] assms(2) trans by blast
next
  fix s e s' assume "finallyA m f s = (Inl e, s')"
  then obtain t where "m s = (Inl e, t)" by (auto simp: finallyA_def split: prod.splits)
  then show "X s e" using holdsD(2) [OF assms(1)] by blast
qed

lemma forA [intro]: "(\<And>x. x \<in> set xs \<Longrightarrow> holds R X (f x)) \<Longrightarrow> holds R X (forA xs f)"
proof (induction xs)
  case Nil
  then show ?case by (intro holdsI) (auto intro: refl)
next
  case (Cons x xs)
  have "holds R X (bindA (f x) (\<lambda>_. forA xs f))" using Cons by (intro bind) auto
  moreover have "forA (x # xs) f = bindA (f x) (\<lambda>_. forA xs f)" by (simp add: fun_eq_iff)
  ultimately show ?case by simp
qed

text \<open>An action given by its result in the state, and a choice made in the state.\<close>

lemma state_fun: "(\<And>s. holds R X (f s)) \<Longrightarrow> holds R X (\<lambda>s. f s s)"
  by (auto simp: holds_def)

end

section \<open>The writer and the reader of a transport\<close>

text \<open>Writing leaves what is to be read alone; reading takes from it.\<close>

definition writes :: "tcp_transport frame_writer \<Rightarrow> tcp_transport frame_writer \<Rightarrow> bool" where
  "writes f f' \<longleftrightarrow> unread (transport f') = unread (transport f)
     \<and> steady_transport (transport f') = steady_transport (transport f)
     \<and> (sock (transport f') = None) = (sock (transport f) = None)"

definition no_exhaustion :: "'s \<Rightarrow> exn \<Rightarrow> bool" where
  "no_exhaustion s e \<longleftrightarrow> e \<noteq> OutOfFuel"

interpretation wr: effect writes no_exhaustion "\<lambda>e. e = OutOfFuel"
  by unfold_locales (auto simp: writes_def no_exhaustion_def)

lemma to_transport_writes: "holds writes no_exhaustion (to_transport (write_bytes d))"
  using write_bytes_no_fuel [of d] write_bytes_sent(2-4) [of d]
  by (intro holdsI) (auto simp: to_transport_def writes_def no_exhaustion_def split: prod.splits,
      (metis fst_conv)?)

lemma pack_next_writes: "holds writes no_exhaustion (pack_next t ch frame off)"
  by (intro holdsI)
    (auto simp: pack_next_def writes_def no_exhaustion_def bindE_eq_Inl pack_frame_no_fuel pack_into_def
      split: sum.splits if_splits)

lemma write_slow_writes:
  "holds writes no_exhaustion (write_slow write_bytes t ch sig args bdy props c)"
proof -
  have "bindE (method_payload t sig args) (pack_frame t ch) \<noteq> Inl OutOfFuel"
    "bindE (header_payload sig (length bdy) props) (pack_frame 2 ch) \<noteq> Inl OutOfFuel"
    by (auto simp: bindE_eq_Inl payload_no_fuel pack_frame_no_fuel)
  then show ?thesis
    unfolding write_slow_def send_body_frame_def
    by (auto intro!: wr.bind wr.lift wr.forA wr.ret to_transport_writes
        simp: payload_no_fuel pack_frame_no_fuel)
qed

lemma write_fast_writes:
  "holds writes no_exhaustion (write_fast write_bytes t ch sig args content c)"
  unfolding write_fast_def
  by (auto intro!: wr.bind wr.lift wr.ret wr.get wr.modify to_transport_writes pack_next_writes
      simp: payload_no_fuel writes_def split: option.split)

lemma write_frame_writes:
  assumes ok: "codecs_ok c" and w: "write_frame c write_bytes t ch sig args content f = (r, f', m)"
  shows "writes f f' \<and> r \<noteq> Inl OutOfFuel"
proof -
  note slow = holdsD(1) [OF write_slow_writes] holds_Inl [OF write_slow_writes, unfolded no_exhaustion_def]
  note fast = holdsD(1) [OF write_fast_writes] holds_Inl [OF write_fast_writes, unfolded no_exhaustion_def]
  have upd: "writes f (g\<lparr>bytes_sent := n\<rparr>)" if "writes f g" for g n
    using that by (simp add: writes_def)
  show ?thesis
  proof (cases content)
    case None
    then show ?thesis
      using w fast
      by (cases "write_fast write_bytes t ch sig (str_to_bytes args) None (frame_max f - 8) f")
        (force simp: write_frame_def Let_def split: sum.splits intro: upd)
  next
    case (Some msg)
    obtain q msg' where q: "content_parts c msg = (q, msg')" by (cases "content_parts c msg")
    have "q \<noteq> Inl OutOfFuel" using content_parts_no_fuel [OF ok, of msg] q by simp
    show ?thesis
    proof (cases q)
      case (Inl e)
      then show ?thesis
        using w Some q \<open>q \<noteq> _\<close> by (auto simp: write_frame_def Let_def intro: wr.refl)
    next
      case (Inr bp)
      obtain bdy props where bp: "q = Inr (bdy, props)" using Inr by (cases bp) auto
      let ?args = "str_to_bytes args" and ?c = "frame_max f - 8"
      show ?thesis
        using w Some q bp slow [of t ch sig ?args bdy props ?c f]
          fast [of t ch sig ?args "Some (bdy, props)" ?c f]
        by (cases "write_slow write_bytes t ch sig ?args bdy props ?c f";
            cases "write_fast write_bytes t ch sig ?args (Some (bdy, props)) ?c f")
          (force simp: write_frame_def Let_def as_bytes_def split: sum.splits pyval.splits if_splits
            intro: upd wr.refl)
    qed
  qed
qed

text \<open>Any part of a read leaves a suffix of the stream.\<close>

definition takes :: "tcp_transport \<Rightarrow> tcp_transport \<Rightarrow> bool" where
  "takes t t' \<longleftrightarrow> (\<exists>x. unread t = x @ unread t')"

lemma takes_refl [simp]: "takes t t"
  by (simp add: takes_def)

lemma takes_trans: "takes t u \<Longrightarrow> takes u v \<Longrightarrow> takes t v"
  unfolding takes_def by (metis append.assoc)

lemma takes_length: "takes t t' \<Longrightarrow> length (unread t') \<le> length (unread t)"
  by (auto simp: takes_def)

interpretation rd: effect takes no_exhaustion "\<lambda>e. e = OutOfFuel"
  by unfold_locales (auto simp: no_exhaustion_def intro: takes_trans)

text \<open>The same for exceptions that carry \<open>read_frame_buffer\<close>.\<close>

definition no_exhaustion_buf :: "'s \<Rightarrow> exn \<times> bytes \<Rightarrow> bool" where
  "no_exhaustion_buf s eb \<longleftrightarrow> fst eb \<noteq> OutOfFuel"

interpretation rdb: effect takes no_exhaustion_buf "\<lambda>eb. fst eb = OutOfFuel"
  by unfold_locales (auto simp: no_exhaustion_buf_def intro: takes_trans)

lemma with_buffer_holds:
  assumes "holds R no_exhaustion m" shows "holds R no_exhaustion_buf (with_buffer b m)"
proof (rule holdsI)
  fix t r t' assume "with_buffer b m t = (r, t')"
  then show "R t t'" by (cases rule: with_buffer_cases) (auto dest: holdsD(1) [OF assms])
next
  fix t e t' assume "with_buffer b m t = (Inl e, t')"
  then show "no_exhaustion_buf t e"
    by (cases rule: with_buffer_cases)
      (auto dest: holds_Inl [OF assms] simp: no_exhaustion_def no_exhaustion_buf_def)
qed

lemma recv_no_fuel: "fst (recv k s) \<noteq> Inl OutOfFuel"
  by (auto simp: recv_def split: list.splits recv_event.splits)

lemma read_loop_no_fuel: "fst (read_loop errnos ini n rbuf s) \<noteq> Inl OutOfFuel"
proof (induction errnos ini n rbuf s rule: read_loop.induct)
  case (1 errnos ini n rbuf s)
  then show ?case
    using recv_no_fuel [of "n - length rbuf" s]
    by (subst read_loop.simps) (auto split: sum.splits prod.splits)
qed

lemma read_n_holds: "holds takes no_exhaustion (read_n n ini)"
proof (rule holdsI)
  fix t r t' assume "read_n n ini t = (r, t')"
  from read_n_unread(1) [OF this] show "takes t t'" by (auto simp: takes_def)
next
  fix t e t' assume 1: "read_n n ini t = (Inl e, t')"
  show "no_exhaustion t e"
  proof (cases "sock t")
    case None
    then show ?thesis using 1 by (auto simp: read_n_def no_exhaustion_def split: if_splits)
  next
    case (Some s)
    then show ?thesis
      using 1 read_loop_no_fuel [of "errnos_of t" "ini \<and> raise_on_initial_eintr t" n "read_buffer t" s]
      by (auto simp: read_n_def no_exhaustion_def split: if_splits sum.splits prod.splits)
  qed
qed

lemma read_payload_holds: "holds takes no_exhaustion_buf (read_payload hdr n)"
  unfolding read_payload_def
  by (auto intro!: rdb.bind with_buffer_holds read_n_holds rdb.ret)

lemma unpack_header_no_fuel: "unpack_header hdr \<noteq> Inl OutOfFuel"
  by (auto simp: unpack_header_def bindE_eq_Inl struct_no_fuel)

lemma read_frame_parts_holds: "holds takes no_exhaustion_buf read_frame_parts"
  unfolding read_frame_parts_def
  by (auto intro!: rdb.bind with_buffer_holds read_n_holds read_payload_holds rdb.ret rd.lift
      simp: unpack_header_no_fuel)

lemma read_frame_shrinks:
  assumes "read_frame t = (r, t')"
  shows "length (unread t') \<le> length (unread t)" and "r \<noteq> Inl OutOfFuel"
    and "r = Inr f \<Longrightarrow> length (unread t') < length (unread t)"
proof -
  obtain q t1 where q: "read_frame_parts t = (q, t1)" by (cases "read_frame_parts t")
  have tk: "length (unread t1) \<le> length (unread t)"
    by (rule takes_length [OF holdsD(1) [OF read_frame_parts_holds q]])
  have "length (unread t') \<le> length (unread t) \<and> r \<noteq> Inl OutOfFuel"
  proof (cases q)
    case (Inl eb)
    obtain e b where eb: "eb = (e, b)" by (cases eb)
    have ne: "e \<noteq> OutOfFuel"
      using holds_Inl [OF read_frame_parts_holds q [unfolded Inl eb]] by (simp add: no_exhaustion_buf_def)
    have un: "is_OSError e \<Longrightarrow> unread t = b @ unread t1"
      using read_frame_parts_unread(1) [OF q] Inl eb by simp
    have keep: "unread (t1\<lparr>connected := c\<rparr>) = unread t1" "unread (t1\<lparr>read_buffer := b @ read_buffer t1\<rparr>) = b @ unread t1"
      for c by (simp_all add: unread_def)
    have "is_OSError SocketTimeout" by (simp add: is_OSError_def)
    then show ?thesis
      using assms q Inl eb ne un tk
      by (auto simp: read_frame_def read_frame_failed_def Let_def keep split: if_splits exn.splits ssl_kind.splits)
  next
    case (Inr x)
    then show ?thesis
      using assms q tk by (auto simp: read_frame_def split: if_splits prod.splits)
  qed
  then show "length (unread t') \<le> length (unread t)" "r \<noteq> Inl OutOfFuel" by blast+
  assume "r = Inr f"
  moreover obtain ft ch p where "f = (ft, ch, p)" by (cases f)
  ultimately obtain d where "pack_frame ft ch p = Inr d" "unread t = d @ unread t'"
    using read_frame_takes_frame(1) assms by blast
  then show "length (unread t') < length (unread t)" using pack_frame_length [of ft ch p d] by simp
qed

end
