(* ===== verification/Client_Laws.thy ===== *)
theory Client_Laws
  imports Connection Effects
begin

text \<open>
  What every operation of a client has in common: if a relation on worlds and a restriction on
  exceptions are respected by the few primitive effects (\<open>client\<close>), and by the event loop an
  operation runs when it blocks (\<open>good\<close>), then by the operation. Each invariant of the client
  is one interpretation.
\<close>

section \<open>The interface\<close>

text \<open>Two worlds that differ in attributes no invariant speaks of.\<close>

definition same_core :: "world \<Rightarrow> world \<Rightarrow> bool" where
  "same_core w w' \<longleftrightarrow>
     (\<forall>r. channel_id (objects w' r) = channel_id (objects w r)
        \<and> conn_ref (objects w' r) = conn_ref (objects w r))
     \<and> next_ref w' = next_ref w \<and> channels w' = channels w
     \<and> used_channel_ids w' = used_channel_ids w \<and> fh w' = fh w
     \<and> transport (fw w') = transport (fw w) \<and> dial w' = dial w
     \<and> fresh_transport w' = fresh_transport w"

definition good :: "(world \<Rightarrow> world \<Rightarrow> bool) \<Rightarrow> (world \<Rightarrow> exn \<Rightarrow> bool) \<Rightarrow> drainer \<Rightarrow> bool" where
  "good R X dr \<longleftrightarrow> (\<forall>tmo. holds R X (snd dr tmo))
     \<and> (\<forall>r p tmo. holds R X (wait_loop (fst dr) (snd dr) r p tmo))
     \<and> holds R X (handshake_loop (fst dr) (snd dr))"

definition listens :: "(world \<Rightarrow> world \<Rightarrow> bool) \<Rightarrow> (world \<Rightarrow> exn \<Rightarrow> bool)
    \<Rightarrow> (marg list \<Rightarrow> marg list wact) option \<Rightarrow> bool" where
  "listens R X l \<longleftrightarrow> (\<forall>f args. l = Some f \<longrightarrow> holds R X (f args))"

lemma wait_loop_eqs:
  "wait_loop 0 drain r p tmo = (\<lambda>w. case result_args (waiters w p) of Some args \<Rightarrow> (Inr args, w)
     | None \<Rightarrow> if \<not> conn_ref (objects w r) then (Inl recoverable, w) else (Inl OutOfFuel, w))"
  "wait_loop (Suc n) drain r p tmo = (\<lambda>w. case result_args (waiters w p) of Some args \<Rightarrow> (Inr args, w)
     | None \<Rightarrow> if \<not> conn_ref (objects w r) then (Inl recoverable, w)
         else bindA (drain tmo) (\<lambda>_. wait_loop n drain r p tmo) w)"
  by (rule ext, subst wait_loop.simps, simp split: option.split)+

lemma handshake_loop_eqs:
  "handshake_loop 0 drain = (\<lambda>w. if handshake_complete w then (Inr (), w) else (Inl OutOfFuel, w))"
  "handshake_loop (Suc n) drain = (\<lambda>w. if handshake_complete w then (Inr (), w)
     else bindA (drain (connect_timeout (transport (fw w)))) (\<lambda>_. handshake_loop n drain) w)"
  by (rule ext, simp)+

locale client = effect R X bad
  for R :: "world \<Rightarrow> world \<Rightarrow> bool" and X :: "world \<Rightarrow> exn \<Rightarrow> bool" and bad :: "exn \<Rightarrow> bool" +
  fixes E :: env
  assumes bad_fuel: "bad e \<Longrightarrow> e = OutOfFuel"
    and attr: "same_core w w' \<Longrightarrow> R w w'"
    and init: "holds R X (channel_init E cid decode cb)"
    and collected: "r \<noteq> 0 \<Longrightarrow> R w (channel_collect r w)"
    and forget: "holds R X connection_collect"
    and unlinked: "R w (upd_obj r (\<lambda>c. c\<lparr>is_closing := False, conn_ref := False\<rparr>) w)"
    and wrote: "write_frame (codecs E) write_bytes t ch sig args content (fw w) = (q, f, m)
      \<Longrightarrow> R w (w\<lparr>fw := f\<rparr>) \<and> (\<forall>e. q = Inl e \<longrightarrow> X w e)"
    and handled: "on_frame frm (fh w) = (d, h) \<Longrightarrow> R w (w\<lparr>fh := h\<rparr>)"
    and new_handler: "R w (w\<lparr>fh := frame_handler_init n\<rparr>)"
    and dialled: "holds R X (dial_up E)"
    and retimed: "R w (upd_transport (set_timeout tmo) w)"
    and application: "holds R X (app E k xs)"
begin

lemma plain_raise [intro]: "e \<noteq> OutOfFuel \<Longrightarrow> holds R X (raiseA e)"
  using bad_fuel by blast

lemma plain_lift: "m \<noteq> Inl OutOfFuel \<Longrightarrow> holds R X (liftA m)"
  by (rule lift) (use bad_fuel in blast)

lemma ret_state: "holds R X (\<lambda>w. (Inr (f w), w))"
  by (rule holdsI) (auto intro: refl)

lemma raise_state: "(\<And>w. f w \<noteq> OutOfFuel) \<Longrightarrow> holds R X (\<lambda>w. (Inl (f w), w))"
  by (rule holdsI) (use bad_fuel raise_ok in \<open>auto intro: refl\<close>)

lemma branch: "holds R X m \<Longrightarrow> holds R X n \<Longrightarrow> holds R X (\<lambda>w. if P w then m w else n w)"
  by (auto simp: holds_def)

lemma maybe: "holds R X m \<Longrightarrow> holds R X (if b then m else retA ())"
  by (simp add: ret)

lemma on_option:
  "holds R X m \<Longrightarrow> (\<And>x. holds R X (n x)) \<Longrightarrow> holds R X (\<lambda>w. case f w of None \<Rightarrow> m w | Some x \<Rightarrow> n x w)"
  by (auto simp: holds_def split: option.splits)

lemma at_state: "(\<And>x. holds R X (m x)) \<Longrightarrow> holds R X (\<lambda>w. m (f w) w)"
  by (auto simp: holds_def)

lemma lift_state:
  "(\<And>w. f w \<noteq> Inl OutOfFuel) \<Longrightarrow> (\<And>x. holds R X (g x)) \<Longrightarrow> holds R X (\<lambda>w. bindA (liftA (f w)) g w)"
proof -
  assume "\<And>w. f w \<noteq> Inl OutOfFuel" and "\<And>x. holds R X (g x)"
  then have "holds R X (bindA (liftA (f w)) g)" for w by (intro bind plain_lift)
  then show ?thesis unfolding holds_def by blast
qed

text \<open>Attributes.\<close>

lemma set_attr: "(\<And>w. same_core w (f w)) \<Longrightarrow> holds R X (modA f)"
  by (rule modify) (rule attr)

lemma same_core_upd_obj:
  "(\<And>c. channel_id (f c) = channel_id c \<and> conn_ref (f c) = conn_ref c) \<Longrightarrow> same_core w (upd_obj r f w)"
  by (auto simp: same_core_def upd_obj_def)

lemma set_obj:
  "(\<And>c. channel_id (f c) = channel_id c \<and> conn_ref (f c) = conn_ref c) \<Longrightarrow> holds R X (modA (upd_obj r f))"
  by (rule set_attr) (rule same_core_upd_obj)

lemma call_app_ok: "holds R X (call_app E cb args)"
  unfolding call_app_def by (intro bind set_attr application) (simp add: same_core_def)

lemma call_app_opt_ok: "holds R X (call_app_opt E cb args)"
  by (cases cb) (simp_all add: call_app_opt_def call_app_ok ret)

lemma hook_ok: "holds R X (\<lambda>w. call_app_opt E (f w) args w)"
  by (rule at_state [OF call_app_opt_ok])

lemma writer_ok:
  "holds R X (\<lambda>w. case write_frame (codecs E) write_bytes t ch sig args content (fw w) of
     (q, f, _) \<Rightarrow> (q, w\<lparr>fw := f\<rparr>))"
  by (intro holdsI) (auto split: prod.splits dest: wrote)

text \<open>A block under a timeout.\<close>

lemma timeout_error_fuel: "timeout_error e = OutOfFuel \<longleftrightarrow> e = OutOfFuel"
  by (cases e) (auto simp: timeout_error_def is_OSError_def split: ssl_kind.split)

lemma having_timeout_ok:
  assumes "holds R X m"
  shows "holds R X (having_timeout (\<lambda>w. transport (fw w)) upd_transport tmo m)"
proof -
  have err: "X s (timeout_error e)" if "X s e" for s e
  proof (cases "bad (timeout_error e)")
    case True
    then have "e = OutOfFuel" "timeout_error e = OutOfFuel" using bad_fuel timeout_error_fuel by blast+
    then show ?thesis using that by simp
  qed (rule raise_ok)
  have ebadf: "X s (OSErr k)" "X s AttributeError" for s k
    using raise_ok bad_fuel by blast+
  have "R w w' \<and> (\<forall>e. r = Inl e \<longrightarrow> X w e)"
    if ht: "having_timeout (\<lambda>w. transport (fw w)) upd_transport tmo m w = (r, w')" for w r w'
  proof (cases "tmo = None \<or> sock (transport (fw w)) = None")
    case True
    then show ?thesis
      using ht holdsD [OF assms] ebadf refl by (auto simp: having_timeout_def split: option.splits)
  next
    case False
    then obtain x s where x: "tmo = Some x" "sock (transport (fw w)) = Some s" by auto
    define w1 where "w1 = (if sock_timeout s \<noteq> tmo then upd_transport (set_timeout tmo) w else w)"
    obtain q w2 where q: "m w1 = (q, w2)" by (cases "m w1")
    have w1: "R w w1" by (simp add: w1_def retimed refl)
    have w2: "R w w2" "\<And>e. q = Inl e \<Longrightarrow> X w e"
      using trans [OF w1 holdsD(1) [OF assms q]] upward [OF w1] holdsD(2) [OF assms q] by blast+
    have w3: "R w (upd_transport (set_timeout y) w2)" for y by (rule trans [OF w2(1) retimed])
    show ?thesis
      using ht x q [unfolded w1_def] w2 w3 err ebadf
      by (cases "sock_timeout s = tmo")
        (auto simp: having_timeout_def Let_def split: sum.splits if_splits)
  qed
  then show ?thesis by (auto simp: holds_def)
qed

section \<open>Connecting\<close>

lemma new_closures_ok: "holds R X new_closures"
proof -
  have c1: "R w (w\<lparr>fh := frame_handler_init n, has_inbound := True\<rparr>)" for w n
    by (rule trans [OF new_handler [of _ n] attr]) (simp add: same_core_def)
  have c2: "holds R X (\<lambda>w. bindA (liftA (frame_writer_init (frame_max (fw w)) (bytes_sent (fw w)) (transport (fw w))))
      (\<lambda>f. modA (\<lambda>w. w\<lparr>fw := f, has_frame_writer := True\<rparr>)) w)"
    by (intro holdsI)
      (auto simp: bindA_def frame_writer_init_def same_core_def intro!: attr plain_raise
        split: if_splits intro: raise_ok dest: bad_fuel)
  have c3: "new_closures = bindA (modA (\<lambda>w. w\<lparr>fh := frame_handler_init (bytes_recv (fh w)), has_inbound := True\<rparr>))
      (\<lambda>_ w. bindA (liftA (frame_writer_init (frame_max (fw w)) (bytes_sent (fw w)) (transport (fw w))))
        (\<lambda>f. modA (\<lambda>w. w\<lparr>fw := f, has_frame_writer := True\<rparr>)) w)"
    by (auto simp: new_closures_def bindA_def getA_def fun_eq_iff split: prod.splits sum.splits)
  show ?thesis unfolding c3 by (intro bind modify c1 c2)
qed

lemma connection_connect_from:
  assumes "holds R X (connect_body E dr)" shows "holds R X (connection_connect E dr)"
proof -
  have "holds R X (catchA (connect_body E dr)
     (\<lambda>e. if is_OSError e then bindA connection_collect (\<lambda>_. raiseA e) else raiseA e))"
    by (rule catch [OF assms]) (auto intro!: bind forget simp: is_OSError_def dest: bad_fuel)
  then show ?thesis
    unfolding connection_connect_def [abs_def] by (intro branch ret_state)
qed

lemma need_from:
  assumes "holds R X (connect_body E dr)" shows "holds R X (need E dr avail)"
proof -
  have "holds R X (force_connect E dr avail)"
    unfolding force_connect_def [abs_def] by (intro branch ret_state connection_connect_from assms)
  then show ?thesis unfolding need_def by (auto intro!: bind get)
qed

lemma connect_body_ok:
  assumes "good R X dr" shows "holds R X (connect_body E dr)"
  using assms unfolding connect_body_def good_def by (intro bind dialled new_closures_ok) auto

lemma connection_connect_ok: "good R X dr \<Longrightarrow> holds R X (connection_connect E dr)"
  by (intro connection_connect_from connect_body_ok)

lemma need_ok: "good R X dr \<Longrightarrow> holds R X (need E dr avail)"
  by (intro need_from connect_body_ok)

section \<open>Calls\<close>

lemma write_method_ok:
  assumes "good R X dr" shows "holds R X (write_method E dr r sig args content)"
  unfolding write_method_def
  by (intro bind need_ok assms on_option raise_state writer_ok) simp

lemma send_method_ok:
  assumes "good R X dr" and "holds R X cb"
  shows "holds R X (send_method E dr r sig fmt args content cb)"
proof -
  have "(if fmt = [] then Inr (VStr []) else bindE (dumps fmt args) (\<lambda>b. Inr (VBytes b))) \<noteq> Inl OutOfFuel"
    by (auto simp: bindE_eq_Inl dumps_no_fuel)
  then show ?thesis
    unfolding send_method_def [abs_def]
    by (intro branch raise_state bind plain_lift write_method_ok assms) (simp add: recoverable_def)
qed

lemma new_waiter_ok: "holds R X (new_waiter cb)"
  by (rule holdsI) (auto simp: new_waiter_def same_core_def intro!: attr)

lemma wait_ok:
  assumes "good R X dr" shows "holds R X (wait dr r methods cb tmo tup)"
proof -
  have "holds R X (wait_loop (fst dr) (snd dr) r p tmo)" for p using assms by (simp add: good_def)
  then have "holds R X (finallyA
       (bindA (wait_loop (fst dr) (snd dr) r p tmo) (\<lambda>args. retA (shape_result tup args)))
       (upd_obj r (\<lambda>c. c\<lparr>pending := f c\<rparr>)))" for p f
    by (intro final bind ret attr same_core_upd_obj) (auto simp: chan.simps)
  then have "holds R X (case x of (prevs, pend) \<Rightarrow>
      bindA (modA (upd_obj r (\<lambda>c. c\<lparr>pending := pend\<rparr>))) (\<lambda>_. finallyA
       (bindA (wait_loop (fst dr) (snd dr) r p tmo) (\<lambda>args. retA (shape_result tup args)))
       (upd_obj r (\<lambda>c. c\<lparr>pending := restore methods prevs (pending c)\<rparr>))))" for p x
    by (auto intro!: bind set_obj split: prod.split)
  then show ?thesis unfolding wait_def by (intro bind new_waiter_ok get)
qed

lemma send_wait_ok:
  assumes "good R X dr" shows "holds R X (send_wait E dr r sig fmt args content waits tup)"
  unfolding send_wait_def
  by (auto intro!: bind send_method_ok wait_ok assms ret)

section \<open>The operations of a channel\<close>

lemma channel_open_ok: "good R X dr \<Longrightarrow> holds R X (channel_open E dr r)"
  unfolding channel_open_def [abs_def] by (intro branch ret_state send_wait_ok)

lemma do_revive_ok: "good R X dr \<Longrightarrow> holds R X (do_revive E dr r)"
  unfolding do_revive_def by (intro bind set_obj channel_open_ok ret) simp

lemma channel_close_ok:
  assumes "good R X dr" shows "holds R X (channel_close E dr r rcode rtext sig)"
  unfolding channel_close_def
  by (intro final branch ret_state bind set_obj send_wait_ok assms unlinked) simp

lemma channel_on_close_ok:
  assumes "good R X dr" shows "holds R X (channel_on_close E dr r rcode rtext c m)"
  unfolding channel_on_close_def
  by (intro bind send_method_ok assms ret branch do_revive_ok plain_raise ret_state) simp

lemma call_ok:
  assumes "good R X dr"
  shows "holds R X (channel_flow E dr r v1)" "holds R X (x_flow_ok E dr r v1)"
    "holds R X (exchange_declare E dr r v1 v2 v3 v4 v5 v6 v7)"
    "holds R X (exchange_delete E dr r v1 v2 v3)"
    "holds R X (exchange_bind E dr r v1 v2 v3 v4 v5)" "holds R X (exchange_unbind E dr r v1 v2 v3 v4 v5)"
    "holds R X (queue_bind E dr r v1 v2 v3 v4 v5)" "holds R X (queue_unbind E dr r v1 v2 v3 v4 v5)"
    "holds R X (queue_delete E dr r v1 v2 v3 v4)" "holds R X (queue_purge E dr r v1 v2)"
    "holds R X (basic_ack E dr r v1 v2)" "holds R X (basic_reject E dr r v1 v2)"
    "holds R X (confirm_select E dr r v1)" "holds R X (basic_qos E dr r v1 v2 v3)"
    "holds R X (basic_recover E dr r v1)" "holds R X (basic_recover_async E dr r v1)"
    "holds R X (tx_select E dr r)" "holds R X (tx_commit E dr r)" "holds R X (tx_rollback E dr r)"
  unfolding channel_flow_def x_flow_ok_def exchange_declare_def exchange_delete_def exchange_bind_def
    exchange_unbind_def queue_bind_def queue_unbind_def queue_delete_def queue_purge_def basic_ack_def
    basic_reject_def confirm_select_def basic_qos_def basic_recover_def basic_recover_async_def
    tx_select_def tx_commit_def tx_rollback_def
  by (intro send_wait_ok send_method_ok assms bind ret)+

lemma queue_declare_ok:
  assumes "good R X dr" shows "holds R X (queue_declare E dr r v1 v2 v3 v4 v5 v6 v7)"
  unfolding queue_declare_def
  by (auto intro!: bind send_method_ok wait_ok assms ret split: result.split list.split)

lemma basic_cancel_ok: "good R X dr \<Longrightarrow> holds R X (basic_cancel E dr r tag nw)"
  unfolding basic_cancel_def [abs_def] by (intro branch ret_state bind set_obj send_wait_ok) simp

lemma remove_tag_ok: "holds R X (remove_tag r tag)"
  by (rule holdsI) (auto simp: remove_tag_def intro!: attr same_core_upd_obj)

lemma cancelled_ok:
  "holds R X (on_basic_cancel E r tag)" "holds R X (on_basic_cancel_ok r tag)"
  unfolding on_basic_cancel_def on_basic_cancel_ok_def
  by (auto intro!: bind remove_tag_ok call_app_ok ret split: option.split)

lemma basic_consume_ok:
  assumes "good R X dr" shows "holds R X (basic_consume E dr r v1 v2 v3 v4 v5 v6 v7 v8 v9)"
proof -
  have "(if \<not> truthy v6 then (case p of RTuple (AV (VStr t) # _) \<Rightarrow> Inr t | _ \<Rightarrow> Inl TypeError)
       else if v2 = [] then Inl ValueError else Inr v2) \<noteq> Inl OutOfFuel" for p
    by (auto split: result.split list.split marg.split pyval.split)
  then show ?thesis
    unfolding basic_consume_def by (intro bind send_wait_ok assms plain_lift set_obj ret) simp_all
qed

lemma basic_get_ok:
  assumes "good R X dr" shows "holds R X (basic_get E dr r v1 v2)"
  unfolding basic_get_def
  by (auto intro!: bind send_wait_ok assms ret split: result.split list.split marg.split option.split)

lemma on_basic_deliver_ok:
  assumes "good R X dr" shows "holds R X (on_basic_deliver E dr r v1 v2 v3 v4 v5 msg)"
  unfolding on_basic_deliver_def Let_def
  by (auto intro!: bind get call_ok assms ret call_app_ok split: option.split)

section \<open>Publishing\<close>

lemma plain_publish_ok:
  assumes "good R X dr" shows "holds R X (plain_publish E dr r msg v1 v2 v3 v4 tmo)"
proof -
  have dr: "holds R X (snd dr t)" for t using assms by (simp add: good_def)
  have blk: "wants_blocked p \<noteq> Inl OutOfFuel" for p
    by (auto simp: wants_blocked_def split: option.splits pyval.splits)
  have send: "holds R X (bindA (need E dr has_transport) (\<lambda>_.
      having_timeout (\<lambda>w. transport (fw w)) upd_transport tmo
        (send_wait E dr r Basic_Publish ''Bssbb'' [VInt 0, v1, v2, v3, v4] (Some msg) [] False)))"
    by (intro bind need_ok assms having_timeout_ok send_wait_ok)
  have "holds R X (catchA (bindA (need E dr has_transport) (\<lambda>_.
      having_timeout (\<lambda>w. transport (fw w)) upd_transport tmo
        (send_wait E dr r Basic_Publish ''Bssbb'' [VInt 0, v1, v2, v3, v4] (Some msg) [] False)))
     (\<lambda>e. if e = SocketTimeout
          then raiseA (raise_amqp RecoverableChannelError ''basic_publish: timed out'') else raiseA e))"
    by (rule catch [OF send]) (auto dest: bad_fuel)
  moreover have "holds R X (catchA (snd dr (Some 0)) (\<lambda>e. if e = SocketTimeout then retA () else raiseA e))"
    by (rule catch [OF dr]) (auto intro: ret dest: bad_fuel)
  ultimately show ?thesis
    unfolding plain_publish_def [abs_def]
    by (intro branch raise_state lift_state blk) (auto intro!: bind ret get)
qed

lemma basic_publish_ok:
  assumes "good R X dr"
  shows "holds R X (basic_publish_confirm E dr r msg v1 v2 v3 v4 tmo ctmo)"
    and "holds R X (basic_publish E dr r msg v1 v2 v3 v4 tmo ctmo)"
proof -
  show 1: "holds R X (basic_publish_confirm E dr r msg v1 v2 v3 v4 tmo ctmo)"
    unfolding basic_publish_confirm_def
    by (auto intro!: bind get ret set_obj call_ok plain_publish_ok wait_ok assms)
  show "holds R X (basic_publish E dr r msg v1 v2 v3 v4 tmo ctmo)"
    unfolding basic_publish_def [abs_def] by (intro branch 1 plain_publish_ok assms)
qed

lemma returned_ok:
  "holds R X (on_basic_return E r rcode rtext v1 v2 msg)"
  "holds R X (on_basic_ack E r v1 v2)" "holds R X (on_basic_nack E r v1 v2)"
  unfolding on_basic_return_def on_basic_ack_def on_basic_nack_def Let_def
  by (auto intro!: bind get forA call_app_ok)

section \<open>Listeners and dispatch\<close>

lemma keep_ok: "holds R X m \<Longrightarrow> holds R X (keep m args)"
  unfolding keep_def by (intro bind ret)

text \<open>A listener applied to arguments of one shape.\<close>

lemma shape_close:
  "(\<And>a b c d. holds R X (f a b c d)) \<Longrightarrow> holds R X (case args of [AV (VInt a), AV (VStr b), AV (VInt c), AV (VInt d)] \<Rightarrow> f a b c d | _ \<Rightarrow> raiseA TypeError)"
  by (simp add: plain_raise split: list.split marg.split pyval.split option.split)

lemma shape_1:
  "(\<And>a. holds R X (f a)) \<Longrightarrow> holds R X (case args of [AV a] \<Rightarrow> f a | _ \<Rightarrow> raiseA TypeError)"
  by (simp add: plain_raise split: list.split marg.split pyval.split option.split)

lemma shape_2:
  "(\<And>a b. holds R X (f a b)) \<Longrightarrow> holds R X (case args of [AV a, AV b] \<Rightarrow> f a b | _ \<Rightarrow> raiseA TypeError)"
  by (simp add: plain_raise split: list.split marg.split pyval.split option.split)

lemma shape_text:
  "(\<And>a. holds R X (f a)) \<Longrightarrow> holds R X (case args of [AV (VStr a)] \<Rightarrow> f a | _ \<Rightarrow> raiseA TypeError)"
  by (simp add: plain_raise split: list.split marg.split pyval.split option.split)

lemma shape_tune:
  "(\<And>a b c. holds R X (f a b c)) \<Longrightarrow> holds R X (case args of [AV (VInt a), AV (VInt b), AV (VInt c)] \<Rightarrow> f a b c | _ \<Rightarrow> raiseA TypeError)"
  by (simp add: plain_raise split: list.split marg.split pyval.split option.split)

lemma shape_deliver:
  "(\<And>a b c d e m. holds R X (f a b c d e m)) \<Longrightarrow> holds R X (case args of [AV (VStr a), AV b, AV c, AV d, AV e, AM (Some m)] \<Rightarrow> f a b c d e m | _ \<Rightarrow> raiseA TypeError)"
  by (simp add: plain_raise split: list.split marg.split pyval.split option.split)

lemma shape_return:
  "(\<And>a b c d m. holds R X (f a b c d m)) \<Longrightarrow> holds R X (case args of [AV (VInt a), AV (VStr b), AV c, AV d, AM m] \<Rightarrow> f a b c d m | _ \<Rightarrow> raiseA TypeError)"
  by (simp add: plain_raise split: list.split marg.split pyval.split option.split)

lemma shape_start:
  "(\<And>a b c d e. holds R X (f a b c d e)) \<Longrightarrow> holds R X (case args of [AV a, AV b, AV c, AV (VStr d), AV (VStr e)] \<Rightarrow> f a b c d e | _ \<Rightarrow> raiseA TypeError)"
  by (simp add: plain_raise split: list.split marg.split pyval.split option.split)

lemmas shapes = shape_close shape_1 shape_2 shape_text shape_tune shape_deliver shape_return shape_start

lemma entry:
  "(\<And>args. holds R X (f args)) \<Longrightarrow> listens R X l \<Longrightarrow> listens R X (if b then Some f else l)"
  by (simp add: listens_def)

lemma no_entry: "listens R X None"
  by (simp add: listens_def)

lemma on_close_ok_ok: "r \<noteq> 0 \<Longrightarrow> holds R X (channel_on_close_ok r)"
  unfolding channel_on_close_ok_def by (intro modify collected)

lemma on_flow_ok: "good R X dr \<Longrightarrow> holds R X (channel_on_flow E dr r v)"
  unfolding channel_on_flow_def by (intro bind set_obj call_ok) simp

lemma on_open_ok_ok: "holds R X (channel_on_open_ok E r)"
  unfolding channel_on_open_ok_def by (intro bind set_obj hook_ok) simp

lemma channel_listener_ok:
  assumes "good R X dr" and "r \<noteq> 0" shows "listens R X (channel_listener E dr r sig)"
  unfolding channel_listener_def
  by (intro entry no_entry shapes keep_ok channel_on_close_ok on_close_ok_ok on_flow_ok on_open_ok_ok
      cancelled_ok on_basic_deliver_ok returned_ok bind ret assms)

section \<open>The operations of the connection\<close>

lemma sasl_start_no_fuel: "sasl_start a \<noteq> Inl OutOfFuel"
  by (auto simp: sasl_start_def plain_start_def amqplain_start_def encode_utf8_def bindE_eq_Inl get_or_def
      table_no_fuel split: sasl.splits option.splits sum.splits)

lemma pick_no_fuel: "pick_authentication mechs as \<noteq> Inl OutOfFuel"
  by (induction as) (auto simp: bindE_eq_Inl sasl_start_no_fuel split: option.splits)

lemma wanted_caps_no_fuel: "wanted_caps caps scap \<noteq> Inl OutOfFuel"
  by (induction caps scap rule: wanted_caps.induct) (auto simp: bindE_eq_Inl dict_get_def split: pyval.splits)

lemma negotiate_no_fuel: "negotiate wanted sprops cprops \<noteq> Inl OutOfFuel"
  by (auto simp: negotiate_def Let_def bindE_eq_Inl wanted_caps_no_fuel dict_get_def
      split: pyval.splits option.splits)

lemma lift_got: "(\<And>w. f w \<noteq> Inl OutOfFuel) \<Longrightarrow> (\<And>x. holds R X (g x))
    \<Longrightarrow> holds R X (bindA (getA f) (\<lambda>r. bindA (liftA r) g))"
proof -
  assume "\<And>w. f w \<noteq> Inl OutOfFuel" and "\<And>x. holds R X (g x)"
  then have "holds R X (\<lambda>w. bindA (liftA (f w)) g w)" by (rule lift_state)
  then show ?thesis by (simp add: holds_def bindA_def getA_def)
qed

lemma on_start_ok:
  assumes "good R X dr" shows "holds R X (on_start E dr v1 v2 v3 mechs locs)"
proof -
  have *: "encode_utf8 mechs \<noteq> Inl OutOfFuel" by (simp add: encode_utf8_def get_or_no_fuel)
  have "holds R X (case auth of None \<Rightarrow> raiseA (raise_amqp ConnectionError t)
     | Some (m, resp) \<Rightarrow> bindA (getA locale_name) (\<lambda>loc.
         send_method E dr 0 Connection_StartOk ''FsSs'' (g m resp loc) None (retA ())))" for auth g t
    by (auto intro!: bind get send_method_ok assms ret plain_raise split: option.split)
  then show ?thesis
    unfolding on_start_def
    by (intro bind [OF set_attr] bind [OF plain_lift [OF *]] lift_got negotiate_no_fuel pick_no_fuel)
      (auto simp: same_core_def)
qed

lemma on_tune_ok:
  assumes "good R X dr" shows "holds R X (on_tune E dr v1 v2 v3)"
proof -
  have "holds R X (\<lambda>w. send_method E dr 0 Connection_TuneOk ''BlB''
      [VInt (channel_max w), VInt (frame_max (fw w)), VInt (heartbeat w)] None (on_tune_sent E dr) w)"
    by (rule at_state [where m = "\<lambda>args. send_method E dr 0 Connection_TuneOk ''BlB'' args None (on_tune_sent E dr)"])
      (auto simp: on_tune_sent_def intro!: send_method_ok bind get ret assms)
  then show ?thesis
    unfolding on_tune_def by (intro bind set_attr) (auto simp: tuned_def same_core_def)
qed

lemma connection_handlers_ok:
  assumes "good R X dr"
  shows "holds R X (on_open_ok E)" "holds R X connection_on_close_ok" "holds R X (x_close_ok E dr)"
    "holds R X (connection_on_close E dr rcode rtext c m)"
    "holds R X (on_blocked_method E)" "holds R X (on_unblocked_method E)"
proof -
  show 1: "holds R X connection_on_close_ok" by (simp add: connection_on_close_ok_def forget)
  then show 2: "holds R X (x_close_ok E dr)"
    unfolding x_close_ok_def by (intro send_method_ok assms)
  then show "holds R X (connection_on_close E dr rcode rtext c m)"
    unfolding connection_on_close_def by (intro bind plain_raise) simp_all
  show "holds R X (on_open_ok E)"
    unfolding on_open_ok_def by (intro bind set_attr hook_ok) (simp add: same_core_def)
  show "holds R X (on_blocked_method E)" "holds R X (on_unblocked_method E)"
    unfolding on_blocked_method_def on_unblocked_method_def by (intro bind get call_app_opt_ok)+
qed

lemma connection_close_ok:
  assumes "good R X dr" shows "holds R X (connection_close E dr rcode rtext sig)"
proof -
  have "holds R X (catchA (send_wait E dr 0 Connection_Close ''BsBB''
                 [rcode, rtext, VInt (fst sig), VInt (snd sig)] None [Connection_CloseOk] False)
          (\<lambda>e. if is_OSError e then bindA connection_collect (\<lambda>_. raiseA e) else raiseA e))"
    by (rule catch [OF send_wait_ok [OF assms]]) (auto intro!: bind forget simp: is_OSError_def dest: bad_fuel)
  then show ?thesis
    unfolding connection_close_def [abs_def]
    by (intro branch ret_state final bind set_obj attr same_core_upd_obj) simp_all
qed

lemma connection_listener_ok:
  assumes "good R X dr" shows "listens R X (connection_listener E dr sig)"
  unfolding connection_listener_def on_secure_def
  by (intro entry no_entry shapes keep_ok on_start_ok on_tune_ok connection_handlers_ok [OF assms] ret assms)

lemma listener_ok: "good R X dr \<Longrightarrow> listens R X (listener E dr r sig)"
  unfolding listener_def by (simp add: connection_listener_ok channel_listener_ok)

section \<open>The event loop\<close>

lemma call_waiter_ok: "holds R X (call_waiter E p sig args)"
proof -
  have "holds R X (modA (\<lambda>w. w\<lparr>waiters := (waiters w)(p := (waiters w p)\<lparr>result_args := Some v\<rparr>)\<rparr>))" for v
    by (rule set_attr) (simp add: same_core_def)
  then show ?thesis
    unfolding call_waiter_def Let_def
    by (auto intro!: bind get call_app_ok plain_raise split: wait_callback.split)
qed

lemma dispatch_method_ok:
  assumes "\<And>sig. listens R X (ls r sig)"
  shows "holds R X (dispatch_method E ls r sig payload content)"
proof -
  have args: "(case fmt of None \<Rightarrow> Inr [] | Some fmt \<Rightarrow> bindE (loads fmt payload 4) (\<lambda>(vs, _). Inr (map AV vs)))
      \<noteq> Inl OutOfFuel" for fmt :: "string option"
    by (auto simp: bindE_eq_Inl loads_no_fuel split: option.splits prod.splits)
  have run: "holds R X (run_listener (ls r sig) args)" for args
    using assms [of sig] by (auto simp: run_listener_def listens_def ret split: option.split)
  have one: "holds R X (case one_shot of None \<Rightarrow> retA () | Some p \<Rightarrow> call_waiter E p sig args)" for one_shot args
    by (auto intro: ret call_waiter_ok split: option.split)
  let ?B = "\<lambda>m cont one_shot. bindA (modA (upd_obj r (\<lambda>c. c\<lparr>pending := AList.delete sig (pending c)\<rparr>))) (\<lambda>_.
              bindA (liftA (case m_args m of None \<Rightarrow> Inr []
                     | Some fmt \<Rightarrow> bindE (loads fmt payload 4) (\<lambda>(vs, _). Inr (map AV vs)))) (\<lambda>args.
              bindA (run_listener (ls r sig) (args @ (if m_content m then [AM cont] else []))) (\<lambda>args.
              case one_shot of None \<Rightarrow> retA () | Some p \<Rightarrow> call_waiter E p sig args)))"
  have body: "holds R X (?B m cont one_shot)" for m cont one_shot
    by (intro bind set_obj plain_lift args run one) simp
  have ret: "holds R X (\<lambda>w. (Inr (), w))" by (rule ret_state)
  have err: "holds R X (\<lambda>w. (Inl (raise_amqp AMQPNotImplementedError t), w))" for t
    by (rule raise_state) simp
  have "\<exists>m. dispatch_method E ls r sig payload content w = m w \<and> holds R X m" for w
  proof (cases "is_closing (objects w r) \<and> sig \<notin> set (ALLOWED_METHODS_WHEN_CLOSING r)")
    case True
    then show ?thesis using ret by (auto simp: dispatch_method_def)
  next
    case open_case: False
    show ?thesis
    proof (cases "METHODS r sig")
      case None
      then show ?thesis using open_case err by (auto simp: dispatch_method_def Let_def)
    next
      case (Some m)
      let ?c = "objects w r"
      let ?cont = "if auto_decode ?c then map_option (decode_body E) content else content"
      have eq: "dispatch_method E ls r sig payload content w =
        (if map_of (pending ?c) sig = None \<and> ls r sig = None then (Inr (), w)
         else ?B m ?cont (map_of (pending ?c) sig) w)"
        unfolding dispatch_method_def Let_def if_not_P [OF open_case] Some option.case by (rule HOL.refl)
      show ?thesis
      proof (cases "map_of (pending ?c) sig = None \<and> ls r sig = None")
        case True
        show ?thesis using eq [unfolded if_P [OF True]] ret by blast
      next
        case False
        show ?thesis using eq [unfolded if_not_P [OF False]] body by blast
      qed
    qed
  qed
  then show ?thesis unfolding holds_def by metis
qed

lemma on_inbound_method_ok:
  assumes "good R X dr" shows "holds R X (on_inbound_method E dr d)"
proof -
  obtain ch sig payload content where d: "d = (ch, sig, payload, content)" by (cases d)
  show ?thesis
    unfolding on_inbound_method_def [abs_def] d prod.case
    by (intro on_option raise_state dispatch_method_ok listener_ok assms) simp_all
qed

lemma on_inbound_frame_ok:
  assumes "good R X dr" shows "holds R X (on_inbound_frame E dr frm)"
proof -
  have deliver: "holds R X (bindA (on_inbound_method E dr d) (\<lambda>_. retA True))" for d
    by (intro bind on_inbound_method_ok assms ret)
  have "R w w' \<and> (\<forall>e. r = Inl e \<longrightarrow> X w e)" if 1: "on_inbound_frame E dr frm w = (r, w')" for w r w'
  proof -
    obtain q h where q: "on_frame frm (fh w) = (q, h)" by (cases "on_frame frm (fh w)")
    note step = handled [OF q]
    have ne: "q \<noteq> Inl OutOfFuel" using on_frame_no_fuel [of frm "fh w"] q by simp
    show ?thesis
    proof (cases q)
      case (Inl e)
      then have "X w e" using ne bad_fuel raise_ok by blast
      then show ?thesis using 1 q step Inl by (auto simp: on_inbound_frame_def)
    next
      case (Inr d)
      show ?thesis
      proof (cases d)
        case None
        then show ?thesis using 1 q step Inr by (auto simp: on_inbound_frame_def)
      next
        case (Some x)
        have m: "bindA (on_inbound_method E dr x) (\<lambda>_. retA True) (w\<lparr>fh := h\<rparr>) = (r, w')"
          using 1 q Inr Some by (simp add: on_inbound_frame_def)
        show ?thesis
          using trans [OF step holdsD(1) [OF deliver m]] upward [OF step] holdsD(2) [OF deliver m] by blast
      qed
    qed
  qed
  then show ?thesis unfolding holds_def by blast
qed

lemma connection_channel_ok:
  assumes "good R X dr" shows "holds R X (connection_channel E dr cid cb)"
  unfolding connection_channel_def [abs_def]
  by (intro on_option raise_state bind init channel_open_ok ret ret_state assms) simp

section \<open>Heartbeats\<close>

lemma monotonic_ok: "holds R X monotonic"
  by (rule holdsI)
    (auto simp: monotonic_def same_core_def dest: bad_fuel intro!: attr raise_ok split: list.splits)

lemma send_heartbeat_ok: "good R X dr \<Longrightarrow> holds R X (send_heartbeat E dr)"
  unfolding send_heartbeat_def by (intro bind need_ok writer_ok)

lemma heartbeat_tick_ok:
  assumes "good R X dr" shows "holds R X (heartbeat_tick E dr rate)"
proof -
  have stamp: "holds R X (bindA monotonic (\<lambda>t. modA (\<lambda>w. w\<lparr>last_heartbeat_sent := t\<rparr>)))"
    "holds R X (bindA monotonic (\<lambda>t. modA (\<lambda>w. w\<lparr>last_heartbeat_received := t\<rparr>)))"
    by (intro bind monotonic_ok set_attr, simp add: same_core_def)+
  have marks: "holds R X (modA (\<lambda>w. w\<lparr>prev_sent := Some a, prev_recv := Some b\<rparr>))" for a b
    by (rule set_attr) (simp add: same_core_def)
  have body: "holds R X (bindA (if a then bindA monotonic (\<lambda>t. modA (\<lambda>w. w\<lparr>last_heartbeat_sent := t\<rparr>)) else retA ()) (\<lambda>_.
          bindA (if b then bindA monotonic (\<lambda>t. modA (\<lambda>w. w\<lparr>last_heartbeat_received := t\<rparr>)) else retA ()) (\<lambda>_.
          bindA monotonic (\<lambda>now.
          bindA (modA (\<lambda>w. w\<lparr>prev_sent := Some sn, prev_recv := Some rn\<rparr>)) (\<lambda>_.
          bindA (getA last_heartbeat_sent) (\<lambda>last.
          bindA (if now > last + hb / rt then
                  bindA (send_heartbeat E dr) (\<lambda>_.
                  bindA monotonic (\<lambda>t. modA (\<lambda>w. w\<lparr>last_heartbeat_sent := t\<rparr>))) else retA ()) (\<lambda>_.
          bindA (getA last_heartbeat_received) (\<lambda>rec.
          bindA monotonic (\<lambda>later.
          if rec \<noteq> 0 \<and> rec + 2 * hb < later
          then raiseA (raise_amqp ConnectionForced ''Too many heartbeats missed'')
          else retA ())))))))))" for a b sn rn hb rt
    by (intro bind maybe stamp marks get monotonic_ok send_heartbeat_ok plain_raise assms) simp
  have "\<exists>m. heartbeat_tick E dr rate w = m w \<and> holds R X m" for w
  proof (cases "heartbeat w = 0")
    case True
    then show ?thesis using ret_state [of "\<lambda>_. ()"] by (auto simp: heartbeat_tick_def)
  next
    case False
    show ?thesis
      by (rule exI, rule conjI [rotated], rule body [where a = "prev_sent w \<noteq> Some (bytes_sent (fw w))"
            and b = "prev_recv w \<noteq> Some (bytes_recv (fh w))" and sn = "bytes_sent (fw w)"
            and rn = "bytes_recv (fh w)" and hb = "rat_of_int (heartbeat w)"
            and rt = "if rate \<le> 0 then 2 else rate"])
        (simp only: heartbeat_tick_def Let_def if_not_P [OF False])
  qed
  then show ?thesis unfolding holds_def by metis
qed

end

end
