(* ===== verification/Client_Invariant.thy ===== *)
theory Client_Invariant
  imports Client_Laws Framing_Inbound
begin

text \<open>
  The invariant of the connection's tables: channel ids in use, the table of channels, the
  channel objects and the frame handler agree, whatever sequence of calls, inbound frames and
  errors led there.
\<close>

section \<open>The interface of an event loop that may give up\<close>

locale patient_client = client R X bad E
  for R :: "world \<Rightarrow> world \<Rightarrow> bool" and X :: "world \<Rightarrow> exn \<Rightarrow> bool" and bad :: "exn \<Rightarrow> bool" and E :: env +
  assumes read: "holds R X (on_transport (having_timeout (\<lambda>t. t) (\<lambda>f. f) tmo read_frame))"
    and exhausted: "X w OutOfFuel"
begin

lemma give_up: "holds R X (\<lambda>w. (Inl OutOfFuel, w))"
  by (rule holdsI) (auto intro: refl exhausted)

lemma wait_loop_ok:
  assumes "\<And>tmo. holds R X (drain tmo)" shows "holds R X (wait_loop n drain r p tmo)"
proof (induction n)
  case 0
  have "holds R X (\<lambda>w. case result_args (waiters w p) of Some args \<Rightarrow> (Inr args, w)
     | None \<Rightarrow> if \<not> conn_ref (objects w r) then (Inl recoverable, w) else (Inl OutOfFuel, w))"
    by (intro on_option ret_state branch raise_state give_up) (simp add: recoverable_def)
  then show ?case by (simp only: wait_loop_eqs)
next
  case (Suc n)
  have "holds R X (\<lambda>w. case result_args (waiters w p) of Some args \<Rightarrow> (Inr args, w)
     | None \<Rightarrow> if \<not> conn_ref (objects w r) then (Inl recoverable, w)
         else bindA (drain tmo) (\<lambda>_. wait_loop n drain r p tmo) w)"
    by (intro on_option ret_state branch raise_state bind assms Suc) (simp add: recoverable_def)
  then show ?case by (simp only: wait_loop_eqs)
qed

lemma handshake_loop_ok:
  assumes "\<And>tmo. holds R X (drain tmo)" shows "holds R X (handshake_loop n drain)"
proof (induction n)
  case 0
  have "holds R X (\<lambda>w. if handshake_complete w then (Inr (), w) else (Inl OutOfFuel, w))"
    by (intro ret_state branch give_up)
  then show ?case by (simp only: handshake_loop_eqs)
next
  case (Suc n)
  have "holds R X (\<lambda>w. bindA (drain (connect_timeout (transport (fw w)))) (\<lambda>_. handshake_loop n drain) w)"
    by (rule at_state [where m = "\<lambda>t. bindA (drain t) (\<lambda>_. handshake_loop n drain)"]) (intro bind assms Suc)
  then have "holds R X (\<lambda>w. if handshake_complete w then (Inr (), w)
     else bindA (drain (connect_timeout (transport (fw w)))) (\<lambda>_. handshake_loop n drain) w)"
    by (intro ret_state branch)
  then show ?case by (simp only: handshake_loop_eqs)
qed

lemma good_ok: "(\<And>tmo. holds R X (drain tmo)) \<Longrightarrow> good R X (n, drain)"
  by (simp add: good_def wait_loop_ok handshake_loop_ok)

lemma blocking_read_ok: "good R X dr \<Longrightarrow> holds R X (blocking_read E dr tmo)"
  unfolding blocking_read_def by (intro bind need_ok read on_inbound_frame_ok)

lemma drain_ok: "holds R X (drain_events n E tmo)"
proof (induction n arbitrary: tmo)
  case 0
  then show ?case using give_up by (simp add: holds_def)
next
  case (Suc n)
  have "holds R X (bindA (blocking_read E (n, drain_events n E) tmo) (\<lambda>b. if b then retA () else drain_events n E tmo))"
    using Suc by (auto intro!: bind blocking_read_ok good_ok ret)
  then show ?case by (simp add: holds_def)
qed

lemma drainer_ok: "good R X (drainer n E)"
  unfolding drainer_def by (intro good_ok drain_ok)

end

section \<open>The invariant\<close>

text \<open>A channel object in use; object 0 is the connection.\<close>

definition live :: "world \<Rightarrow> nat \<Rightarrow> bool" where
  "live w r \<longleftrightarrow> r \<noteq> 0 \<and> conn_ref (objects w r)"

definition ids_valid :: "int list \<Rightarrow> bool" where
  "ids_valid used \<longleftrightarrow> distinct used \<and> (\<forall>i \<in> set used. 1 \<le> i \<and> i \<le> 65535)"

definition table_valid :: "world \<Rightarrow> (int \<times> nat) list \<Rightarrow> bool" where
  "table_valid w tbl \<longleftrightarrow> (\<forall>i r. map_of tbl i = Some r \<longrightarrow>
     i = 0 \<and> r = 0 \<or> i \<in> set (used_channel_ids w) \<and> 0 < r \<and> r < next_ref w)"

definition ids_ok :: "world \<Rightarrow> bool" where
  "ids_ok w \<longleftrightarrow> 0 < next_ref w \<and> ids_valid (used_channel_ids w)
     \<and> (\<forall>tbl. channels w = Some tbl \<longrightarrow> table_valid w tbl)
     \<and> (\<forall>r. live w r \<longrightarrow> r < next_ref w \<and>
          (\<exists>tbl i. channels w = Some tbl \<and> channel_id (objects w r) = Some i \<and> map_of tbl i = Some r))"

definition client_ok :: "world \<Rightarrow> bool" where
  "client_ok w \<longleftrightarrow> ids_ok w \<and> handler_ok (fh w)"

lemma ids_okD:
  assumes "ids_ok w"
  shows "0 < next_ref w" "ids_valid (used_channel_ids w)"
    and "\<And>tbl. channels w = Some tbl \<Longrightarrow> table_valid w tbl"
    and "\<And>r. live w r \<Longrightarrow> r < next_ref w"
    and "\<And>r. live w r \<Longrightarrow> \<exists>tbl i. channels w = Some tbl \<and> channel_id (objects w r) = Some i \<and> map_of tbl i = Some r"
  using assms unfolding ids_ok_def by blast+

lemma ids_ok_cong:
  assumes "ids_ok w" and "next_ref w' = next_ref w" "channels w' = channels w"
    and "used_channel_ids w' = used_channel_ids w"
    and "\<And>r. live w' r \<Longrightarrow> live w r \<and> channel_id (objects w' r) = channel_id (objects w r)"
  shows "ids_ok w'"
proof -
  have "table_valid w' tbl = table_valid w tbl" for tbl by (simp add: table_valid_def assms)
  then show ?thesis using assms(1,5) unfolding ids_ok_def assms(2-4) by metis
qed

section \<open>Taking an id\<close>

lemma append_id_ok:
  assumes "append_id i w = (Inr j, w')" and "ids_ok w" and "i \<notin> set (used_channel_ids w)" and "i \<noteq> 0"
  shows "ids_ok w'" and "j = i" and "w' = w\<lparr>used_channel_ids := used_channel_ids w @ [i]\<rparr>"
proof -
  have w': "j = i" "w' = w\<lparr>used_channel_ids := used_channel_ids w @ [i]\<rparr>" "1 \<le> i" "i \<le> 65535"
    using assms(1,4) by (auto simp: append_id_def split: if_splits)
  have "table_valid w' tbl" if "table_valid w tbl" for tbl
    using that by (auto simp: table_valid_def w')
  moreover have "ids_valid (used_channel_ids w')"
    using ids_okD(2) [OF assms(2)] assms(3) by (auto simp: ids_valid_def w')
  moreover have "live w' r = live w r" for r by (simp add: live_def w')
  ultimately show "ids_ok w'" using assms(2) by (simp add: ids_ok_def w')
  show "j = i" "w' = w\<lparr>used_channel_ids := used_channel_ids w @ [i]\<rparr>" by (fact w')+
qed

lemma first_free_Some: "first_free used xs = Some i \<Longrightarrow> i \<in> set xs \<and> i \<notin> set used"
  by (induction xs) (auto split: if_splits)

lemma take_id:
  assumes "(case cid of Some i \<Rightarrow> if i \<noteq> 0 then claim_channel_id i else get_free_channel_id
      | None \<Rightarrow> get_free_channel_id) w = (Inr i, w')" and "ids_ok w"
  shows "i \<notin> set (used_channel_ids w)" "i \<noteq> 0" "ids_ok w'"
    "w' = w\<lparr>used_channel_ids := used_channel_ids w @ [i]\<rparr>"
proof -
  obtain k where k: "append_id k w = (Inr i, w')" "k \<notin> set (used_channel_ids w)" "k \<noteq> 0"
    using assms(1)
    by (auto simp: claim_channel_id_def get_free_channel_id_def dest!: first_free_Some
        split: option.splits if_splits)
  note a = append_id_ok [OF k(1) assms(2) k(2,3)]
  show "i \<notin> set (used_channel_ids w)" "i \<noteq> 0" "ids_ok w'"
    "w' = w\<lparr>used_channel_ids := used_channel_ids w @ [i]\<rparr>"
    using a k by simp_all
qed

lemma no_id_taken:
  assumes "(case cid of Some i \<Rightarrow> if i \<noteq> 0 then claim_channel_id i else get_free_channel_id
      | None \<Rightarrow> get_free_channel_id) w = (Inl e, w')"
  shows "w' = w"
  using assms by (auto simp: claim_channel_id_def get_free_channel_id_def append_id_def
      split: option.splits if_splits)

lemma channel_init_ok:
  assumes "channel_init E cid decode cb w = (r, w')" and ok: "ids_ok w"
  shows "ids_ok w'" and "channels w = None \<Longrightarrow> channels w' = None" and "fh w' = fh w"
proof -
  let ?take = "(case cid of Some i \<Rightarrow> if i \<noteq> 0 then claim_channel_id i else get_free_channel_id
      | None \<Rightarrow> get_free_channel_id)"
  obtain q w1 where q: "?take w = (q, w1)" by (cases "?take w")
  have "ids_ok w' \<and> (channels w = None \<longrightarrow> channels w' = None) \<and> fh w' = fh w"
  proof (cases q)
    case (Inl e)
    then have "w' = w" using assms(1) q no_id_taken [of cid w e w1] by (simp add: channel_init_def bindA_def)
    then show ?thesis using ok by simp
  next
    case (Inr i)
    note t = take_id [OF q [unfolded Inr] ok]
    show ?thesis
    proof (cases "channels w")
      case None
      then have "w' = w1" using assms(1) q Inr t(4) by (simp add: channel_init_def bindA_def)
      then show ?thesis using t None by simp
    next
      case (Some tbl)
      let ?n = "next_ref w"
      have w': "w' = w1\<lparr>objects := (objects w1)(?n := fresh_chan E w1 i decode cb), next_ref := ?n + 1,
          channels := Some (AList.update i ?n tbl)\<rparr>"
        using assms(1) q Inr t(4) Some by (simp add: channel_init_def bindA_def)
      have tv: "table_valid w tbl" using ids_okD(3) [OF ok Some] .
      have free: "map_of tbl i = None"
        using tv t(1,2) by (cases "map_of tbl i") (auto simp: table_valid_def)
      have 1: "table_valid w' (AList.update i ?n tbl)"
        using tv ids_okD(1) [OF ok]
        by (auto simp: table_valid_def w' t(4) AList.update_conv' less_Suc_eq)
      have 2: "r < next_ref w' \<and> (\<exists>j. channel_id (objects w' r) = Some j
          \<and> map_of (AList.update i ?n tbl) j = Some r)" if l: "live w' r" for r
      proof (cases "r = ?n")
        case True
        then show ?thesis by (simp add: w' fresh_chan_def AList.update_conv')
      next
        case False
        then have "live w r" using l by (simp add: live_def w' t(4))
        then obtain j where "channel_id (objects w r) = Some j" "map_of tbl j = Some r" "r < ?n"
          using ids_okD(4,5) [OF ok] Some by fastforce
        then show ?thesis using False free by (auto simp: w' t(4) AList.update_conv')
      qed
      have 3: "ids_valid (used_channel_ids w')" using ids_okD(2) [OF t(3)] by (simp add: w')
      have ch: "channels w' = Some (AList.update i ?n tbl)" "0 < next_ref w'" "fh w' = fh w"
        by (simp_all add: w' t(4))
      show ?thesis unfolding ids_ok_def using 1 2 3 ch Some by simp
    qed
  qed
  then show "ids_ok w'" and "channels w = None \<Longrightarrow> channels w' = None" and "fh w' = fh w" by blast+
qed

lemma channel_init_none:
  assumes "channel_init E cid decode cb w = (r, w')" and "channels w = None"
  shows "channels w' = None"
proof -
  let ?take = "(case cid of Some i \<Rightarrow> if i \<noteq> 0 then claim_channel_id i else get_free_channel_id
      | None \<Rightarrow> get_free_channel_id)"
  obtain q w1 where q: "?take w = (q, w1)" by (cases "?take w")
  have "channels w1 = None"
    using q assms(2) by (auto simp: claim_channel_id_def get_free_channel_id_def append_id_def
        split: option.splits if_splits)
  then show ?thesis using assms(1) q by (auto simp: channel_init_def bindA_def split: sum.splits)
qed

section \<open>Giving up ids\<close>

lemma collect_simps:
  "next_ref (channel_collect r w) = next_ref w" "fh (channel_collect r w) = fh w"
  "channels w = None \<Longrightarrow> channels (channel_collect r w) = None"
  "live (channel_collect r w) s \<longleftrightarrow> live w s \<and> s \<noteq> r"
  "s \<noteq> r \<Longrightarrow> channel_id (objects (channel_collect r w) s) = channel_id (objects w s)"
  by (auto simp: channel_collect_def Let_def live_def upd_obj_def split: option.splits)

lemma channel_collect_ids:
  assumes ok: "ids_ok w" and r: "r \<noteq> 0" shows "ids_ok (channel_collect r w)"
proof (cases "live w r")
  case False
  then have "\<not> conn_ref (objects w r)" using r by (simp add: live_def)
  then have "channels (channel_collect r w) = channels w"
    "used_channel_ids (channel_collect r w) = used_channel_ids w"
    by (simp_all add: channel_collect_def Let_def upd_obj_def)
  then show ?thesis using ids_ok_cong [OF ok] collect_simps by metis
next
  case True
  obtain tbl i where tbl: "channels w = Some tbl" "channel_id (objects w r) = Some i" "map_of tbl i = Some r"
    using ids_okD(5) [OF ok True] by blast
  let ?w = "channel_collect r w"
  have cr: "conn_ref (objects w r)" using True by (simp add: live_def)
  have w': "channels ?w = Some (AList.delete i tbl)"
    "used_channel_ids ?w = remove1 i (used_channel_ids w)"
    using tbl cr by (simp_all add: channel_collect_def Let_def upd_obj_def)
  have dist: "distinct (used_channel_ids w)" using ids_okD(2) [OF ok] by (simp add: ids_valid_def)
  have 1: "ids_valid (used_channel_ids ?w)"
    using ids_okD(2) [OF ok] by (auto simp: ids_valid_def w' set_remove1_eq)
  have 2: "table_valid ?w (AList.delete i tbl)"
    using ids_okD(3) [OF ok tbl(1)] dist
    by (auto simp: table_valid_def w' collect_simps AList.delete_conv' set_remove1_eq split: if_splits)
  have 3: "\<exists>j. channel_id (objects ?w s) = Some j \<and> map_of (AList.delete i tbl) j = Some s"
    if s: "live w s" "s \<noteq> r" for s
  proof -
    obtain j where "channel_id (objects w s) = Some j" "map_of tbl j = Some s"
      using ids_okD(5) [OF ok s(1)] tbl(1) by auto
    then show ?thesis using s tbl(3) by (auto simp: collect_simps AList.delete_conv')
  qed
  show ?thesis
    unfolding ids_ok_def collect_simps w'
    using 1 2 3 ids_okD(1,4) [OF ok] by (auto simp: w')
qed

lemma collect_all:
  assumes "ids_ok w" and "0 \<notin> set rs"
  shows "ids_ok (fold channel_collect rs w) \<and> fh (fold channel_collect rs w) = fh w
    \<and> (\<forall>s. live (fold channel_collect rs w) s \<longleftrightarrow> live w s \<and> s \<notin> set rs)"
  using assms
proof (induction rs arbitrary: w)
  case Nil
  then show ?case by simp
next
  case (Cons r rs)
  have "ids_ok (channel_collect r w)" using Cons.prems by (intro channel_collect_ids) auto
  from Cons.IH [OF this] Cons.prems(2) show ?case by (simp add: collect_simps)
qed

text \<open>Every channel object in use is in the table, so \<open>Connection.collect\<close> leaves none.\<close>

lemma release_all:
  assumes ok: "ids_ok w"
  defines "w1 \<equiv> (case channels w of None \<Rightarrow> w
      | Some tbl \<Rightarrow> fold channel_collect (filter (\<lambda>r. r \<noteq> 0) (map snd tbl)) w)"
  shows "ids_ok w1" "fh w1 = fh w" "\<not> live w1 r"
proof -
  have "ids_ok w1 \<and> fh w1 = fh w \<and> (\<forall>r. \<not> live w1 r)"
  proof (cases "channels w")
    case None
    then show ?thesis using ok ids_okD(5) [OF ok] by (auto simp: w1_def)
  next
    case (Some tbl)
    have "r \<in> snd ` set tbl" if "live w r" for r
      using ids_okD(5) [OF ok that] Some by (force dest: map_of_SomeD)
    then show ?thesis
      using Some collect_all [OF ok, of "filter (\<lambda>r. r \<noteq> 0) (map snd tbl)"]
      by (auto simp: w1_def live_def)
  qed
  then show "ids_ok w1" "fh w1 = fh w" "\<not> live w1 r" by blast+
qed

lemma connection_collect_ids:
  assumes "connection_collect w = (r, w')" and ok: "client_ok w"
  shows "client_ok w'"
proof -
  obtain q t where q: "(if has_transport w then on_transport close else retA ()) w = (q, t)"
    by (cases "(if has_transport w then on_transport close else retA ()) w")
  have t: "ids_ok t" "channels t = channels w" "fh t = fh w"
    using q ok ids_ok_cong [of w t]
    by (auto simp: on_transport_def client_ok_def live_def split: if_splits prod.splits)
  show ?thesis
  proof (cases q)
    case (Inl e)
    then show ?thesis
      using assms q t by (auto simp: connection_collect_def bindA_def client_ok_def)
  next
    case (Inr x)
    define w1 where "w1 = (case channels t of None \<Rightarrow> t
      | Some tbl \<Rightarrow> fold channel_collect (filter (\<lambda>r. r \<noteq> 0) (map snd tbl)) t)"
    have w': "w' = (upd_obj 0 (\<lambda>c. c\<lparr>conn_ref := False\<rparr>) w1)\<lparr>has_transport := False, channels := None\<rparr>"
      using assms(1) q Inr by (simp add: connection_collect_def bindA_def Let_def w1_def)
    note rel = release_all [OF t(1), folded w1_def]
    have "live w' s = live w1 s" for s by (simp add: w' live_def upd_obj_def)
    then have "ids_ok w'"
      unfolding ids_ok_def using rel(3) ids_okD(1,2) [OF rel(1)] by (simp add: w' upd_obj_def)
    then show ?thesis using rel(2) t(3) ok by (simp add: client_ok_def w' upd_obj_def)
  qed
qed

lemma connection_collect_none:
  assumes "connection_collect w = (r, w')" and "channels w = None" shows "channels w' = None"
  using assms
  by (auto simp: connection_collect_def bindA_def on_transport_def upd_obj_def
      split: sum.splits prod.splits if_splits)

section \<open>The invariant as an instance of the interface\<close>

text \<open>
  The application's callbacks must respect the invariant themselves; a released connection
  stays released.
\<close>

definition kept :: "world \<Rightarrow> world \<Rightarrow> bool" where
  "kept w w' \<longleftrightarrow> (client_ok w \<longrightarrow> client_ok w') \<and> (channels w = None \<longrightarrow> channels w' = None)"

definition app_keeps :: "env \<Rightarrow> bool" where
  "app_keeps E \<longleftrightarrow> (\<forall>k xs w. kept w (snd (app E k xs w)))"

definition keeps :: "env \<Rightarrow> world \<Rightarrow> world \<Rightarrow> bool" where
  "keeps E w w' \<longleftrightarrow> (app_keeps E \<longrightarrow> kept w w')"

lemma kept_cong:
  assumes "channels w' = channels w" "next_ref w' = next_ref w" "used_channel_ids w' = used_channel_ids w"
    and "\<And>r. live w' r \<Longrightarrow> live w r \<and> channel_id (objects w' r) = channel_id (objects w r)"
    and "handler_ok (fh w) \<Longrightarrow> handler_ok (fh w')"
  shows "keeps E w w'"
  using ids_ok_cong [of w w'] assms by (auto simp: keeps_def kept_def client_ok_def)

lemma keeps_same: "objects w' = objects w \<Longrightarrow> channels w' = channels w \<Longrightarrow> next_ref w' = next_ref w
    \<Longrightarrow> used_channel_ids w' = used_channel_ids w \<Longrightarrow> fh w' = fh w \<Longrightarrow> keeps E w w'"
  by (rule kept_cong) (simp_all add: live_def)

lemma keepsI: "(\<And>w r w'. m w = (r, w') \<Longrightarrow> keeps E w w') \<Longrightarrow> holds (keeps E) (\<lambda>_ _. True) m"
  by (simp add: holds_def)

lemma on_transport_keeps: "holds (keeps E) (\<lambda>_ _. True) (on_transport m)"
  by (rule keepsI) (auto simp: on_transport_def intro!: keeps_same split: prod.splits)

lemma dial_up_keeps: "holds (keeps E) (\<lambda>_ _. True) (dial_up E)"
proof (rule keepsI)
  fix w r w' assume "dial_up E w = (r, w')"
  then show "keeps E w w'"
    by (intro keeps_same)
      (auto simp: dial_up_def new_transport_def next_dial_def bindA_def on_transport_def
        split: sum.splits prod.splits list.splits option.splits)
qed

interpretation ids: patient_client "keeps E" "\<lambda>_ _. True" "\<lambda>_. False" E for E
proof unfold_locales
  show "keeps E w w'" if "same_core w w'" for w w'
    using that by (intro kept_cong) (auto simp: same_core_def live_def)
  show "holds (keeps E) (\<lambda>_ _. True) (channel_init E cid decode cb)" for cid decode cb
    using channel_init_ok(1,3) channel_init_none
    by (intro keepsI) (simp add: keeps_def kept_def client_ok_def)
  show "keeps E w (channel_collect r w)" if "r \<noteq> 0" for r w
    using channel_collect_ids [OF _ that] collect_simps(2,3) by (auto simp: keeps_def kept_def client_ok_def)
  show "holds (keeps E) (\<lambda>_ _. True) connection_collect"
    using connection_collect_ids connection_collect_none by (intro keepsI) (simp add: keeps_def kept_def)
  show "keeps E w (upd_obj r (\<lambda>c. c\<lparr>is_closing := False, conn_ref := False\<rparr>) w)" for w r
    by (rule kept_cong) (auto simp: upd_obj_def live_def)
  show "keeps E w (w\<lparr>fh := h\<rparr>)" if "on_frame frm (fh w) = (d, h)" for w frm d h
    using on_frame_ok [OF _ that] by (intro kept_cong) (simp_all add: live_def)
  show "keeps E w (w\<lparr>fh := frame_handler_init n\<rparr>)" for w n
    by (rule kept_cong) (simp_all add: live_def handler_init_ok)
  show "keeps E w (w\<lparr>fw := f\<rparr>) \<and> (\<forall>e. q = Inl e \<longrightarrow> True)" for w f and q :: "exn + unit"
    by (simp add: keeps_same)
  show "holds (keeps E) (\<lambda>_ _. True) (app E k xs)" for k xs
    by (rule keepsI) (auto simp: keeps_def app_keeps_def, metis snd_conv)
  show "keeps E w (upd_transport (set_timeout tmo) w)" for w tmo
    by (rule keeps_same) (simp_all add: upd_transport_def)
qed (auto simp: keeps_def kept_def intro: dial_up_keeps on_transport_keeps keeps_same)

end
