(* ===== verification/Client_Run.thy ===== *)
theory Client_Run
  imports Client_Invariant
begin

text \<open>
  Runs of a client: any sequence of calls of the public operations, each of which may process
  any number of inbound frames and end in any error.
\<close>

section \<open>Requests\<close>

datatype call =
    Open | Do_close pyval pyval method_sig | Flow pyval
  | Declare_exchange pyval pyval pyval pyval pyval pyval pyval | Delete_exchange pyval pyval pyval
  | Bind_exchange pyval pyval pyval pyval pyval | Unbind_exchange pyval pyval pyval pyval pyval
  | Declare_queue pyval pyval pyval pyval pyval pyval pyval | Delete_queue pyval pyval pyval pyval
  | Bind_queue pyval pyval pyval pyval pyval | Unbind_queue pyval pyval pyval pyval pyval
  | Purge_queue pyval pyval | Ack pyval pyval | Reject pyval pyval | Cancel pystr pyval
  | Consume pyval pystr pyval pyval pyval pyval "nat option" pyval "nat option" | Get pyval pyval
  | Publish message pyval pyval pyval pyval "rat option" "rat option"
  | Publish_confirm message pyval pyval pyval pyval "rat option" "rat option"
  | Select_confirm pyval | Qos pyval pyval pyval | Recover pyval | Recover_async pyval
  | Select_tx | Commit_tx | Rollback_tx

definition nothing :: "unit wact \<Rightarrow> result wact" where
  "nothing m = bindA m (\<lambda>_. retA RNone)"

fun perform_call :: "env \<Rightarrow> drainer \<Rightarrow> nat \<Rightarrow> call \<Rightarrow> result wact" where
  "perform_call E dr r Open = channel_open E dr r"
| "perform_call E dr r (Do_close c t sig) = channel_close E dr r c t sig"
| "perform_call E dr r (Flow a) = channel_flow E dr r a"
| "perform_call E dr r (Declare_exchange a b c d e f g) = exchange_declare E dr r a b c d e f g"
| "perform_call E dr r (Delete_exchange a b c) = exchange_delete E dr r a b c"
| "perform_call E dr r (Bind_exchange a b c d e) = exchange_bind E dr r a b c d e"
| "perform_call E dr r (Unbind_exchange a b c d e) = exchange_unbind E dr r a b c d e"
| "perform_call E dr r (Declare_queue a b c d e f g) = queue_declare E dr r a b c d e f g"
| "perform_call E dr r (Delete_queue a b c d) = queue_delete E dr r a b c d"
| "perform_call E dr r (Bind_queue a b c d e) = queue_bind E dr r a b c d e"
| "perform_call E dr r (Unbind_queue a b c d e) = queue_unbind E dr r a b c d e"
| "perform_call E dr r (Purge_queue a b) = queue_purge E dr r a b"
| "perform_call E dr r (Ack a b) = basic_ack E dr r a b"
| "perform_call E dr r (Reject a b) = basic_reject E dr r a b"
| "perform_call E dr r (Cancel a b) = basic_cancel E dr r a b"
| "perform_call E dr r (Consume a b c d e f g h i) = basic_consume E dr r a b c d e f g h i"
| "perform_call E dr r (Get a b) = basic_get E dr r a b"
| "perform_call E dr r (Publish m a b c d t u) = basic_publish E dr r m a b c d t u"
| "perform_call E dr r (Publish_confirm m a b c d t u) = basic_publish_confirm E dr r m a b c d t u"
| "perform_call E dr r (Select_confirm a) = confirm_select E dr r a"
| "perform_call E dr r (Qos a b c) = basic_qos E dr r a b c"
| "perform_call E dr r (Recover a) = basic_recover E dr r a"
| "perform_call E dr r (Recover_async a) = basic_recover_async E dr r a"
| "perform_call E dr r Select_tx = tx_select E dr r"
| "perform_call E dr r Commit_tx = tx_commit E dr r"
| "perform_call E dr r Rollback_tx = tx_rollback E dr r"

datatype request =
    Connect | New_channel "int option" "nat option" | Drain "rat option" | Tick rat | Beat
  | Disconnect pyval pyval method_sig | Call nat call

fun perform :: "env \<Rightarrow> drainer \<Rightarrow> request \<Rightarrow> result wact" where
  "perform E dr Connect = nothing (connection_connect E dr)"
| "perform E dr (New_channel i cb) = connection_channel E dr i cb"
| "perform E dr (Drain tmo) = nothing (snd dr tmo)"
| "perform E dr (Tick rate) = nothing (heartbeat_tick E dr rate)"
| "perform E dr Beat = nothing (send_heartbeat E dr)"
| "perform E dr (Disconnect c t sig) = connection_close E dr c t sig"
| "perform E dr (Call r c) = perform_call E dr r c"

context client
begin

lemma perform_call_ok: "good R X dr \<Longrightarrow> holds R X (perform_call E dr r c)"
  by (cases c) (simp_all add: channel_open_ok channel_close_ok call_ok queue_declare_ok basic_cancel_ok
      basic_consume_ok basic_get_ok basic_publish_ok)

lemma perform_ok:
  assumes "good R X dr" shows "holds R X (perform E dr req)"
proof -
  have "holds R X (snd dr tmo)" for tmo using assms by (simp add: good_def)
  then show ?thesis
    by (cases req) (auto simp: nothing_def intro!: bind ret connection_connect_ok connection_channel_ok
        heartbeat_tick_ok send_heartbeat_ok connection_close_ok perform_call_ok assms)
qed

end

section \<open>Reachable states\<close>

text \<open>
  From a fresh connection, by requests with any fuel; a call is made on a channel object that
  exists.
\<close>

inductive reachable :: "env \<Rightarrow> world \<Rightarrow> bool" for E where
  fresh: "connection_init auth ft dials readings t vhost loc props cmax fmax hb confirm cb1 cb2 cb3 = Inr w
    \<Longrightarrow> reachable E w"
| request: "reachable E w \<Longrightarrow> (\<And>r c. req = Call r c \<Longrightarrow> 0 < r \<and> r < next_ref w)
    \<Longrightarrow> perform E (drainer n E) req w = (q, w') \<Longrightarrow> reachable E w'"

lemma fresh_client_ok:
  assumes "connection_init auth ft dials readings t vhost loc props cmax fmax hb confirm cb1 cb2 cb3 = Inr w"
  shows "client_ok w"
proof -
  obtain a where w: "objects w = (\<lambda>_. unallocated)(0 := connection_obj cb1)" "next_ref w = 1"
    "channels w = Some [(0, 0)]" "used_channel_ids w = []" "fh w = frame_handler_init 0"
    using assms by (auto simp: connection_init_def bindE_eq_Inr)
  then have "\<not> live w r" for r by (simp add: live_def unallocated_def)
  then show ?thesis using w
    by (auto simp: client_ok_def ids_ok_def ids_valid_def table_valid_def handler_init_ok)
qed

lemma request_kept:
  assumes "perform E (drainer n E) req w = (q, w')" and "app_keeps E" shows "kept w w'"
  using holdsD(1) [OF ids.perform_ok [OF ids.drainer_ok] assms(1)] assms(2) by (simp add: keeps_def)

lemma reachable_ok: "reachable E w \<Longrightarrow> app_keeps E \<Longrightarrow> client_ok w"
proof (induction rule: reachable.induct)
  case fresh
  then show ?case using fresh_client_ok by blast
next
  case request
  then show ?case using request_kept by (auto simp: kept_def)
qed

lemma closed_for_good:
  assumes "perform E (drainer n E) req w = (q, w')" "app_keeps E" "channels w = None"
  shows "channels w' = None"
  using request_kept [OF assms(1,2)] assms(3) by (simp add: kept_def)

end
