(* ===== verification/Event_Loop.thy ===== *)
theory Event_Loop
  imports Client_Run
begin

text \<open>
  The event loop does not run for ever: it ends with a method handled, an exception, or, in the
  model, at the end of what the peer and the addresses still to be dialled have to offer. The
  fuel of \<open>drain_events\<close> bounds the turns of every loop on the way, and more than there are
  octets and addresses left is never used up.
\<close>

section \<open>What is left to happen\<close>

definition addr_data :: "io_error + (io_error + socket) list \<Rightarrow> nat" where
  "addr_data d = (case d of Inl _ \<Rightarrow> 0
     | Inr es \<Rightarrow> sum_list (map (\<lambda>x. case x of Inl _ \<Rightarrow> 0 | Inr s \<Rightarrow> length (pending_data (incoming s))) es))"

definition potential :: "world \<Rightarrow> nat" where
  "potential w = length (unread (transport (fw w))) + sum_list (map (\<lambda>d. Suc (addr_data d)) (dial w))"

text \<open>A new transport has read nothing.\<close>

definition fresh_ok :: "world \<Rightarrow> bool" where
  "fresh_ok w \<longleftrightarrow> (\<forall>t. fresh_transport w = Some t \<longrightarrow> unread t = [])"

text \<open>
  What is asked of the environment: encoding text returns or raises, a TLS handshake returns or
  raises and adds nothing to what the socket will deliver, and a callback neither runs for ever nor feeds the
  connection.
\<close>

definition tls_lawful :: "net \<Rightarrow> bool" where
  "tls_lawful N \<longleftrightarrow> files_return (ssl_module N)
     \<and> (\<forall>x s. do_handshake N x s \<noteq> Inl OutOfFuel)
     \<and> (\<forall>x s s'. do_handshake N x s = Inr s' \<longrightarrow>
          length (pending_data (incoming s')) \<le> length (pending_data (incoming s)))"

definition lawful :: "env \<Rightarrow> bool" where
  "lawful E \<longleftrightarrow> codecs_ok (codecs E)
     \<and> tls_lawful (net_of E)
     \<and> (\<forall>k xs w r w'. app E k xs w = (r, w') \<longrightarrow> fresh_ok w \<longrightarrow>
          fresh_ok w' \<and> potential w' \<le> potential w \<and> r \<noteq> Inl OutOfFuel)"

section \<open>Connecting delivers no more than was announced\<close>

definition shrinks :: "tcp_transport \<Rightarrow> tcp_transport \<Rightarrow> bool" where
  "shrinks t t' \<longleftrightarrow> length (unread t') \<le> length (unread t)"

interpretation sh: effect shrinks no_exhaustion "\<lambda>e. e = OutOfFuel"
  by unfold_locales (auto simp: shrinks_def no_exhaustion_def)

lemma on_socket_shrinks:
  assumes "\<And>s r s'. f s = (r, s') \<Longrightarrow> length (pending_data (incoming s')) \<le> length (pending_data (incoming s))
    \<and> r \<noteq> Inl OutOfFuel"
  shows "holds shrinks no_exhaustion (on_socket f)"
  using assms
  by (intro holdsI)
    (fastforce simp: on_socket_def shrinks_def no_exhaustion_def unread_def sock_data_def
      split: option.splits prod.splits)+

lemma setsockopt_data:
  "setsockopt l k v s = (r, s') \<Longrightarrow> length (pending_data (incoming s')) \<le> length (pending_data (incoming s))
    \<and> r \<noteq> Inl OutOfFuel"
  by (auto simp: setsockopt_def split: option.splits)

lemma write_raw_shrinks: "holds shrinks no_exhaustion (write_raw d)"
proof (rule holdsI)
  fix t r t' assume "write_raw d t = (r, t')"
  then show "shrinks t t'"
    by (auto simp: write_raw_def shrinks_def unread_def sock_data_def split: option.splits prod.splits)
next
  fix t e t' assume "write_raw d t = (Inl e, t')"
  then show "no_exhaustion t e"
    using send_loop_no_fuel [of "is_ssl t" d "send_events (the (sock t))"]
    by (auto simp: write_raw_def no_exhaustion_def split: option.splits prod.splits if_splits)
qed

lemma init_socket_shrinks:
  assumes "tls_lawful N" shows "holds shrinks no_exhaustion (init_socket N)"
proof -
  have tmo: "holds shrinks no_exhaustion (on_socket (modA (\<lambda>s. s\<lparr>sock_timeout := x\<rparr>)))" for x
    by (rule on_socket_shrinks) auto
  have shake: "holds shrinks no_exhaustion (on_socket (\<lambda>s. case do_handshake N session s of
      Inl e \<Rightarrow> (Inl e, s) | Inr s' \<Rightarrow> (Inr (), s')))" for session
    by (rule on_socket_shrinks) (use assms in \<open>fastforce simp: tls_lawful_def split: sum.splits\<close>)
  have tls: "holds shrinks no_exhaustion (setup_ssl N)"
    unfolding setup_ssl_def
    by (intro sh.bind sh.get sh.lift tmo shake)
      (use assms wrap_socket_no_fuel in \<open>auto simp: tls_lawful_def\<close>)
  have buf: "holds shrinks no_exhaustion (modA (\<lambda>t. t\<lparr>read_buffer := []\<rparr>))"
    by (rule sh.modify) (simp add: shrinks_def unread_def)
  have opt: "holds shrinks no_exhaustion (on_socket (setsockopt l k v))" for l k v
    by (rule on_socket_shrinks) (rule setsockopt_data)
  show ?thesis
    unfolding init_socket_def
    by (auto intro!: sh.bind sh.forA sh.get sh.ret tls buf opt tmo write_raw_shrinks split: option.split)
qed

lemma open_socket_data:
  "open_socket fcntl tmo s = (r, s') \<Longrightarrow> incoming s' = incoming s \<and> r \<noteq> Inl OutOfFuel"
  by (auto simp: open_socket_def set_cloexec_def catchA_def bindA_def split: option.splits if_splits)

lemma drop_sock_data:
  "drop_sock t = (r, t') \<Longrightarrow> (r = Inr () \<longrightarrow> t' = t\<lparr>sock := None\<rparr>) \<and> length (unread t') \<le> length (unread t)
    \<and> r \<noteq> Inl OutOfFuel"
  by (auto simp: drop_sock_def unread_def sock_data_def split: option.splits)

lemma connect_loop_data:
  assumes "connect_loop fcntl tmo es t = (r, t')" and "read_buffer t = []"
    and "sock_data (sock t) = []"
  shows "length (unread t') \<le> addr_data (Inr es) \<and> r \<noteq> Inl OutOfFuel"
  using assms
proof (induction es arbitrary: t)
  case (Cons x es)
  obtain q t1 where q: "(case x of Inl e \<Rightarrow> (Inl (io_exn e), t)
      | Inr s \<Rightarrow> on_socket (open_socket fcntl tmo) (t\<lparr>sock := Some s\<rparr>)) = (q, t1)" by fastforce
  have 1: "q \<noteq> Inl OutOfFuel" "read_buffer t1 = []"
    "length (unread t1) \<le> (case x of Inl _ \<Rightarrow> 0 | Inr s \<Rightarrow> length (pending_data (incoming s)))"
    using q Cons.prems(2,3)
    by (auto simp: on_socket_def unread_def sock_data_def dest!: open_socket_data split: sum.splits prod.splits)
  obtain p t2 where p: "drop_sock t1 = (p, t2)" by fastforce
  note d = drop_sock_data [OF p]
  have 2: "read_buffer (t1\<lparr>sock := None\<rparr>) = []" "sock_data (sock (t1\<lparr>sock := None\<rparr>)) = []"
    using 1(2) by (simp_all add: sock_data_def)
  show ?case
    using Cons.prems(1) Cons.IH [OF _ 2] 1 p d
    by (fastforce simp: q addr_data_def split: sum.splits if_splits)
qed (auto simp: unread_def)

lemma connect_data:
  assumes "connect addrs N t = (r, t')" and t: "unread t = []" and w: "tls_lawful N"
  shows "length (unread t') \<le> addr_data addrs \<and> r \<noteq> Inl OutOfFuel"
proof -
  have tt: "read_buffer t = []" "sock_data (sock t) = []" using t by (simp_all add: unread_def)
  define m where "m = bindA (liftA (case addrs of Inl e \<Rightarrow> Inl (io_exn e) | Inr es \<Rightarrow> Inr es)) (\<lambda>entries.
               bindA (connect_loop (fcntl_module N) (connect_timeout t) entries) (\<lambda>_. init_socket N))"
  obtain q t1 where q: "m t = (q, t1)" by (cases "m t")
  have 1: "length (unread t1) \<le> addr_data addrs \<and> q \<noteq> Inl OutOfFuel"
  proof (cases addrs)
    case (Inl e)
    then show ?thesis using q t by (auto simp: m_def bindA_def)
  next
    case (Inr es)
    obtain q0 t0 where 0: "connect_loop (fcntl_module N) (connect_timeout t) es t = (q0, t0)" by fastforce
    note d = connect_loop_data [OF 0 tt]
    show ?thesis
    proof (cases q0)
      case (Inl e)
      then show ?thesis using q 0 d Inr by (auto simp: m_def bindA_def)
    next
      case x: (Inr x)
      then have i: "init_socket N t0 = (q, t1)" using q 0 Inr by (simp add: m_def bindA_def)
      note holdsD [OF init_socket_shrinks [OF w] i]
      then show ?thesis using d Inr by (auto simp: shrinks_def no_exhaustion_def)
    qed
  qed
  obtain p t2 where p: "drop_sock t1 = (p, t2)" by fastforce
  have "unread (t1\<lparr>connected := c\<rparr>) = unread t1" for c by (simp add: unread_def)
  then show ?thesis
    using assms(1) q 1 t p drop_sock_data [OF p]
    by (auto simp: connect_def m_def [symmetric] bindA_def split: if_splits sum.splits)
qed

lemma close_data:
  assumes "close t = (r, t')" shows "length (unread t') \<le> length (unread t) \<and> r \<noteq> Inl OutOfFuel"
proof -
  have "holds shrinks no_exhaustion close"
    unfolding close_def ignore_OSError_def
    by (auto intro!: sh.bind sh.get sh.ret sh.modify sh.raise split: option.split
        simp: shrinks_def unread_def sock_data_def)
  from holdsD [OF this assms] show ?thesis by (auto simp: shrinks_def no_exhaustion_def)
qed

section \<open>The instance of the interface\<close>

definition pot_le :: "env \<Rightarrow> world \<Rightarrow> world \<Rightarrow> bool" where
  "pot_le E w w' \<longleftrightarrow> (lawful E \<longrightarrow> fresh_ok w \<longrightarrow> fresh_ok w' \<and> potential w' \<le> potential w)"

definition fuel_ok :: "env \<Rightarrow> nat \<Rightarrow> world \<Rightarrow> exn \<Rightarrow> bool" where
  "fuel_ok E N w e \<longleftrightarrow> (lawful E \<longrightarrow> fresh_ok w \<longrightarrow> potential w < N \<longrightarrow> e \<noteq> OutOfFuel)"

text \<open>An action that uses something up whenever it returns.\<close>

definition strict :: "env \<Rightarrow> 'a wact \<Rightarrow> bool" where
  "strict E m \<longleftrightarrow> (\<forall>w x w'. m w = (Inr x, w') \<longrightarrow> lawful E \<longrightarrow> fresh_ok w \<longrightarrow> potential w' < potential w)"

lemma pot_same: "transport (fw w') = transport (fw w) \<Longrightarrow> dial w' = dial w
    \<Longrightarrow> fresh_transport w' = fresh_transport w \<Longrightarrow> pot_le E w w'"
  by (simp add: pot_le_def potential_def fresh_ok_def)

lemma pot_transport:
  "length (unread (transport (fw w'))) \<le> length (unread (transport (fw w))) \<Longrightarrow> dial w' = dial w
    \<Longrightarrow> fresh_transport w' = fresh_transport w \<Longrightarrow> pot_le E w w'"
  by (simp add: pot_le_def potential_def fresh_ok_def)

lemma dial_up_pot:
  assumes "dial_up E w = (r, w')" and l: "lawful E" and f: "fresh_ok w"
  shows "fresh_ok w'" "potential w' \<le> potential w" "r \<noteq> Inl OutOfFuel"
    and "\<And>x. r = Inr x \<Longrightarrow> potential w' < potential w"
proof -
  have "fresh_ok w' \<and> potential w' \<le> potential w \<and> r \<noteq> Inl OutOfFuel
    \<and> (\<forall>x. r = Inr x \<longrightarrow> potential w' < potential w)"
  proof (cases "fresh_transport w")
    case None
    then show ?thesis using assms by (auto simp: dial_up_def new_transport_def bindA_def)
  next
    case (Some t)
    have t: "unread t = []" using f Some by (simp add: fresh_ok_def)
    show ?thesis
    proof (cases "dial w")
      case Nil
      then show ?thesis
        using assms Some t
        by (auto simp: dial_up_def new_transport_def next_dial_def bindA_def potential_def fresh_ok_def)
    next
      case (Cons d ds)
      obtain q t' where q: "connect d (net_of E) t = (q, t')"
        by (cases "connect d (net_of E) t")
      have "length (unread t') \<le> addr_data d \<and> q \<noteq> Inl OutOfFuel"
        by (rule connect_data [OF q t]) (use l in \<open>auto simp: lawful_def\<close>)
      then show ?thesis
        using assms Some Cons q
        by (auto simp: dial_up_def new_transport_def next_dial_def bindA_def on_transport_def
            potential_def fresh_ok_def)
    qed
  qed
  then show "fresh_ok w'" "potential w' \<le> potential w" "r \<noteq> Inl OutOfFuel"
    and "\<And>x. r = Inr x \<Longrightarrow> potential w' < potential w" by blast+
qed

lemma collect_fw:
  "fw (channel_collect r w) = fw w" "dial (channel_collect r w) = dial w"
  "fresh_transport (channel_collect r w) = fresh_transport w"
  by (auto simp: channel_collect_def Let_def upd_obj_def split: option.splits)

lemma collect_all_fw:
  "fw (fold channel_collect rs w) = fw w" "dial (fold channel_collect rs w) = dial w"
  "fresh_transport (fold channel_collect rs w) = fresh_transport w"
  by (induction rs arbitrary: w) (simp_all add: collect_fw)

lemma connection_collect_pot:
  assumes "connection_collect w = (r, w')" shows "pot_le E w w' \<and> r \<noteq> Inl OutOfFuel"
proof -
  obtain q t where q: "close (transport (fw w)) = (q, t)" by (cases "close (transport (fw w))")
  show ?thesis
    using assms close_data [OF q] q
    by (cases "channels w"; cases q)
      (auto simp: connection_collect_def bindA_def on_transport_def upd_obj_def collect_all_fw Let_def
        intro!: pot_transport split: if_splits)
qed

interpretation loop: client "pot_le E" "fuel_ok E N" "\<lambda>e. e = OutOfFuel" E for E N
proof unfold_locales
  show "pot_le E w w" for w by (simp add: pot_le_def)
  show "pot_le E s t \<Longrightarrow> pot_le E t u \<Longrightarrow> pot_le E s u" for s t u
    by (auto simp: pot_le_def)
  show "pot_le E s t \<Longrightarrow> fuel_ok E N t e \<Longrightarrow> fuel_ok E N s e" for s t e
    by (auto simp: pot_le_def fuel_ok_def)
  show "pot_le E w w'" if "same_core w w'" for w w'
    using that by (intro pot_same) (simp_all add: same_core_def)
  show "holds (pot_le E) (fuel_ok E N) (channel_init E cid decode cb)" for cid decode cb
  proof (intro holdsI)
    fix w r w' assume "channel_init E cid decode cb w = (r, w')"
    then show "pot_le E w w'"
      by (intro pot_same)
        (auto simp: channel_init_def bindA_def claim_channel_id_def get_free_channel_id_def append_id_def
          split: option.splits if_splits sum.splits)
  next
    fix w e w' assume "channel_init E cid decode cb w = (Inl e, w')"
    then show "fuel_ok E N w e"
      by (auto simp: fuel_ok_def channel_init_def bindA_def claim_channel_id_def get_free_channel_id_def
          append_id_def split: option.splits if_splits sum.splits prod.splits)
  qed
  show "pot_le E w (channel_collect r w)" for r w by (rule pot_same) (simp_all add: collect_fw)
  show "holds (pot_le E) (fuel_ok E N) connection_collect"
    by (intro holdsI) (auto dest: connection_collect_pot simp: fuel_ok_def)
  show "pot_le E w (upd_obj r (\<lambda>c. c\<lparr>is_closing := False, conn_ref := False\<rparr>) w)" for r w
    by (rule pot_same) (simp_all add: upd_obj_def)
  show "pot_le E w (w\<lparr>fw := f\<rparr>) \<and> (\<forall>e. q = Inl e \<longrightarrow> fuel_ok E N w e)"
    if "write_frame (codecs E) write_bytes t ch sig args content (fw w) = (q, f, m)"
    for t ch sig args content w q f m
    using write_frame_writes [OF _ that]
    by (auto simp: pot_le_def fuel_ok_def lawful_def writes_def potential_def fresh_ok_def)
  show "pot_le E w (w\<lparr>fh := h\<rparr>)" for w h by (rule pot_same) simp_all
  show "pot_le E w (w\<lparr>fh := frame_handler_init n\<rparr>)" for w n by (rule pot_same) simp_all
  show "holds (pot_le E) (fuel_ok E N) (dial_up E)"
    using dial_up_pot(1-3) by (intro holdsI) (fastforce simp: pot_le_def fuel_ok_def)+
  show "pot_le E w (upd_transport (set_timeout tmo) w)" for w tmo
    by (rule pot_transport)
      (auto simp: upd_transport_def set_timeout_def unread_def sock_data_def split: option.split)
  show "holds (pot_le E) (fuel_ok E N) (app E k xs)" for k xs
    by (intro holdsI) (auto simp: pot_le_def fuel_ok_def lawful_def, blast+)
qed (auto simp: fuel_ok_def)

section \<open>Loops\<close>

lemma dial_up_strict: "strict E (dial_up E)"
  using dial_up_pot(4) by (auto simp: strict_def)

lemma bind_strict:
  assumes "holds (pot_le E) (fuel_ok E (Suc N)) m" "strict E m" "\<And>x. holds (pot_le E) (fuel_ok E N) (f x)"
  shows "holds (pot_le E) (fuel_ok E (Suc N)) (bindA m f)" "strict E (bindA m f)"
proof -
  have *: "potential w' < potential w \<and> fresh_ok w'" if "m w = (Inr x, w')" "lawful E" "fresh_ok w" for w x w'
    using that assms(2) holdsD(1) [OF assms(1) that(1)] by (auto simp: strict_def pot_le_def)
  show "holds (pot_le E) (fuel_ok E (Suc N)) (bindA m f)"
  proof (intro holdsI)
    fix w r w' assume "bindA m f w = (r, w')"
    then show "pot_le E w w'"
      by (cases rule: bindA_cases)
        (auto dest: holdsD(1) [OF assms(1)] intro: loop.trans [OF holdsD(1) [OF assms(1)] holdsD(1) [OF assms(3)]])
  next
    fix w e w' assume "bindA m f w = (Inl e, w')"
    then show "fuel_ok E (Suc N) w e"
    proof (cases rule: bindA_cases)
      case (raised e')
      then show ?thesis using holds_Inl [OF assms(1)] by auto
    next
      case (ok x t)
      show ?thesis
        using * [OF ok(1)] holds_Inl [OF assms(3) ok(2)] by (auto simp: fuel_ok_def)
    qed
  qed
  show "strict E (bindA m f)"
    unfolding strict_def
  proof (intro allI impI)
    fix w y w' assume "bindA m f w = (Inr y, w')" and l: "lawful E" "fresh_ok w"
    then show "potential w' < potential w"
      by (cases rule: bindA_cases)
        (use l in \<open>auto dest!: * holdsD(1) [OF assms(3)] simp: pot_le_def\<close>)
  qed
qed

lemma strict_bind:
  assumes "holds (pot_le E) X m" and "\<And>x. strict E (f x)" shows "strict E (bindA m f)"
  unfolding strict_def
proof (intro allI impI)
  fix w y w' assume "bindA m f w = (Inr y, w')" and l: "lawful E" "fresh_ok w"
  then show "potential w' < potential w"
  proof (cases rule: bindA_cases)
    case (ok x t)
    then have "fresh_ok t" "potential t \<le> potential w"
      using holdsD(1) [OF assms(1) ok(1)] l by (auto simp: pot_le_def)
    then show ?thesis using assms(2) [of x] ok(2) l by (fastforce simp: strict_def)
  qed simp
qed

text \<open>Reading a frame under a timeout.\<close>

lemma having_timeout_read:
  assumes "having_timeout (\<lambda>t. t) (\<lambda>f. f) tmo read_frame t = (r, t')"
  shows "length (unread t') \<le> length (unread t) \<and> r \<noteq> Inl OutOfFuel
    \<and> (\<forall>x. r = Inr x \<longrightarrow> length (unread t') < length (unread t))"
proof -
  have set: "unread (set_timeout y u) = unread u" for y u
    by (simp add: set_timeout_def unread_def sock_data_def split: option.split)
  have fuel: "timeout_error e = OutOfFuel \<longleftrightarrow> e = OutOfFuel" for e by (rule loop.timeout_error_fuel)
  show ?thesis
  proof (cases "tmo = None \<or> sock t = None")
    case True
    then show ?thesis
      using assms read_frame_shrinks [of t r t'] by (auto simp: having_timeout_def split: option.splits)
  next
    case False
    then obtain x s where x: "tmo = Some x" "sock t = Some s" by auto
    define t1 where "t1 = (if sock_timeout s \<noteq> tmo then set_timeout tmo t else t)"
    obtain q t2 where q: "read_frame t1 = (q, t2)" by (cases "read_frame t1")
    have u: "unread t1 = unread t" by (simp add: t1_def set)
    note rf = read_frame_shrinks [OF q, unfolded u]
    have "(r = Inl (OSErr (Some EBADF)) \<and> t' = t2)
      \<or> (r = (case q of Inl e \<Rightarrow> Inl (timeout_error e) | Inr x \<Rightarrow> Inr x) \<and> unread t' = unread t2)"
      using assms x q [unfolded t1_def]
      by (cases "sock_timeout s = tmo")
        (auto simp: having_timeout_def Let_def set split: if_splits)
    then show ?thesis
    proof
      assume "r = Inl (OSErr (Some EBADF)) \<and> t' = t2"
      then show ?thesis using rf by simp
    next
      assume r: "r = (case q of Inl e \<Rightarrow> Inl (timeout_error e) | Inr x \<Rightarrow> Inr x) \<and> unread t' = unread t2"
      show ?thesis using rf r fuel by (cases q) simp_all
    qed
  qed
qed

lemma read_step:
  "holds (pot_le E) (fuel_ok E N) (on_transport (having_timeout (\<lambda>t. t) (\<lambda>f. f) tmo read_frame))"
  "strict E (on_transport (having_timeout (\<lambda>t. t) (\<lambda>f. f) tmo read_frame))"
proof -
  let ?m = "having_timeout (\<lambda>t. t) (\<lambda>f. f) tmo read_frame"
  have step: "pot_le E w w' \<and> r \<noteq> Inl OutOfFuel \<and> (\<forall>x. r = Inr x \<longrightarrow> potential w' < potential w)"
    if "on_transport ?m w = (r, w')" for w r w'
  proof -
    obtain t where t: "?m (transport (fw w)) = (r, t)" "w' = w\<lparr>fw := (fw w)\<lparr>transport := t\<rparr>\<rparr>"
      using \<open>on_transport ?m w = (r, w')\<close> by (auto simp: on_transport_def split: prod.splits)
    note ht = having_timeout_read [OF t(1)]
    have "pot_le E w w'" using ht by (intro pot_transport) (simp_all add: t(2))
    then show ?thesis using ht by (simp add: t(2) potential_def)
  qed
  show "holds (pot_le E) (fuel_ok E N) (on_transport ?m)"
    by (intro holdsI) (auto dest: step simp: fuel_ok_def)
  show "strict E (on_transport ?m)"
    unfolding strict_def using step by blast
qed

text \<open>The loops of a waiting call and of the handshake, over a strict event loop.\<close>

lemma fuel_0: "holds (pot_le E) (fuel_ok E 0) (\<lambda>w. (Inl OutOfFuel, w))"
  by (rule holdsI) (auto simp: pot_le_def fuel_ok_def)

lemma fuel_mono: "holds (pot_le E) (fuel_ok E N) m \<Longrightarrow> M \<le> N \<Longrightarrow> holds (pot_le E) (fuel_ok E M) m"
  by (auto simp: holds_def fuel_ok_def)

lemma wait_loop_pot:
  assumes "\<And>tmo. holds (pot_le E) (fuel_ok E n) (drain tmo)" "\<And>tmo. strict E (drain tmo)" and "k \<le> n"
  shows "holds (pot_le E) (fuel_ok E k) (wait_loop k drain r p tmo)"
  using assms(3)
proof (induction k)
  case 0
  show ?case unfolding wait_loop_eqs
    by (intro loop.on_option loop.ret_state loop.branch loop.raise_state fuel_0) (simp add: recoverable_def)
next
  case (Suc k)
  have "holds (pot_le E) (fuel_ok E (Suc k)) (bindA (drain tmo) (\<lambda>_. wait_loop k drain r p tmo))"
    by (rule bind_strict(1)) (use Suc assms in \<open>auto intro: fuel_mono\<close>)
  then show ?case unfolding wait_loop_eqs
    by (intro loop.on_option loop.ret_state loop.branch loop.raise_state) (simp_all add: recoverable_def)
qed

lemma handshake_loop_pot:
  assumes "\<And>tmo. holds (pot_le E) (fuel_ok E n) (drain tmo)" "\<And>tmo. strict E (drain tmo)" and "k \<le> n"
  shows "holds (pot_le E) (fuel_ok E k) (handshake_loop k drain)"
  using assms(3)
proof (induction k)
  case 0
  show ?case unfolding handshake_loop_eqs by (intro loop.ret_state loop.branch fuel_0)
next
  case (Suc k)
  have "holds (pot_le E) (fuel_ok E (Suc k)) (bindA (drain tmo) (\<lambda>_. handshake_loop k drain))" for tmo
    by (rule bind_strict(1)) (use Suc assms in \<open>auto intro: fuel_mono\<close>)
  then have "holds (pot_le E) (fuel_ok E (Suc k))
      (\<lambda>w. bindA (drain (connect_timeout (transport (fw w)))) (\<lambda>_. handshake_loop k drain) w)"
    by (rule loop.at_state)
  then show ?case unfolding handshake_loop_eqs by (intro loop.ret_state loop.branch)
qed

lemma good_pot:
  assumes "\<And>tmo. holds (pot_le E) (fuel_ok E n) (drain tmo)" "\<And>tmo. strict E (drain tmo)"
  shows "good (pot_le E) (fuel_ok E n) (n, drain)"
  unfolding good_def fst_conv snd_conv
  by (intro conjI allI assms wait_loop_pot [OF assms order_refl] handshake_loop_pot [OF assms order_refl])

text \<open>One turn of the event loop, with one unit of fuel more than its handlers get.\<close>

lemma blocking_read_pot:
  assumes "good (pot_le E) (fuel_ok E n) dr"
  shows "holds (pot_le E) (fuel_ok E (Suc n)) (blocking_read E dr tmo)" "strict E (blocking_read E dr tmo)"
proof -
  have "holds (pot_le E) (fuel_ok E (Suc n)) (connect_body E dr)"
    unfolding connect_body_def
    by (intro bind_strict(1) loop.dialled dial_up_strict loop.bind loop.new_closures_ok)
      (use assms in \<open>simp add: good_def\<close>)
  then have need: "holds (pot_le E) (fuel_ok E (Suc n)) (need E dr avail)" for avail
    by (rule loop.need_from)
  have rest: "holds (pot_le E) (fuel_ok E n) (bindA (need E dr has_inbound) (\<lambda>_. on_inbound_frame E dr frm))" for frm
    by (intro loop.bind loop.need_ok loop.on_inbound_frame_ok assms)
  note turn = bind_strict [OF read_step rest]
  show "holds (pot_le E) (fuel_ok E (Suc n)) (blocking_read E dr tmo)"
    unfolding blocking_read_def by (intro loop.bind need turn(1))
  show "strict E (blocking_read E dr tmo)"
    unfolding blocking_read_def by (rule strict_bind [OF need turn(2)])
qed

lemma drain_pot:
  "holds (pot_le E) (fuel_ok E n) (drain_events n E tmo) \<and> strict E (drain_events n E tmo)"
proof (induction n arbitrary: tmo)
  case 0
  then show ?case using fuel_0 by (auto simp: holds_def strict_def)
next
  case (Suc n)
  have g: "good (pot_le E) (fuel_ok E n) (n, drain_events n E)"
    by (rule good_pot) (use Suc in auto)
  have rest: "holds (pot_le E) (fuel_ok E n) (if b then retA () else drain_events n E tmo)" for b
    using Suc by (auto intro: loop.ret)
  have "drain_events (Suc n) E tmo
    = bindA (blocking_read E (n, drain_events n E) tmo) (\<lambda>b. if b then retA () else drain_events n E tmo)"
    by (simp add: fun_eq_iff)
  then show ?case using bind_strict [OF blocking_read_pot [OF g] rest] by simp
qed

lemma drainer_pot: "good (pot_le E) (fuel_ok E n) (drainer n E)"
  unfolding drainer_def by (rule good_pot) (use drain_pot in auto)

end
