(* ===== verification/Client_Behaviour.thy ===== *)
theory Client_Behaviour
  imports Event_Loop
begin

text \<open>
  What single steps of the client do: choosing a channel id, registering and waking a waiter,
  dispatching a method, negotiating, calling a released channel.
\<close>

section \<open>Channel ids\<close>

lemma first_free_upto:
  "first_free used [m..n] = Some i \<longleftrightarrow> m \<le> i \<and> i \<le> n \<and> i \<notin> set used \<and> (\<forall>j. m \<le> j \<and> j < i \<longrightarrow> j \<in> set used)"
proof (induction "[m..n]" arbitrary: m rule: list.induct)
  case Nil
  then have "n < m" by (cases "m \<le> n") (simp_all add: upto_rec1)
  then show ?case by auto
next
  case (Cons x xs)
  then have x: "x = m" "xs = [m + 1..n]" and "m \<le> n"
    using upto_rec1 [of m n] by (cases "m \<le> n"; simp)+
  have "first_free used [m..n] = (if m \<notin> set used then Some m else first_free used [m + 1..n])"
    using upto_rec1 [OF \<open>m \<le> n\<close>] by simp
  also have "\<dots> = Some i \<longleftrightarrow> m \<le> i \<and> i \<le> n \<and> i \<notin> set used \<and> (\<forall>j. m \<le> j \<and> j < i \<longrightarrow> j \<in> set used)"
    using Cons.hyps(1) [OF x(2)] \<open>m \<le> n\<close> by (auto; smt)
  finally show ?case .
qed

lemma first_free_None: "first_free used xs = None \<longleftrightarrow> set xs \<subseteq> set used"
  by (induction xs) auto

text \<open>The lowest free id, or ResourceError when every id is in use.\<close>

lemma get_free_channel_id_Inr:
  assumes "get_free_channel_id w = (Inr i, w')"
  shows "1 \<le> i \<and> i \<le> channel_max w \<and> i \<notin> set (used_channel_ids w)
    \<and> (\<forall>j. 1 \<le> j \<and> j < i \<longrightarrow> j \<in> set (used_channel_ids w))
    \<and> w' = w\<lparr>used_channel_ids := used_channel_ids w @ [i]\<rparr>"
  using assms by (auto simp: get_free_channel_id_def append_id_def first_free_upto
      split: option.splits if_splits)

lemma get_free_channel_id_Inl:
  assumes "get_free_channel_id w = (Inl e, w')" and "channel_max w \<le> 65535"
  shows "w' = w \<and> is_instance e ResourceError \<and> {1..channel_max w} \<subseteq> set (used_channel_ids w)"
  using assms by (auto simp: get_free_channel_id_def append_id_def first_free_upto first_free_None
      is_instance_def amqp_error_init_def split: option.splits if_splits)

section \<open>Waiting\<close>

lemma install_distinct:
  "distinct ms \<Longrightarrow> fst (install p ms pend) = map (map_of pend) ms"
proof (induction ms arbitrary: pend)
  case (Cons m ms)
  have "map (map_of (AList.update m p pend)) ms = map (map_of pend) ms"
    using Cons.prems by (auto simp: AList.update_conv')
  then show ?case using Cons by (simp add: split_def Let_def)
qed simp

lemma map_of_restore:
  "distinct ms \<Longrightarrow> m \<in> set ms \<Longrightarrow> map_of (restore ms (map f ms) pend) m = f m"
  "m \<notin> set ms \<Longrightarrow> map_of (restore ms (map f ms) pend) m = map_of pend m"
proof (induction ms arbitrary: pend)
  case (Cons k ms)
  { case 1
    then show ?case
      using Cons.IH by (cases "f k"; cases "m = k") (auto simp: AList.update_conv' AList.delete_conv')
  next
    case 2
    then show ?case
      using Cons.IH by (cases "f k") (auto simp: AList.update_conv' AList.delete_conv') }
qed simp_all

lemma restore_other: "m \<notin> set ms \<Longrightarrow> map_of (restore ms prevs pend) m = map_of pend m"
  by (induction ms prevs pend rule: restore.induct) (auto simp: AList.update_conv' AList.delete_conv')

text \<open>Whatever happens while it waits, \<open>wait\<close> leaves the entries of its methods as they were.\<close>

lemma wait_restores:
  assumes "wait dr r ms cb tmo tuple w = (q, w')" and "distinct ms" and "m \<in> set ms"
  shows "map_of (pending (objects w' r)) m = map_of (pending (objects w r)) m"
proof -
  let ?prevs = "map (map_of (pending (objects w r))) ms"
  have "fst (install (next_waiter w) ms (pending (objects w r))) = ?prevs"
    by (rule install_distinct) fact
  then obtain v where "w' = upd_obj r (\<lambda>c. c\<lparr>pending := restore ms ?prevs (pending c)\<rparr>) v"
    using assms(1) by (auto simp: wait_def bindA_def new_waiter_def finallyA_def split_def)
  then show ?thesis using map_of_restore(1) [OF assms(2,3)] by (simp add: upd_obj_def)
qed

section \<open>Dispatching\<close>

text \<open>What the listener and the waiter of a method are given.\<close>

definition method_args :: "method_t \<Rightarrow> bytes \<Rightarrow> message option \<Rightarrow> exn + marg list" where
  "method_args m payload content = bindE (case m_args m of
       None \<Rightarrow> Inr [] | Some fmt \<Rightarrow> bindE (loads fmt payload 4) (\<lambda>(vs, _). Inr (map AV vs)))
     (\<lambda>args. Inr (args @ (if m_content m then [AM content] else [])))"

text \<open>An answer nobody listens to, but that a call waits for.\<close>

lemma dispatch_answer:
  assumes "\<not> is_closing (objects w r)" and "METHODS r sig = Some m" and "ls r sig = None"
    and "map_of (pending (objects w r)) sig = Some p" and "on_call (waiters w p) = No_callback"
    and "method_args m payload content = Inr args" and "m_content m \<longrightarrow> \<not> auto_decode (objects w r)"
  shows "dispatch_method E ls r sig payload content w
    = (Inr (), (upd_obj r (\<lambda>c. c\<lparr>pending := AList.delete sig (pending c)\<rparr>) w)
        \<lparr>waiters := (waiters w)(p := (waiters w p)\<lparr>result_args := Some args\<rparr>)\<rparr>)"
proof -
  obtain vs where vs: "(case m_args m of None \<Rightarrow> Inr []
      | Some fmt \<Rightarrow> bindE (loads fmt payload 4) (\<lambda>(vs, _). Inr (map AV vs))) = Inr vs"
    "args = vs @ (if m_content m then [AM content] else [])"
    using assms(6) by (auto simp: method_args_def bindE_eq_Inr)
  show ?thesis
    using assms(1-5,7)
    by (auto simp: dispatch_method_def Let_def vs run_listener_def call_waiter_def upd_obj_def bindA_def)
qed

text \<open>While a channel closes, nothing but the two methods of closing reaches it.\<close>

lemma dispatch_closing:
  assumes "is_closing (objects w r)" and "sig \<notin> set (ALLOWED_METHODS_WHEN_CLOSING r)"
  shows "dispatch_method E ls r sig payload content w = (Inr (), w)"
  using assms by (simp add: dispatch_method_def Let_def)

section \<open>A turn of the event loop\<close>

lemma pack_frame_inbound:
  assumes "has_transport w" and "has_inbound w" and "steady_transport (transport (fw w))"
    and "pack_frame ft ch p = Inr d" and "unread (transport (fw w)) = d @ rest"
  obtains t where "steady_transport t" and "unread t = rest" and "same_sender (transport (fw w)) t"
    and "connected t = connected (transport (fw w))"
    and "blocking_read E dr None w
      = on_inbound_frame E dr (ft, ch, p) (w\<lparr>fw := (fw w)\<lparr>transport := t\<rparr>\<rparr>)"
proof -
  obtain t where t: "read_frame (transport (fw w)) = (Inr (ft, ch, p), t)" "steady_transport t" "unread t = rest"
    using read_frame_steady [OF assms(3-5)] .
  have need: "need E dr avail v = (Inr (), v)" if "avail v" for avail and v :: world
    using that by (simp add: need_def force_connect_def bindA_def)
  have "blocking_read E dr None w
      = on_inbound_frame E dr (ft, ch, p) (w\<lparr>fw := (fw w)\<lparr>transport := t\<rparr>\<rparr>)"
    using assms(1,2)
    by (simp add: blocking_read_def bindA_def need on_transport_def having_timeout_def t(1))
  then show thesis using that t read_frame_takes_frame(2,3) [OF t(1)] by blast
qed

lemma on_frame_heartbeat: "on_frame (8, ch, p) h = (Inr None, h\<lparr>bytes_recv := bytes_recv h + 1\<rparr>)"
  by (simp add: on_frame_def bindA_def)

lemma on_frame_method:
  assumes "expected_types h ch = 1" and "unpack_sig p = Inr sig" and "sig \<notin> set CONTENT_METHODS"
  shows "on_frame (1, ch, p) h = (Inr (Some (ch, sig, p, None)), h\<lparr>bytes_recv := bytes_recv h + 1\<rparr>)"
  using assms by (simp add: on_frame_def bindA_def)

text \<open>
  Frames that complete no method are passed over; the one that does is dispatched, with the frames
  taken off the stream.
\<close>

lemma drain_frames:
  assumes "has_transport w" and "has_inbound w" and "steady_transport (transport (fw w))"
    and "encode_frames fs = Inr out" and "unread (transport (fw w)) = out @ rest"
    and "run_frames fs (fh w) = (replicate k (Inr None) @ [Inr (Some d)], h)" and "k < n"
  obtains m t where "steady_transport t" and "unread t = rest" and "same_sender (transport (fw w)) t"
    and "drain_events n E None w
      = on_inbound_method E (m, drain_events m E) d (w\<lparr>fw := (fw w)\<lparr>transport := t\<rparr>, fh := h\<rparr>)"
    and "n = Suc (k + m)" and "connected t = connected (transport (fw w))"
  using assms
proof (induction fs arbitrary: w n k out thesis)
  case (Cons f fs)
  obtain ft ch p where f: "f = (ft, ch, p)" by (cases f)
  obtain m where n: "n = Suc m" using Cons.prems(8) by (cases n) auto
  obtain b out' where b: "pack_frame ft ch p = Inr b" "encode_frames fs = Inr out'" "out = b @ out'"
    using Cons.prems(5) by (auto simp: bindE_eq_Inr f)
  obtain t where t: "steady_transport t" "unread t = out' @ rest" "same_sender (transport (fw w)) t"
      "connected t = connected (transport (fw w))"
    and read: "blocking_read E (m, drain_events m E) None w
      = on_inbound_frame E (m, drain_events m E) (ft, ch, p) (w\<lparr>fw := (fw w)\<lparr>transport := t\<rparr>\<rparr>)"
    using pack_frame_inbound [OF Cons.prems(2-4) b(1), of "out' @ rest"] Cons.prems(6) b(3)
    by (metis append.assoc)
  obtain q h1 where q: "on_frame (ft, ch, p) (fh w) = (q, h1)" by (cases "on_frame (ft, ch, p) (fh w)")
  let ?w = "w\<lparr>fw := (fw w)\<lparr>transport := t\<rparr>, fh := h1\<rparr>"
  show thesis
  proof (cases k)
    case 0
    then have "fs = []" "q = Inr (Some d)" "h1 = h"
      using Cons.prems(7) q by (cases fs; auto simp: f Let_def split: prod.splits)+
    then have "drain_events n E None w = on_inbound_method E (m, drain_events m E) d ?w"
      by (simp add: n read on_inbound_frame_def q bindA_def split: prod.split sum.split)
    then show thesis using Cons.prems(1) [OF t(1) _ t(3)] t(2,4) b(2) \<open>fs = []\<close> \<open>h1 = h\<close> n 0 by simp
  next
    case (Suc j)
    then have q': "q = Inr None" and r: "run_frames fs h1 = (replicate j (Inr None) @ [Inr (Some d)], h)"
      using Cons.prems(7) q by (auto simp: f Let_def split: prod.splits)
    have step: "drain_events n E None w = drain_events m E None ?w"
      by (simp add: n read on_inbound_frame_def q q' bindA_def)
    show thesis
    proof (rule Cons.IH [where w = ?w and out = out' and n = m and k = j])
      fix i t'
      assume "steady_transport t'" "unread t' = rest" "same_sender (transport (fw ?w)) t'"
        "drain_events m E None ?w
          = on_inbound_method E (i, drain_events i E) d (?w\<lparr>fw := (fw ?w)\<lparr>transport := t'\<rparr>, fh := h\<rparr>)"
        "m = Suc (j + i)" "connected t' = connected (transport (fw ?w))"
      then show thesis
        using Cons.prems(1) [where t = t' and m = i] step same_sender_trans [OF t(3)] t(4) n Suc by simp
    qed (use Cons.prems(2,3,8) t(1,2) b(2) r Suc n in auto)
  qed
qed simp

text \<open>Heartbeats are passed over until a method frame arrives.\<close>

lemma run_heartbeats:
  assumes "\<forall>(ft, _, _) \<in> set hbs. ft = 8" and "expected_types h ch = 1" and "unpack_sig p = Inr sig"
    and "sig \<notin> set CONTENT_METHODS"
  shows "run_frames (hbs @ [(1, ch, p)]) h
    = (replicate (length hbs) (Inr None) @ [Inr (Some (ch, sig, p, None))],
       h\<lparr>bytes_recv := bytes_recv h + length hbs + 1\<rparr>)"
  using assms
proof (induction hbs arbitrary: h)
  case (Cons hb hbs)
  obtain c q where "hb = (8, c, q)" using Cons.prems(1) by (cases hb) auto
  then show ?case
    using Cons by (simp add: on_frame_heartbeat)
qed (simp add: on_frame_method)

lemma drain_method:
  assumes "has_transport w" and "has_inbound w" and "steady_transport (transport (fw w))"
    and "encode_frames (hbs @ [(1, ch, p)]) = Inr out" and "unread (transport (fw w)) = out @ rest"
    and "\<forall>(ft, _, _) \<in> set hbs. ft = 8"
    and "expected_types (fh w) ch = 1" and "unpack_sig p = Inr sig" and "sig \<notin> set CONTENT_METHODS"
    and "length hbs < n"
  obtains m t h where "steady_transport t" and "unread t = rest" and "same_sender (transport (fw w)) t"
    and "drain_events n E None w = on_inbound_method E (m, drain_events m E) (ch, sig, p, None)
      (w\<lparr>fw := (fw w)\<lparr>transport := t\<rparr>, fh := h\<rparr>)"
    and "h = (fh w)\<lparr>bytes_recv := bytes_recv (fh w) + length hbs + 1\<rparr>" and "n = Suc (length hbs + m)"
    and "connected t = connected (transport (fw w))"
  by (rule drain_frames [OF assms(1-5) run_heartbeats [OF assms(6-9)] assms(10), of E])
    (rule that [OF _ _ _ _ refl])

section \<open>A call and its answer\<close>

lemma upd_obj_simps [simp]:
  "objects (upd_obj r f w) = (objects w)(r := f (objects w r))"
  "fw (upd_obj r f w) = fw w" "fh (upd_obj r f w) = fh w" "channels (upd_obj r f w) = channels w"
  "waiters (upd_obj r f w) = waiters w" "has_transport (upd_obj r f w) = has_transport w"
  "has_inbound (upd_obj r f w) = has_inbound w"
  by (simp_all add: upd_obj_def)

text \<open>The connection is up, and channel object \<open>r\<close> is in use under the id \<open>ch\<close>, with no content
  arriving on it.\<close>

definition channel_up :: "world \<Rightarrow> nat \<Rightarrow> int \<Rightarrow> bool" where
  "channel_up w r ch \<longleftrightarrow> has_transport w \<and> has_inbound w \<and> conn_ref (objects w r)
     \<and> \<not> is_closing (objects w r) \<and> (\<exists>tbl. channels w = Some tbl \<and> map_of tbl ch = Some r)
     \<and> expected_types (fh w) ch = 1"

section \<open>A channel that is gone\<close>

lemma send_method_gone:
  "\<not> conn_ref (objects w r) \<Longrightarrow> send_method E dr r sig fmt xs content cb w = (Inl recoverable, w)"
  by (simp add: send_method_def)

lemma send_wait_gone:
  "\<not> conn_ref (objects w r) \<Longrightarrow> send_wait E dr r sig fmt xs content ms tuple w = (Inl recoverable, w)"
  by (simp add: send_wait_def bindA_def send_method_gone)

lemma is_recoverable: "is_instance recoverable RecoverableConnectionError"
  by (simp add: recoverable_def raise_amqp_def is_instance_def amqp_error_init_def)

lemma plain_publish_gone:
  "\<not> conn_ref (objects w r) \<Longrightarrow> plain_publish E dr r msg ex rk md im tmo w
    = (Inl (raise_amqp RecoverableConnectionError ''basic_publish: connection closed''), w)"
  by (simp add: plain_publish_def)

text \<open>Which calls check nothing before they send.\<close>

fun sends_first :: "call \<Rightarrow> bool" where
  "sends_first Open = False"
| "sends_first (Do_close _ _ _) = False"
| "sends_first (Cancel _ _) = False"
| "sends_first _ = True"

lemma call_gone:
  assumes "\<not> conn_ref (objects w r)" and "sends_first c"
  shows "\<exists>e w'. perform_call E dr r c w = (Inl e, w') \<and> is_instance e RecoverableConnectionError
    \<and> fw w' = fw w \<and> fh w' = fh w \<and> log w' = log w"
proof -
  have pub: "is_instance (raise_amqp RecoverableConnectionError s) RecoverableConnectionError" for s
    by (simp add: raise_amqp_def is_instance_def amqp_error_init_def)
  have conf: "\<exists>e w'. basic_publish_confirm E dr r msg ex rk md im tmo ctmo w = (Inl e, w')
    \<and> is_instance e RecoverableConnectionError \<and> fw w' = fw w \<and> fh w' = fh w \<and> log w' = log w"
    for msg ex rk md im tmo ctmo
    using assms(1)
    by (cases "confirm_selected (objects w r)")
      (simp_all add: basic_publish_confirm_def bindA_def plain_publish_gone pub confirm_select_def
        send_wait_gone is_recoverable upd_obj_def)
  show ?thesis
    using assms
    by (cases c) (simp_all add: channel_flow_def exchange_declare_def exchange_delete_def
        exchange_bind_def exchange_unbind_def queue_declare_def queue_delete_def queue_bind_def
        queue_unbind_def queue_purge_def basic_ack_def basic_reject_def basic_consume_def basic_get_def
        basic_publish_def plain_publish_gone conf confirm_select_def basic_qos_def basic_recover_def
        basic_recover_async_def tx_select_def tx_commit_def tx_rollback_def bindA_def send_method_gone
        send_wait_gone is_recoverable pub)
qed

section \<open>Choosing a mechanism\<close>

text \<open>A mechanism that is passed over: it has no name, is not offered, or declines.\<close>

definition passed_over :: "bytes list \<Rightarrow> sasl \<Rightarrow> bool" where
  "passed_over mechs a \<longleftrightarrow> (\<forall>m. mechanism a = Some m \<longrightarrow> m \<in> set mechs \<longrightarrow> sasl_start a = Inr None)"

lemma pick_authentication_iff:
  "pick_authentication mechs as = Inr (Some (m, resp)) \<longleftrightarrow>
    (\<exists>before a after. as = before @ a # after \<and> (\<forall>b \<in> set before. passed_over mechs b)
      \<and> mechanism a = Some m \<and> m \<in> set mechs \<and> sasl_start a = Inr (Some resp))"
  (is "_ \<longleftrightarrow> ?R as")
proof (induction as)
  case (Cons a as)
  have split: "?R (a # as) \<longleftrightarrow> mechanism a = Some m \<and> m \<in> set mechs \<and> sasl_start a = Inr (Some resp)
    \<or> passed_over mechs a \<and> ?R as"
  proof
    assume "?R (a # as)"
    then obtain before b after where *: "a # as = before @ b # after" "\<forall>b \<in> set before. passed_over mechs b"
      "mechanism b = Some m" "m \<in> set mechs" "sasl_start b = Inr (Some resp)" by blast
    then show "mechanism a = Some m \<and> m \<in> set mechs \<and> sasl_start a = Inr (Some resp)
      \<or> passed_over mechs a \<and> ?R as" by (cases before) auto
  next
    assume "mechanism a = Some m \<and> m \<in> set mechs \<and> sasl_start a = Inr (Some resp)
      \<or> passed_over mechs a \<and> ?R as"
    then show "?R (a # as)"
    proof
      assume "mechanism a = Some m \<and> m \<in> set mechs \<and> sasl_start a = Inr (Some resp)"
      then show ?thesis by (intro exI [of _ "[]"]) simp
    next
      assume "passed_over mechs a \<and> ?R as"
      then obtain before b after where "passed_over mechs a" "as = before @ b # after"
        "\<forall>b \<in> set before. passed_over mechs b" "mechanism b = Some m" "m \<in> set mechs"
        "sasl_start b = Inr (Some resp)" by blast
      then show ?thesis by (intro exI [of _ "a # before"]) auto
    qed
  qed
  show ?case
    unfolding split Cons.IH [symmetric]
    by (auto simp: passed_over_def bindE_eq_Inr split: option.splits)
qed simp

section \<open>Capabilities\<close>

abbreviation capabilities_key :: pykey where
  "capabilities_key \<equiv> KStr (pys ''capabilities'')"

definition capability :: "(pykey \<times> pyval) list \<Rightarrow> pystr \<Rightarrow> pyval option" where
  "capability props c = (case map_of props capabilities_key of
     Some (VDict d) \<Rightarrow> map_of d (KStr c) | _ \<Rightarrow> None)"

definition offered :: "pyval \<Rightarrow> pystr \<Rightarrow> bool" where
  "offered sprops c \<longleftrightarrow> (case dict_get sprops (pys ''capabilities'') of
     Inr (VDict d) \<Rightarrow> (case map_of d (KStr c) of Some v \<Rightarrow> truthy v | None \<Rightarrow> False) | _ \<Rightarrow> False)"

lemma wanted_caps_lookup:
  assumes "wanted_caps wanted (VDict d) = Inr upds" and "distinct (map fst wanted)"
  shows "map_of upds (KStr c) = (case map_of wanted c of
      Some b \<Rightarrow> if case map_of d (KStr c) of Some v \<Rightarrow> truthy v | None \<Rightarrow> False then Some (VBool b) else None
    | None \<Rightarrow> None)"
    and "distinct (map fst upds)"
proof -
  have "(map_of upds (KStr c) = (case map_of wanted c of
      Some b \<Rightarrow> if case map_of d (KStr c) of Some v \<Rightarrow> truthy v | None \<Rightarrow> False then Some (VBool b) else None
    | None \<Rightarrow> None)) \<and> distinct (map fst upds) \<and> fst ` set upds \<subseteq> KStr ` fst ` set wanted"
    using assms
  proof (induction wanted arbitrary: upds)
    case (Cons x wanted)
    obtain k b where x: "x = (k, b)" by (cases x)
    obtain rest where rest: "wanted_caps wanted (VDict d) = Inr rest"
      and u: "upds = (if truthy (case map_of d (KStr k) of None \<Rightarrow> VNone | Some v \<Rightarrow> v) then (KStr k, VBool b) # rest else rest)"
      using Cons.prems(1) by (auto simp: x dict_get_def bindE_eq_Inr)
    have "k \<notin> fst ` set wanted" using Cons.prems(2) x by auto
    then have "map_of wanted k = None" by (simp add: map_of_eq_None_iff)
    then show ?case
      using Cons.IH [OF rest] Cons.prems(2) u \<open>k \<notin> fst ` set wanted\<close>
      by (auto simp: x split: option.splits)
  qed simp
  then show "map_of upds (KStr c) = (case map_of wanted c of
      Some b \<Rightarrow> if case map_of d (KStr c) of Some v \<Rightarrow> truthy v | None \<Rightarrow> False then Some (VBool b) else None
    | None \<Rightarrow> None)" "distinct (map fst upds)" by auto
qed

lemma fold_dict_set:
  "distinct (map fst upds) \<Longrightarrow>
    map_of (fold (\<lambda>(k, v). dict_set k v) upds d) k = (case map_of upds k of Some v \<Rightarrow> Some v | None \<Rightarrow> map_of d k)"
  unfolding dict_set_def by (rule map_of_fold_update)

lemma negotiate_capability:
  assumes "negotiate wanted sprops cprops = Inr props" and "distinct (map fst wanted)"
  shows "capability props c = (case map_of wanted c of
      Some b \<Rightarrow> if offered sprops c then Some (VBool b) else capability cprops c
    | None \<Rightarrow> capability cprops c)"
    and "map_of props capabilities_key \<noteq> Some (VDict [])"
proof -
  obtain sc cap upds where sc: "dict_get sprops (pys ''capabilities'') = Inr sc"
    and cap: "(case map_of cprops capabilities_key of
              None \<Rightarrow> Inr [] | Some (VDict cap) \<Rightarrow> Inr cap | Some _ \<Rightarrow> Inl AttributeError) = Inr cap"
    and upds: "wanted_caps wanted (py_or sc (VDict [])) = Inr upds"
    and props: "props = (let cap' = fold (\<lambda>(k, v). dict_set k v) upds cap
       in if cap' = [] then AList.delete capabilities_key cprops else dict_set capabilities_key (VDict cap') cprops)"
    using assms(1) by (auto simp: negotiate_def Let_def bindE_eq_Inr)
  have old: "capability cprops c = map_of cap (KStr c)" for c
    using cap by (auto simp: capability_def split: option.splits pyval.splits)
  let ?cap' = "fold (\<lambda>(k, v). dict_set k v) upds cap"
  have new: "capability props c = map_of ?cap' (KStr c)" for c
    by (simp add: props capability_def Let_def dict_set_def AList.delete_conv' AList.update_conv')
  show "map_of props capabilities_key \<noteq> Some (VDict [])"
    by (simp add: props Let_def dict_set_def AList.delete_conv' AList.update_conv')
  have dict: "\<exists>d. py_or sc (VDict []) = VDict d
    \<and> (\<forall>c. offered sprops c = (case map_of d (KStr c) of Some v \<Rightarrow> truthy v | None \<Rightarrow> False))" if ne: "wanted \<noteq> []"
  proof -
    obtain d where d: "py_or sc (VDict []) = VDict d"
      using upds ne by (cases wanted) (auto simp: dict_get_def bindE_eq_Inr split: pyval.splits)
    then consider "sc = VDict d" | "\<not> truthy sc" "d = []"
      by (cases "truthy sc") (auto simp: py_or_def)
    then show ?thesis
      using d sc by cases (auto simp: offered_def split: pyval.splits)
  qed
  show "capability props c = (case map_of wanted c of
      Some b \<Rightarrow> if offered sprops c then Some (VBool b) else capability cprops c
    | None \<Rightarrow> capability cprops c)"
  proof (cases "wanted = []")
    case True
    then show ?thesis using upds by (simp add: new old)
  next
    case False
    then obtain d where d: "py_or sc (VDict []) = VDict d"
      "\<And>c. offered sprops c = (case map_of d (KStr c) of Some v \<Rightarrow> truthy v | None \<Rightarrow> False)"
      using dict by blast
    note w = wanted_caps_lookup [OF upds [unfolded d(1)] assms(2)]
    show ?thesis
      using w(1) [of c] by (auto simp: new old fold_dict_set [OF w(2)] d(2) split: option.split)
  qed
qed

section \<open>Deliveries\<close>

text \<open>A content for a consumer goes to its callback, with the delivery information.\<close>

lemma deliver_to_consumer:
  fixes msg :: message
  assumes "map_of (pending (objects w r)) Basic_Deliver = None" and "\<not> is_closing (objects w r)"
    and "\<not> auto_decode (objects w r)" and "r \<noteq> 0"
    and "loads ''sLbss'' payload 4 = Inr ([VStr tag, dtag, red, ex, rk], k)"
    and "map_of (callbacks (objects w r)) tag = Some (Some cb)"
  defines "got \<equiv> deliver_info [(''consumer_tag'', VStr tag), (''delivery_tag'', dtag),
      (''redelivered'', red), (''exchange'', ex), (''routing_key'', rk)] r msg"
  shows "dispatch_method E (listener E dr) r Basic_Deliver payload (Some msg) w
    = app E cb [AM (Some got)] (w\<lparr>log := log w @ [(cb, [AM (Some got)])]\<rparr>)"
proof -
  have m: "METHODS r Basic_Deliver = Some (spec_method Basic_Deliver (Some ''sLbss'') True)"
    using assms(4) by (simp add: METHODS_def channel_METHODS_def spec_method_def sig_defs)
  have ls: "listener E dr r Basic_Deliver = Some (\<lambda>args. case args of
        [AV (VStr t), AV d, AV red, AV ex, AV rk, AM (Some msg)] \<Rightarrow>
          bindA (on_basic_deliver E dr r t d red ex rk msg) (\<lambda>msg'.
            retA [AV (VStr t), AV d, AV red, AV ex, AV rk, AM (Some msg')])
      | _ \<Rightarrow> raiseA TypeError)"
    using assms(4) by (simp add: listener_def channel_listener_def sig_defs)
  have same: "upd_obj r (\<lambda>c. c\<lparr>pending := AList.delete Basic_Deliver (pending c)\<rparr>) w = w"
    using assms(1) by (simp add: upd_obj_def AList.delete_id map_of_eq_None_iff)
  obtain q w' where q: "app E cb [AM (Some got)] (w\<lparr>log := log w @ [(cb, [AM (Some got)])]\<rparr>) = (q, w')"
    by (cases "app E cb [AM (Some got)] (w\<lparr>log := log w @ [(cb, [AM (Some got)])]\<rparr>)")
  have d: "on_basic_deliver E dr r tag dtag red ex rk msg w
    = (case q of Inl e \<Rightarrow> (Inl e, w') | Inr _ \<Rightarrow> (Inr got, w'))"
    using assms(6) q
    by (simp add: on_basic_deliver_def got_def [symmetric] Let_def bindA_def call_app_def split: sum.split)
  show ?thesis
    using assms(1-3) assms(5)
    by (simp add: dispatch_method_def Let_def m ls same spec_method_def run_listener_def bindA_def d q
        split: sum.split)
qed

section \<open>Closing and reconnecting\<close>

text \<open>When the server closes the connection, it is acknowledged and everything is released.\<close>

lemma server_close:
  assumes sent: "send_method E dr 0 Connection_CloseOk [] [] None (retA ()) w = (Inr (), w1)"
    and socket: "\<And>s. sock (transport (fw w1)) = Some s \<Longrightarrow> only_OSErrors s" and ok: "ids_ok w1"
    and close: "connection_on_close E dr code text c m w = (q, w')"
  shows "q = Inl (Amqp (error_for_code code text (c, m) ConnectionError))
    \<and> channels w' = None \<and> \<not> has_transport w' \<and> (\<forall>r. \<not> conn_ref (objects w' r))"
proof -
  have cb: "send_method E dr 0 Connection_CloseOk [] [] None connection_collect w = connection_collect w1"
    using sent by (auto simp: send_method_def bindA_def split: if_splits prod.splits sum.splits)
  obtain t where t: "(if has_transport w1 then on_transport close else retA ()) w1 = (Inr (), t)"
    and tt: "objects t = objects w1" "channels t = channels w1" "used_channel_ids t = used_channel_ids w1"
      "next_ref t = next_ref w1"
    using close_returns [OF socket] by (cases "has_transport w1") (simp_all add: on_transport_def)
  have okt: "ids_ok t" by (rule ids_ok_cong [OF ok]) (simp_all add: tt live_def)
  define w2 where "w2 = (case channels t of None \<Rightarrow> t
      | Some tbl \<Rightarrow> fold channel_collect (filter (\<lambda>r. r \<noteq> 0) (map snd tbl)) t)"
  have "connection_collect w1
      = (Inr (), (upd_obj 0 (\<lambda>c. c\<lparr>conn_ref := False\<rparr>) w2)\<lparr>has_transport := False, channels := None\<rparr>)"
    using t by (simp add: connection_collect_def bindA_def Let_def w2_def)
  moreover have "\<forall>r. conn_ref (objects w2 r) \<longrightarrow> r = 0"
    using release_all(3) [OF okt, folded w2_def] by (auto simp: live_def)
  ultimately show ?thesis
    using close cb
    by (auto simp: connection_on_close_def x_close_ok_def connection_on_close_ok_def bindA_def live_def
        split: if_splits)
qed

lemma dial_up_frame:
  assumes "dial_up E w = (q, w')" shows "handshake_complete w' = handshake_complete w"
  using assms
  by (auto simp: dial_up_def new_transport_def next_dial_def on_transport_def bindA_def get_or_def
      split: option.splits list.splits sum.splits prod.splits)

lemma new_closures_frame:
  assumes "new_closures w = (q, w')" shows "handshake_complete w' = handshake_complete w"
  using assms by (auto simp: new_closures_def bindA_def split: sum.splits)

text \<open>Connecting again after a handshake: no frame of a new handshake is read or written.\<close>

lemma connect_again:
  assumes "handshake_complete w" and "\<not> conn_connected w"
    and "dial_up E w = (Inr (), w1)" and "new_closures w1 = (Inr (), w2)"
  shows "connection_connect E dr w = (Inr (), w2)"
proof -
  have "handshake_complete w2"
    using assms(1) dial_up_frame [OF assms(3)] new_closures_frame [OF assms(4)] by simp
  then have "handshake_loop n drain w2 = (Inr (), w2)" for n drain by (cases n) simp_all
  then show ?thesis using assms(2-4) by (simp add: connection_connect_def catchA_def connect_body_def)
qed

text \<open>A channel whose closing failed is out of use and still in the table.\<close>

lemma failed_close:
  assumes "channel_close E dr r rcode rtext sig w = (q, w')"
  shows "\<not> conn_ref (objects w' r)"
    and "channel_close E dr r rcode' rtext' sig' w' = (Inr RNone, upd_obj r (\<lambda>c. c\<lparr>is_closing := False, conn_ref := False\<rparr>) w')"
    and "channels (channel_collect r w') = channels w'" "used_channel_ids (channel_collect r w') = used_channel_ids w'"
proof -
  show c: "\<not> conn_ref (objects w' r)"
    using assms by (auto simp: channel_close_def finallyA_def split: prod.splits)
  then show "channel_close E dr r rcode' rtext' sig' w' = (Inr RNone, upd_obj r (\<lambda>c. c\<lparr>is_closing := False, conn_ref := False\<rparr>) w')"
    by (simp add: channel_close_def finallyA_def)
  show "channels (channel_collect r w') = channels w'" "used_channel_ids (channel_collect r w') = used_channel_ids w'"
    using c by (simp_all add: channel_collect_def Let_def upd_obj_def)
qed

section \<open>Heartbeats\<close>

text \<open>A tick when nothing was sent or due: only the time since data arrived counts.\<close>

lemma quiet_tick:
  assumes "heartbeat w \<noteq> 0" and "prev_sent w = Some (bytes_sent (fw w))"
    and "prev_recv w = Some (bytes_recv (fh w))" and "clock w = now # later # ts"
    and "now \<le> last_heartbeat_sent w + of_int (heartbeat w) / (if rate \<le> 0 then 2 else rate)"
  shows "fst (heartbeat_tick E dr rate w)
    = (if last_heartbeat_received w \<noteq> 0 \<and> last_heartbeat_received w + 2 * of_int (heartbeat w) < later
       then Inl (raise_amqp ConnectionForced ''Too many heartbeats missed'') else Inr ())"
  using assms
  by (simp add: heartbeat_tick_def Let_def bindA_def monotonic_def not_less)

lemma live_tick:
  assumes "heartbeat w \<noteq> 0" and "prev_sent w = Some (bytes_sent (fw w))"
    and "prev_recv w \<noteq> Some (bytes_recv (fh w))" and "clock w = t # now # later # ts"
    and "now \<le> last_heartbeat_sent w + of_int (heartbeat w) / (if rate \<le> 0 then 2 else rate)"
    and "t + 2 * of_int (heartbeat w) \<ge> later"
  shows "fst (heartbeat_tick E dr rate w) = Inr ()"
  using assms
  by (simp add: heartbeat_tick_def Let_def bindA_def monotonic_def not_less)

end
