(* ===== verification/Calls.thy ===== *)
theory Calls
  imports Client_Behaviour Framing_Outbound
begin

text \<open>
  Calls from end to end: the bytes a call sends, the bytes of the server that answer it, and what
  the call returns. The bytes that arrive may be cut into packets in any way.
\<close>

section \<open>Sending a method\<close>

text \<open>The bytes of a method frame with its arguments.\<close>

definition method_frame :: "int \<Rightarrow> method_sig \<Rightarrow> string \<Rightarrow> pyval list \<Rightarrow> exn + bytes" where
  "method_frame ch sig fmt xs =
     bindE (dumps fmt xs) (\<lambda>a. bindE (method_payload 1 (Some sig) (VBytes a)) (pack_frame 1 ch))"

text \<open>A frame the buffer has room for goes out, and nothing else changes.\<close>

lemma write_method_frame:
  assumes "writable (transport s)" and "method_payload 1 (Some sig) (VBytes a) = Inr p"
    and "pack_frame 1 ch p = Inr d" and "int (length d) \<le> frame_max s - 8"
  obtains s' where "write_frame cdc write_bytes 1 ch (Some sig) (VBytes a) None s = (Inr (), s', None)"
    and "writable (transport s')" and "unread (transport s') = unread (transport s)"
    and "sent_bytes (transport s') = sent_bytes (transport s) @ d"
    and "steady_transport (transport s') = steady_transport (transport s)"
    and "connect_timeout (transport s') = connect_timeout (transport s)" and "frame_max s' = frame_max s"
    and "clean_close (transport s') = clean_close (transport s)"
proof -
  define s0 where "s0 = (if frame_max s - 8 > int (length (buffer_store s))
      then s\<lparr>buffer_store := replicate (nat (frame_max s - 8)) 0\<rparr> else s)"
  obtain b0 where s0: "s0 = s\<lparr>buffer_store := b0\<rparr>" and len: "length d \<le> length b0"
  proof (cases "frame_max s - 8 > int (length (buffer_store s))")
    case True
    then show ?thesis using that [of "replicate (nat (frame_max s - 8)) 0"] assms(4) by (simp add: s0_def)
  next
    case False
    then show ?thesis using that [of "buffer_store s"] assms(4) by (simp add: s0_def)
  qed
  obtain b1 where p: "pack_next 1 ch p 0 s0 = (Inr (length d), s\<lparr>buffer_store := b1\<rparr>)"
    and b1: "take (length d) b1 = d"
    using pack_next_fits [OF assms(3), of 0 s0] len by (auto simp: s0)
  obtain t where t: "write_bytes d (transport s) = (Inr (), t)" "writable t" "unread t = unread (transport s)"
    "sent_bytes t = sent_bytes (transport s) @ d" "steady_transport t = steady_transport (transport s)"
    "connect_timeout t = connect_timeout (transport s)" "clean_close t = clean_close (transport s)"
    using write_bytes_writable [OF assms(1)] by blast
  show thesis
    by (rule that [of "s\<lparr>buffer_store := b1, transport := t, bytes_sent := bytes_sent s + 1\<rparr>"])
      (use assms(2) p b1 t in \<open>simp_all add: write_frame_def write_fast_def bindA_def to_transport_def
        str_to_bytes_def s0_def [symmetric]\<close>)
qed

text \<open>A writer before and after it sent \<open>d\<close>.\<close>

definition sent_on :: "tcp_transport frame_writer \<Rightarrow> bytes \<Rightarrow> tcp_transport frame_writer \<Rightarrow> bool" where
  "sent_on s d s' \<longleftrightarrow> writable (transport s') \<and> unread (transport s') = unread (transport s)
     \<and> sent_bytes (transport s') = sent_bytes (transport s) @ d
     \<and> steady_transport (transport s') = steady_transport (transport s)
     \<and> connect_timeout (transport s') = connect_timeout (transport s) \<and> frame_max s' = frame_max s
     \<and> clean_close (transport s') = clean_close (transport s)"

lemma sent_on_trans: "sent_on s d s' \<Longrightarrow> sent_on s' d' s'' \<Longrightarrow> sent_on s (d @ d') s''"
  by (simp add: sent_on_def)

text \<open>A content small enough for the buffer, on a transport that takes it.\<close>

lemma write_small_content:
  assumes "writable (transport s)" and "content_parts cdc msg = (Inr (bdy, pb), msg')"
    and "int (length a + length pb + length bdy) + FRAME_OVERHEAD \<le> frame_max s - 8"
    and "frame_list 1 ch sig (VBytes a) (Some (bdy, pb)) (frame_max s - 8) = Inr fs" and "encode_frames fs = Inr out"
  obtains f where "write_frame cdc write_bytes 1 ch sig (VBytes a) (Some msg) s = (Inr (), f, Some msg')"
    and "sent_on s out f"
proof -
  obtain t where "write_bytes out (transport s) = (Inr (), t)" "writable t" "unread t = unread (transport s)"
    "sent_bytes t = sent_bytes (transport s) @ out" "steady_transport t = steady_transport (transport s)"
    "connect_timeout t = connect_timeout (transport s)" "clean_close t = clean_close (transport s)"
    using write_bytes_writable [OF assms(1)] by blast
  then show thesis
    using write_frame_small [OF assms(2-5), of write_bytes] that by (auto simp: sent_on_def)
qed

lemma send_framed:
  assumes live: "conn_ref (objects w r)" "has_frame_writer w" "channel_id (objects w r) = Some ch"
    "writable (transport (fw w))"
    and d: "method_frame ch sig fmt xs = Inr d" and fit: "int (length d) \<le> frame_max (fw w) - 8"
    and fmt: "fmt \<noteq> []"
  obtains f where "sent_on (fw w) d f"
    and "\<And>cb. send_method E dr r sig fmt xs None cb w = cb (w\<lparr>fw := f\<rparr>)"
proof -
  obtain a q where a: "dumps fmt xs = Inr a" and q: "method_payload 1 (Some sig) (VBytes a) = Inr q"
    and p: "pack_frame 1 ch q = Inr d"
    using d by (auto simp: method_frame_def bindE_eq_Inr)
  obtain f where f: "write_frame (codecs E) write_bytes 1 ch (Some sig) (VBytes a) None (fw w) = (Inr (), f, None)"
    "sent_on (fw w) d f"
    using write_method_frame [OF live(4) q p fit] by (auto simp: sent_on_def)
  have "send_method E dr r sig fmt xs None cb w = cb (w\<lparr>fw := f\<rparr>)" for cb
    using live fmt a f(1)
    by (simp add: send_method_def write_method_def need_def force_connect_def bindA_def)
  then show thesis using that f(2) by blast
qed

text \<open>A method without arguments: the source writes the empty text for them.\<close>

lemma send_bare:
  assumes live: "conn_ref (objects w r)" "has_frame_writer w" "channel_id (objects w r) = Some ch"
    "writable (transport (fw w))"
    and d: "method_frame ch sig [] [] = Inr d" and fit: "int (length d) \<le> frame_max (fw w) - 8"
  obtains f where "sent_on (fw w) d f"
    and "\<And>cb. send_method E dr r sig [] [] None cb w = cb (w\<lparr>fw := f\<rparr>)"
proof -
  have "dumps [] [] = Inr []" by code_simp
  then obtain q where q: "method_payload 1 (Some sig) (VBytes []) = Inr q" and p: "pack_frame 1 ch q = Inr d"
    using d by (auto simp: method_frame_def bindE_eq_Inr)
  obtain f where f: "write_frame (codecs E) write_bytes 1 ch (Some sig) (VBytes []) None (fw w) = (Inr (), f, None)"
    "sent_on (fw w) d f"
    using write_method_frame [OF live(4) q p fit] by (auto simp: sent_on_def)
  have "str_to_bytes (VStr []) = str_to_bytes (VBytes [])" by code_simp
  then have "write_frame (codecs E) write_bytes 1 ch (Some sig) (VStr []) None (fw w) = (Inr (), f, None)"
    using f(1) by (simp add: write_frame_def)
  then have "send_method E dr r sig [] [] None cb w = cb (w\<lparr>fw := f\<rparr>)" for cb
    using live by (simp add: send_method_def write_method_def need_def force_connect_def bindA_def)
  then show thesis using that f(2) by blast
qed

section \<open>Dispatching to a listener\<close>

lemma dispatch_listened:
  assumes "\<not> is_closing (objects w r)" and "METHODS r sig = Some m" and "ls r sig = Some f"
    and "map_of (pending (objects w r)) sig = None" and "method_args m payload None = Inr args" and "\<not> m_content m"
  shows "dispatch_method E ls r sig payload None w
    = (case f args w of (Inl e, w') \<Rightarrow> (Inl e, w') | (Inr _, w') \<Rightarrow> (Inr (), w'))"
proof -
  have a: "(case m_args m of None \<Rightarrow> Inr []
      | Some fmt \<Rightarrow> bindE (loads fmt payload 4) (\<lambda>(vs, _). Inr (map AV vs))) = Inr args"
    using assms(5,6) by (simp add: method_args_def bindE_eq_Inr)
  have same: "upd_obj r (\<lambda>c. c\<lparr>pending := AList.delete sig (pending c)\<rparr>) w = w"
    using assms(4) by (simp add: upd_obj_def AList.delete_id map_of_eq_None_iff)
  show ?thesis
    using assms(1-4,6)
    by (simp add: dispatch_method_def Let_def a run_listener_def same bindA_def split: prod.split sum.split)
qed

text \<open>A method a call waits for that has a listener too: the listener runs first.\<close>

lemma dispatch_both:
  assumes "\<not> is_closing (objects w r)" and "METHODS r sig = Some m" and "ls r sig = Some f"
    and "map_of (pending (objects w r)) sig = Some p" and "method_args m payload None = Inr args" and "\<not> m_content m"
    and "f args (upd_obj r (\<lambda>c. c\<lparr>pending := AList.delete sig (pending c)\<rparr>) w) = (Inr args', w')"
    and "on_call (waiters w' p) = No_callback"
  shows "dispatch_method E ls r sig payload None w
    = (Inr (), w'\<lparr>waiters := (waiters w')(p := (waiters w' p)\<lparr>result_args := Some args'\<rparr>)\<rparr>)"
proof -
  have a: "(case m_args m of None \<Rightarrow> Inr []
      | Some fmt \<Rightarrow> bindE (loads fmt payload 4) (\<lambda>(vs, _). Inr (map AV vs))) = Inr args"
    using assms(5,6) by (simp add: method_args_def bindE_eq_Inr)
  show ?thesis
    using assms(1-4,6-8)
    by (simp add: dispatch_method_def Let_def a run_listener_def bindA_def call_waiter_def)
qed

section \<open>Waiting for the answer\<close>

text \<open>The world once \<open>wait\<close> has registered its waiter.\<close>

definition waiting :: "nat \<Rightarrow> method_sig list \<Rightarrow> wait_callback \<Rightarrow> world \<Rightarrow> world" where
  "waiting r ms cb w = upd_obj r (\<lambda>c. c\<lparr>pending := snd (install (next_waiter w) ms (pending c))\<rparr>)
     (w\<lparr>waiters := (waiters w)(next_waiter w := \<lparr>on_call = cb, result_args = None\<rparr>),
        next_waiter := next_waiter w + 1\<rparr>)"

lemma waiting_simps [simp]:
  "fw (waiting r ms cb w) = fw w" "fh (waiting r ms cb w) = fh w" "channels (waiting r ms cb w) = channels w"
  "has_transport (waiting r ms cb w) = has_transport w" "has_inbound (waiting r ms cb w) = has_inbound w"
  "waiters (waiting r ms cb w) (next_waiter w) = \<lparr>on_call = cb, result_args = None\<rparr>"
  "objects (waiting r ms cb w) r = (objects w r)\<lparr>pending := snd (install (next_waiter w) ms (pending (objects w r)))\<rparr>"
  by (simp_all add: waiting_def)

lemma wait_first_turn:
  assumes drain: "drain_events n E None (waiting r ms cb w) = (q, w2)" and n: "0 < n"
    and live: "conn_ref (objects w r)"
    and res: "case q of Inl e \<Rightarrow> res = Inl e
      | Inr _ \<Rightarrow> \<exists>args. result_args (waiters w2 (next_waiter w)) = Some args \<and> res = Inr (shape_result tuple args)"
  obtains g where "wait (drainer n E) r ms cb None tuple w
    = (res, upd_obj r (\<lambda>c. c\<lparr>pending := g (pending c)\<rparr>) w2)"
    and "\<And>m P. m \<notin> set ms \<Longrightarrow> map_of (g P) m = map_of P m"
proof -
  let ?p = "next_waiter w" and ?w = "waiting r ms cb w"
  obtain j where j: "n = Suc j" using n by (cases n) auto
  have turn: "wait_loop (Suc j) drain r ?p None ?w = (case q of Inl e \<Rightarrow> (Inl e, w2)
      | Inr _ \<Rightarrow> (Inr (the (result_args (waiters w2 ?p))), w2))" if "drain None ?w = (q, w2)" for drain
    using that live res by (auto simp: wait_loop_eqs wait_loop.simps [of j] bindA_def split: sum.splits)
  have drain': "drain_events (Suc j) E None ?w = (q, w2)" using drain j by simp
  have loop: "wait_loop n (drain_events n E) r ?p None ?w = (case q of Inl e \<Rightarrow> (Inl e, w2)
      | Inr _ \<Rightarrow> (Inr (the (result_args (waiters w2 ?p))), w2))"
    unfolding j by (rule turn [of "drain_events (Suc j) E", OF drain'])
  obtain g where g: "wait (drainer n E) r ms cb None tuple w
    = finallyA (bindA (wait_loop n (drain_events n E) r ?p None) (\<lambda>args. retA (shape_result tuple args)))
       (upd_obj r (\<lambda>c. c\<lparr>pending := g (pending c)\<rparr>)) ?w"
    "g = restore ms (fst (install ?p ms (pending (objects w r))))"
    by (simp add: wait_def bindA_def new_waiter_def drainer_def waiting_def upd_obj_def split_def)
  have "finallyA (bindA loop (\<lambda>args. retA (shape_result tuple args))) f ?w = (res, f w2)"
    if "loop ?w = (case q of Inl e \<Rightarrow> (Inl e, w2)
      | Inr _ \<Rightarrow> (Inr (the (result_args (waiters w2 ?p))), w2))" for loop and f :: "world \<Rightarrow> world"
    using that res by (auto simp: finallyA_def bindA_def split: sum.splits)
  from this [of "wait_loop n (drain_events n E) r ?p None", OF loop] show thesis
    by (intro that [of g]) (simp_all only: g restore_other not_False_eq_True)
qed

lemma install_other: "m \<notin> set ms \<Longrightarrow> map_of (snd (install p ms pend)) m = map_of pend m"
  by (induction ms arbitrary: pend) (auto simp: split_def Let_def AList.update_conv')

lemma install_lookup: "sig \<in> set ms \<Longrightarrow> map_of (snd (install p ms pend)) sig = Some p"
proof -
  have keep: "map_of pend sig = Some p \<Longrightarrow> map_of (snd (install p ms pend)) sig = Some p" for ms pend
    by (induction ms arbitrary: pend) (auto simp: split_def Let_def AList.update_conv')
  show "sig \<in> set ms \<Longrightarrow> map_of (snd (install p ms pend)) sig = Some p"
  proof (induction ms arbitrary: pend)
    case (Cons m ms)
    then show ?case
      by (cases "m = sig") (simp_all add: split_def Let_def keep AList.update_conv')
  qed simp
qed

text \<open>The first method that arrives is dispatched, with the waiter registered for it.\<close>

lemma wait_dispatches:
  assumes up: "channel_up w r ch" "steady_transport (transport (fw w))"
    and out: "encode_frames (hbs @ [(1, ch, p)]) = Inr out" "unread (transport (fw w)) = out @ rest"
    and hb: "\<forall>(ft, _, _) \<in> set hbs. ft = 8"
    and p: "unpack_sig p = Inr sig" "sig \<notin> set CONTENT_METHODS" and n: "length hbs < n"
  obtains t h dr where "unread t = rest" and "same_sender (transport (fw w)) t"
    and "steady_transport t" and "expected_types h = expected_types (fh w)"
    and "drain_events n E None (waiting r ms cb w) = dispatch_method E (listener E dr) r sig p None
      ((waiting r ms cb w)\<lparr>fw := (fw w)\<lparr>transport := t\<rparr>, fh := h\<rparr>)"
proof -
  let ?w1 = "waiting r ms cb w"
  have w1: "has_transport ?w1" "has_inbound ?w1" "steady_transport (transport (fw ?w1))"
    "unread (transport (fw ?w1)) = out @ rest" "expected_types (fh ?w1) ch = 1"
    using up out(2) by (simp_all add: channel_up_def)
  obtain m t h where t: "unread t = rest" "same_sender (transport (fw ?w1)) t" "steady_transport t"
      "h = (fh ?w1)\<lparr>bytes_recv := bytes_recv (fh ?w1) + length hbs + 1\<rparr>"
    and d: "drain_events n E None ?w1 = on_inbound_method E (m, drain_events m E) (ch, sig, p, None)
      (?w1\<lparr>fw := (fw ?w1)\<lparr>transport := t\<rparr>, fh := h\<rparr>)"
    by (rule drain_method [OF w1(1-3) out(1) w1(4) hb w1(5) p n, of E]) (rule that)
  obtain tbl where "channels w = Some tbl" "map_of tbl ch = Some r" using up(1) by (auto simp: channel_up_def)
  then show thesis using that [of t h "(m, drain_events m E)"] t d by (simp add: on_inbound_method_def)
qed

text \<open>What a call that was answered leaves: the client as it was, its waiter taken off again.\<close>

definition call_done :: "nat \<Rightarrow> method_sig list \<Rightarrow> world \<Rightarrow> world \<Rightarrow> bool" where
  "call_done r ms w w' \<longleftrightarrow> channels w' = channels w \<and> has_transport w' = has_transport w
     \<and> has_inbound w' = has_inbound w \<and> has_frame_writer w' = has_frame_writer w \<and> log w' = log w
     \<and> client_properties w' = client_properties w
     \<and> (\<exists>P. objects w' = (objects w)(r := (objects w r)\<lparr>pending := P\<rparr>)
          \<and> (\<forall>m. m \<notin> set ms \<longrightarrow> map_of P m = map_of (pending (objects w r)) m))"

lemma call_done_pending: "call_done r ms w w' \<Longrightarrow> m \<notin> set ms \<Longrightarrow>
    map_of (pending (objects w' r)) m = map_of (pending (objects w r)) m"
  unfolding call_done_def by (elim conjE exE) (simp del: split_paired_All)

lemma call_done_up:
  assumes "call_done r ms w w'" and "channel_up w r ch" and "expected_types (fh w') ch = 1"
  shows "channel_up w' r ch"
  using assms unfolding call_done_def by (elim conjE exE) (simp add: channel_up_def del: split_paired_All)

lemma wait_turned:
  assumes drain: "drain_events n E None (waiting r ms cb w) = (q, w2)" and n: "0 < n" and live: "conn_ref (objects w r)"
    and w2: "objects w2 = (objects w)(r := (objects w r)\<lparr>pending := P\<rparr>)" "channels w2 = channels w"
      "has_transport w2 = has_transport w" "has_inbound w2 = has_inbound w" "has_frame_writer w2 = has_frame_writer w"
      "log w2 = log w" "client_properties w2 = client_properties w" "\<And>m. m \<notin> set ms \<Longrightarrow> map_of P m = map_of (pending (objects w r)) m"
    and res: "case q of Inl e \<Rightarrow> res = Inl e
      | Inr _ \<Rightarrow> \<exists>args. result_args (waiters w2 (next_waiter w)) = Some args \<and> res = Inr (shape_result tuple args)"
  obtains w' where "wait (drainer n E) r ms cb None tuple w = (res, w')"
    and "fw w' = fw w2" and "fh w' = fh w2" and "call_done r ms w w'"
proof -
  obtain g where w': "wait (drainer n E) r ms cb None tuple w = (res, upd_obj r (\<lambda>c. c\<lparr>pending := g (pending c)\<rparr>) w2)"
    and g: "\<And>m P. m \<notin> set ms \<Longrightarrow> map_of (g P) m = map_of P m"
    by (rule wait_first_turn [OF drain n live res]) (rule that)
  have "call_done r ms w (upd_obj r (\<lambda>c. c\<lparr>pending := g (pending c)\<rparr>) w2)"
    unfolding call_done_def
    by (intro conjI exI [of _ "g P"]) (simp_all add: w2(1-7) upd_obj_def g w2(8) del: split_paired_All)
  then show thesis by (intro that [OF w']) simp_all
qed

lemma wait_settled:
  assumes drain: "drain_events n E None (waiting r ms No_callback w) = dispatch_method E ls r sig payload content
      ((waiting r ms No_callback w)\<lparr>fw := f, fh := h\<rparr>)"
    and live: "conn_ref (objects w r)" "\<not> is_closing (objects w r)" and sig: "sig \<in> set ms" and n: "0 < n"
    and m: "METHODS r sig = Some m" "m_content m \<longrightarrow> \<not> auto_decode (objects w r)"
      "method_args m payload content = Inr args" and ls: "ls r sig = None"
  obtains w' where "wait (drainer n E) r ms No_callback None tuple w = (Inr (shape_result tuple args), w')"
    and "fw w' = f" and "fh w' = h" and "call_done r ms w w'"
proof -
  let ?w2 = "(waiting r ms No_callback w)\<lparr>fw := f, fh := h\<rparr>"
  let ?w3 = "(upd_obj r (\<lambda>c. c\<lparr>pending := AList.delete sig (pending c)\<rparr>) ?w2)
        \<lparr>waiters := (waiters ?w2)(next_waiter w := (waiters ?w2 (next_waiter w))\<lparr>result_args := Some args\<rparr>)\<rparr>"
  let ?P = "AList.delete sig (snd (install (next_waiter w) ms (pending (objects w r))))"
  have "dispatch_method E ls r sig payload content ?w2 = (Inr (), ?w3)"
    by (rule dispatch_answer) (use live m ls sig in \<open>simp_all add: install_lookup del: install.simps\<close>)
  then have run: "drain_events n E None (waiting r ms No_callback w) = (Inr (), ?w3)" using drain by simp
  have P: "map_of ?P m = map_of (pending (objects w r)) m" if "m \<notin> set ms" for m
  proof -
    have "m \<noteq> sig" using that sig by blast
    then show ?thesis by (simp add: AList.delete_conv' install_other [OF that] del: install.simps)
  qed
  show thesis
    by (rule wait_turned [OF run n live(1), where P = ?P and res = "Inr (shape_result tuple args)" and tuple = tuple])
      (simp_all add: P waiting_def upd_obj_def that del: install.simps)
qed

text \<open>A turn that raises ends the waiting, with the waiter taken off again.\<close>

lemma wait_raised:
  assumes drain: "drain_events n E None (waiting r ms cb w) = (Inl e, (waiting r ms cb w)\<lparr>fw := f, fh := h\<rparr>)"
    and n: "0 < n" and live: "conn_ref (objects w r)"
  obtains w' where "wait (drainer n E) r ms cb None tuple w = (Inl e, w')"
    and "fw w' = f" and "fh w' = h" and "call_done r ms w w'"
  by (rule wait_turned [OF drain n live, where P = "snd (install (next_waiter w) ms (pending (objects w r)))"
        and res = "Inl e" and tuple = tuple])
    (simp_all add: install_other waiting_def upd_obj_def that del: install.simps)

lemma wait_answered:
  assumes up: "channel_up w r ch" and st: "steady_transport (transport (fw w))"
    and out: "encode_frames (hbs @ [(1, ch, p)]) = Inr out" "unread (transport (fw w)) = out @ rest"
    and hb: "\<forall>(ft, _, _) \<in> set hbs. ft = 8"
    and p: "unpack_sig p = Inr sig" "sig \<notin> set CONTENT_METHODS"
    and m: "METHODS r sig = Some m" "\<not> m_content m" "method_args m p None = Inr args"
    and ls: "\<And>dr. listener E dr r sig = None" and n: "length hbs < n"
  obtains w' where "wait (drainer n E) r [sig] No_callback None tuple w = (Inr (shape_result tuple args), w')"
    and "unread (transport (fw w')) = rest" and "same_sender (transport (fw w)) (transport (fw w'))"
    and "steady_transport (transport (fw w'))" and "expected_types (fh w') = expected_types (fh w)"
    and "call_done r [sig] w w'"
proof -
  obtain t h dr where t: "unread t = rest" "same_sender (transport (fw w)) t" "steady_transport t"
      "expected_types h = expected_types (fh w)"
    and d: "drain_events n E None (waiting r [sig] No_callback w) = dispatch_method E (listener E dr) r sig p None
      ((waiting r [sig] No_callback w)\<lparr>fw := (fw w)\<lparr>transport := t\<rparr>, fh := h\<rparr>)"
    by (rule wait_dispatches [OF up st out hb p n]) (rule that)
  have 1: "conn_ref (objects w r)" "\<not> is_closing (objects w r)" "sig \<in> set [sig]" "0 < n"
    "m_content m \<longrightarrow> \<not> auto_decode (objects w r)"
    using up m(2) n by (simp_all add: channel_up_def)
  obtain w' where w': "wait (drainer n E) r [sig] No_callback None tuple w = (Inr (shape_result tuple args), w')"
    "fw w' = (fw w)\<lparr>transport := t\<rparr>" "fh w' = h" "call_done r [sig] w w'"
    by (rule wait_settled [OF d 1(1-4) m(1) 1(5) m(3) ls, where tuple = tuple]) (rule that; (assumption | simp))
  show thesis by (rule that [OF w'(1)]) (simp_all add: w' t)
qed

text \<open>A call that sends a method and waits for the answer.\<close>

lemma call_answered:
  assumes up: "channel_up w r ch" "has_frame_writer w" "channel_id (objects w r) = Some ch"
    "steady_transport (transport (fw w))" "writable (transport (fw w))"
    and d: "method_frame ch sig0 fmt xs = Inr d" "int (length d) \<le> frame_max (fw w) - 8" "fmt \<noteq> []"
    and out: "encode_frames (hbs @ [(1, ch, p)]) = Inr out" "unread (transport (fw w)) = out @ rest"
    and hb: "\<forall>(ft, _, _) \<in> set hbs. ft = 8"
    and p: "unpack_sig p = Inr sig" "sig \<notin> set CONTENT_METHODS"
    and m: "METHODS r sig = Some m" "\<not> m_content m" "method_args m p None = Inr args"
    and ls: "\<And>dr. listener E dr r sig = None" and n: "length hbs < n"
  obtains w' where "send_wait E (drainer n E) r sig0 fmt xs None [sig] tuple w = (Inr (shape_result tuple args), w')"
    and "sent_bytes (transport (fw w')) = sent_bytes (transport (fw w)) @ d"
    and "unread (transport (fw w')) = rest" and "steady_transport (transport (fw w'))"
    and "channel_up w' r ch" and "call_done r [sig] w w'"
proof -
  have live: "conn_ref (objects w r)" using up(1) by (simp add: channel_up_def)
  obtain f where f: "sent_on (fw w) d f"
    "\<And>cb. send_method E (drainer n E) r sig0 fmt xs None cb w = cb (w\<lparr>fw := f\<rparr>)"
    by (rule send_framed [OF live up(2,3,5) d, of E "drainer n E"]) (rule that)
  have 1: "channel_up (w\<lparr>fw := f\<rparr>) r ch" "steady_transport (transport (fw (w\<lparr>fw := f\<rparr>)))"
    and 2: "unread (transport (fw (w\<lparr>fw := f\<rparr>))) = out @ rest"
    using up f(1) out(2) by (simp_all add: sent_on_def channel_up_def)
  obtain w' where w': "wait (drainer n E) r [sig] No_callback None tuple (w\<lparr>fw := f\<rparr>)
      = (Inr (shape_result tuple args), w')" "unread (transport (fw w')) = rest"
    "same_sender (transport f) (transport (fw w'))" "steady_transport (transport (fw w'))"
    "expected_types (fh w') = expected_types (fh w)" "call_done r [sig] (w\<lparr>fw := f\<rparr>) w'"
    by (rule wait_answered [OF 1 out(1) 2 hb p m ls n, where tuple = tuple]) (rule that; (assumption | simp))
  have 3: "call_done r [sig] w w'" using w'(6) by (simp add: call_done_def)
  have 4: "channel_up w' r ch"
    by (rule call_done_up [OF 3 up(1)]) (use up(1) w'(5) in \<open>simp add: channel_up_def\<close>)
  show thesis
    by (rule that [OF _ _ _ _ 4 3]) (use f w' in \<open>simp_all add: send_wait_def bindA_def sent_on_def same_sender_def\<close>)
qed

section \<open>Confirms\<close>

lemma confirm_methods:
  assumes "r \<noteq> 0" and "sig \<in> {Basic_Ack, Basic_Nack}"
  shows "METHODS r sig = Some (spec_method sig (Some ''Lb'') False)" and "sig \<notin> set CONTENT_METHODS"
proof -
  have "METHODS r Basic_Ack = Some (spec_method Basic_Ack (Some ''Lb'') False)"
    "METHODS r Basic_Nack = Some (spec_method Basic_Nack (Some ''Lb'') False)"
    "Basic_Ack \<notin> set CONTENT_METHODS" "Basic_Nack \<notin> set CONTENT_METHODS"
    using assms(1) by (simp_all add: METHODS_def channel_METHODS_def spec_method_def CONTENT_METHODS_def sig_defs)
  then show "METHODS r sig = Some (spec_method sig (Some ''Lb'') False)" "sig \<notin> set CONTENT_METHODS"
    using assms(2) by blast+
qed

lemma dispatch_confirm:
  assumes "r \<noteq> 0" and "\<not> is_closing (objects w r)" and "sig \<in> {Basic_Ack, Basic_Nack}"
    and "handlers_of r ''basic_ack'' w = []" and "handlers_of r ''basic_nack'' w = []"
    and "map_of (pending (objects w r)) sig = Some p" and "on_call (waiters w p) = Confirm_handler"
    and "loads ''Lb'' payload 4 = Inr ([tag, multiple], k)"
  obtains w' where "dispatch_method E (listener E dr) r sig payload None w
      = (if sig = Basic_Ack then Inr () else Inl MessageNacked, w')"
    and "sig = Basic_Ack \<Longrightarrow> result_args (waiters w' p) = Some []" and "fw w' = fw w"
proof -
  have ls: "listener E dr r Basic_Ack = Some (\<lambda>args. case args of
        [AV t, AV m] \<Rightarrow> keep (on_basic_ack E r t m) args | _ \<Rightarrow> raiseA TypeError)"
    "listener E dr r Basic_Nack = Some (\<lambda>args. case args of
        [AV t, AV m] \<Rightarrow> keep (on_basic_nack E r t m) args | _ \<Rightarrow> raiseA TypeError)"
    using assms(1) by (simp_all add: listener_def channel_listener_def sig_defs)
  have ne: "Basic_Ack \<noteq> Basic_Nack" by (simp add: sig_defs)
  show thesis
    using assms(2-8) confirm_methods(1) [OF assms(1,3)] ls ne that
    by (cases "sig = Basic_Ack") (auto simp: dispatch_method_def Let_def spec_method_def run_listener_def
        bindA_def keep_def on_basic_ack_def on_basic_nack_def handlers_of_def call_waiter_def)
qed

text \<open>Whoever waits for a confirmation is told by the next one of the channel.\<close>

lemma wait_confirm:
  assumes up: "channel_up w r ch" "steady_transport (transport (fw w))" "r \<noteq> 0"
    and out: "encode_frames (hbs @ [(1, ch, p)]) = Inr out" "unread (transport (fw w)) = out @ rest"
    and hb: "\<forall>(ft, _, _) \<in> set hbs. ft = 8"
    and p: "unpack_sig p = Inr sig" "sig \<in> {Basic_Ack, Basic_Nack}" "loads ''Lb'' p 4 = Inr ([tag, multiple], k)"
    and quiet: "handlers_of r ''basic_ack'' w = []" "handlers_of r ''basic_nack'' w = []" and n: "length hbs < n"
  obtains w' x where "wait (drainer n E) r [Basic_Ack, Basic_Nack] Confirm_handler None False w
      = (if sig = Basic_Ack then Inr x else Inl MessageNacked, w')"
    and "unread (transport (fw w')) = rest" and "same_sender (transport (fw w)) (transport (fw w'))"
proof -
  let ?w1 = "waiting r [Basic_Ack, Basic_Nack] Confirm_handler w"
  obtain t h dr where t: "unread t = rest" "same_sender (transport (fw w)) t"
    and d: "drain_events n E None ?w1 = dispatch_method E (listener E dr) r sig p None
      (?w1\<lparr>fw := (fw w)\<lparr>transport := t\<rparr>, fh := h\<rparr>)"
    by (rule wait_dispatches [OF up(1,2) out hb p(1) confirm_methods(2) [OF up(3) p(2)] n]) (rule that)
  let ?w2 = "?w1\<lparr>fw := (fw w)\<lparr>transport := t\<rparr>, fh := h\<rparr>"
  have pend: "map_of (pending (objects ?w2 r)) sig = Some (next_waiter w)"
    using p(2) by (simp add: install_lookup del: install.simps)
  obtain w3 where w3: "dispatch_method E (listener E dr) r sig p None ?w2
      = (if sig = Basic_Ack then Inr () else Inl MessageNacked, w3)"
    "sig = Basic_Ack \<Longrightarrow> result_args (waiters w3 (next_waiter w)) = Some []" "fw w3 = fw ?w2"
    by (rule dispatch_confirm [OF up(3) _ p(2) _ _ pend _ p(3), of E dr])
      (use up(1) quiet in \<open>simp_all add: channel_up_def handlers_of_def\<close>)
  have run: "drain_events n E None ?w1 = (if sig = Basic_Ack then Inr () else Inl MessageNacked, w3)"
    using w3(1) d by simp
  have 1: "0 < n" "conn_ref (objects w r)" using n up(1) by (simp_all add: channel_up_def)
  have 2: "case (if sig = Basic_Ack then Inr () else Inl MessageNacked) of
      Inl e \<Rightarrow> (if sig = Basic_Ack then Inr (shape_result False []) else Inl MessageNacked) = Inl e
    | Inr _ \<Rightarrow> \<exists>args. result_args (waiters w3 (next_waiter w)) = Some args
        \<and> (if sig = Basic_Ack then Inr (shape_result False []) else Inl MessageNacked) = Inr (shape_result False args)"
    using w3(2) by simp
  obtain g where w': "wait (drainer n E) r [Basic_Ack, Basic_Nack] Confirm_handler None False w
      = (if sig = Basic_Ack then Inr (shape_result False []) else Inl MessageNacked,
         upd_obj r (\<lambda>c. c\<lparr>pending := g (pending c)\<rparr>) w3)"
    by (rule wait_first_turn [OF run 1 2]) (rule that)
  show thesis by (rule that [OF w']) (simp_all add: w3(3) t)
qed

lemma plain_published:
  assumes "conn_ref (objects w r)" and "has_transport w" and "has_frame_writer w" and "channel_id (objects w r) = Some ch"
    and "wants_blocked (client_properties w) = Inr False" and "dumps ''Bssbb'' [VInt 0, ex, rk, md, im] = Inr a"
    and "write_frame (codecs E) write_bytes 1 ch (Some Basic_Publish) (VBytes a) (Some msg) (fw w) = (Inr (), f, m')"
  shows "plain_publish E dr r msg ex rk md im None w = (Inr RPromise, w\<lparr>fw := f\<rparr>)"
  using assms
  by (simp add: plain_publish_def bindA_def catchA_def need_def force_connect_def having_timeout_def send_wait_def
      send_method_def write_method_def)

text \<open>Publishing with confirms: the content goes out, and the next confirmation decides.\<close>

lemma publish_confirm:
  assumes up: "channel_up w r ch" "has_frame_writer w" "channel_id (objects w r) = Some ch" "r \<noteq> 0"
    "steady_transport (transport (fw w))"
    and mode: "confirm_selected (objects w r)" "wants_blocked (client_properties w) = Inr False"
    and ok: "codecs_ok (codecs E)" and a: "dumps ''Bssbb'' [VInt 0, ex, rk, md, im] = Inr a"
    and sent: "write_frame (codecs E) write_bytes 1 ch (Some Basic_Publish) (VBytes a) (Some msg) (fw w) = (Inr (), f, m')"
    and out: "encode_frames (hbs @ [(1, ch, p)]) = Inr out" "unread (transport (fw w)) = out @ rest"
    and hb: "\<forall>(ft, _, _) \<in> set hbs. ft = 8"
    and p: "unpack_sig p = Inr sig" "sig \<in> {Basic_Ack, Basic_Nack}" "loads ''Lb'' p 4 = Inr ([tag, multiple], k)"
    and quiet: "handlers_of r ''basic_ack'' w = []" "handlers_of r ''basic_nack'' w = []" and n: "length hbs < n"
  obtains w' where "basic_publish_confirm E (drainer n E) r msg ex rk md im None None w
      = (if sig = Basic_Ack then Inr RPromise else Inl MessageNacked, w')"
    and "unread (transport (fw w')) = rest"
    and "sent_bytes (transport (fw w')) = sent_bytes (transport f)"
proof -
  let ?w = "w\<lparr>fw := f\<rparr>"
  have f: "unread (transport f) = unread (transport (fw w))"
    "steady_transport (transport f) = steady_transport (transport (fw w))"
    using write_frame_writes [OF ok sent] by (simp_all add: writes_def)
  have 1: "channel_up ?w r ch" "steady_transport (transport (fw ?w))" "unread (transport (fw ?w)) = out @ rest"
    "handlers_of r ''basic_ack'' ?w = []" "handlers_of r ''basic_nack'' ?w = []"
    using up(1,5) f out(2) quiet by (simp_all add: channel_up_def handlers_of_def)
  obtain w' x where w': "wait (drainer n E) r [Basic_Ack, Basic_Nack] Confirm_handler None False ?w
      = (if sig = Basic_Ack then Inr x else Inl MessageNacked, w')"
    "unread (transport (fw w')) = rest" "same_sender (transport (fw ?w)) (transport (fw w'))"
    by (rule wait_confirm [OF 1(1,2) up(4) out(1) 1(3) hb p 1(4,5) n, of E]) (rule that)
  have "plain_publish E (drainer n E) r msg ex rk md im None w = (Inr RPromise, ?w)"
    by (rule plain_published [OF _ _ up(2,3) mode(2) a sent]) (use up(1) in \<open>simp_all add: channel_up_def\<close>)
  then have "basic_publish_confirm E (drainer n E) r msg ex rk md im None None w
      = (if sig = Basic_Ack then Inr RPromise else Inl MessageNacked, w')"
    using mode(1) w'(1) by (simp add: basic_publish_confirm_def bindA_def)
  then show thesis using that w'(2,3) by (simp add: same_sender_def)
qed

end
