(* ===== verification/Handshake.thy ===== *)
theory Handshake
  imports Calls
begin

text \<open>
  The handshake of a connection, from the bytes the server sends to the bytes the client
  answers and the parameters both agree on.
\<close>

section \<open>An idle connection\<close>

text \<open>Connected, its own channel in use and idle, nothing sent failing.\<close>

definition conn_up :: "world \<Rightarrow> bool" where
  "conn_up w \<longleftrightarrow> channel_up w 0 0 \<and> has_frame_writer w \<and> channel_id (objects w 0) = Some 0
     \<and> pending (objects w 0) = [] \<and> steady_transport (transport (fw w)) \<and> writable (transport (fw w))
     \<and> connect_timeout (transport (fw w)) = None"

lemma conn_up_cong:
  assumes "conn_up w" and "objects w' = objects w" "channels w' = channels w" "has_transport w' = has_transport w"
    "has_inbound w' = has_inbound w" "has_frame_writer w' = has_frame_writer w"
    "expected_types (fh w') 0 = expected_types (fh w) 0"
    "steady_transport (transport (fw w'))" "writable (transport (fw w'))"
    "connect_timeout (transport (fw w')) = connect_timeout (transport (fw w))"
  shows "conn_up w'"
  using assms by (simp add: conn_up_def channel_up_def)

lemma conn_up_sent:
  "conn_up w \<Longrightarrow> sent_on (fw w) d f \<Longrightarrow> conn_up (w\<lparr>fw := f\<rparr>)"
  by (rule conn_up_cong) (auto simp: sent_on_def conn_up_def)

lemma send_up:
  assumes up: "conn_up w" and d: "method_frame 0 sig fmt xs = Inr d" and fit: "int (length d) \<le> frame_max (fw w) - 8"
    and fmt: "fmt \<noteq> []"
  obtains f where "sent_on (fw w) d f"
    and "\<And>cb. send_method E dr 0 sig fmt xs None cb w = cb (w\<lparr>fw := f\<rparr>)"
proof -
  have 1: "conn_ref (objects w 0)" "has_frame_writer w" "channel_id (objects w 0) = Some 0" "writable (transport (fw w))"
    using up by (simp_all add: conn_up_def channel_up_def)
  show thesis by (rule send_framed [OF 1 d fit fmt, of E dr]) (rule that)
qed

section \<open>One method of the server\<close>

text \<open>The next frame is a method of channel 0: its listener runs, with the frame taken off.\<close>

lemma serve:
  assumes up: "conn_up w" and out: "encode_frames ((1, 0, p) # fs) = Inr out" "unread (transport (fw w)) = out @ rest"
    and p: "unpack_sig p = Inr sig" "sig \<notin> set CONTENT_METHODS"
    and m: "METHODS 0 sig = Some m" "\<not> m_content m" "method_args m p None = Inr args"
    and ls: "\<And>dr. connection_listener E dr sig = Some (f dr)" and n: "0 < n"
  obtains out' v dr t h where "encode_frames fs = Inr out'" and "conn_up v" and "unread (transport (fw v)) = out' @ rest"
    and "sent_bytes (transport (fw v)) = sent_bytes (transport (fw w))"
    and "v = w\<lparr>fw := (fw w)\<lparr>transport := t\<rparr>, fh := h\<rparr>" and "clean_close t = clean_close (transport (fw w))"
    and "connected t = connected (transport (fw w))"
    and "drain_events n E None w = (case f dr args v of (Inl e, w') \<Rightarrow> (Inl e, w') | (Inr _, w') \<Rightarrow> (Inr (), w'))"
proof -
  obtain d out' where d: "pack_frame 1 0 p = Inr d" and out': "encode_frames fs = Inr out'" "out = d @ out'"
    using out(1) by (auto simp: bindE_eq_Inr)
  have 1: "encode_frames ([] @ [(1, 0, p)]) = Inr d" using d by simp
  have 2: "unread (transport (fw w)) = d @ out' @ rest" using out(2) out'(2) by simp
  have cu: "has_transport w" "has_inbound w" "steady_transport (transport (fw w))" "expected_types (fh w) 0 = 1"
    using up by (simp_all add: conn_up_def channel_up_def)
  have hb: "\<forall>(ft, _, _) \<in> set ([] :: frame list). ft = 8" and len: "length ([] :: frame list) < n"
    using n by simp_all
  obtain k t h where t: "steady_transport t" "unread t = out' @ rest" "same_sender (transport (fw w)) t"
      "connected t = connected (transport (fw w))"
    and dr: "drain_events n E None w = on_inbound_method E (k, drain_events k E) (0, sig, p, None)
      (w\<lparr>fw := (fw w)\<lparr>transport := t\<rparr>, fh := h\<rparr>)"
    and h: "h = (fh w)\<lparr>bytes_recv := bytes_recv (fh w) + length ([] :: frame list) + 1\<rparr>"
    by (rule drain_method [OF cu(1-3) 1 2 hb cu(4) p len, of E]) (rule that)
  let ?v = "w\<lparr>fw := (fw w)\<lparr>transport := t\<rparr>, fh := h\<rparr>"
  have v: "conn_up ?v"
    by (rule conn_up_cong [OF up]) (use t up h in \<open>simp_all add: same_sender_def writable_def conn_up_def\<close>)
  obtain tbl where tbl: "channels w = Some tbl" "map_of tbl 0 = Some 0"
    using up by (auto simp: conn_up_def channel_up_def)
  have "dispatch_method E (listener E (k, drain_events k E)) 0 sig p None ?v
    = (case f (k, drain_events k E) args ?v of (Inl e, w') \<Rightarrow> (Inl e, w') | (Inr _, w') \<Rightarrow> (Inr (), w'))"
    by (rule dispatch_listened)
      (use up m ls in \<open>simp_all add: conn_up_def channel_up_def listener_def\<close>)
  then have run: "drain_events n E None w = (case f (k, drain_events k E) args ?v of
      (Inl e, w') \<Rightarrow> (Inl e, w') | (Inr _, w') \<Rightarrow> (Inr (), w'))"
    using tbl by (simp add: dr on_inbound_method_def)
  show thesis
    by (rule that [OF out'(1) v, where t = t and h = h]) (use run t in \<open>simp_all add: same_sender_def\<close>)
qed

section \<open>The handlers\<close>

lemma on_start_up:
  assumes up: "conn_up w" and mb: "encode_utf8 mechs = Inr mb"
    and props: "negotiate (negotiate_capabilities E) sprops (client_properties w) = Inr props"
    and auth: "pick_authentication (split_at 32 mb) (authentication w) = Inr (Some (m, resp))"
    and d: "method_frame 0 Connection_StartOk ''FsSs''
      [VDict props, VBytes m, VBytes resp, VStr (locale_name w)] = Inr d"
    and fit: "int (length d) \<le> frame_max (fw w) - 8"
  obtains f where "sent_on (fw w) d f"
    and "on_start E dr major minor sprops mechs locs w = (Inr (),
      w\<lparr>server_version := (major, minor), server_properties := sprops, mechanisms := split_at 32 mb,
        locales := split_at 32 locs, client_properties := props, fw := f\<rparr>)"
proof -
  let ?v = "w\<lparr>server_version := (major, minor), server_properties := sprops, mechanisms := split_at 32 mb,
        locales := split_at 32 locs, client_properties := props\<rparr>"
  have "conn_up ?v" by (rule conn_up_cong [OF up]) (use up in \<open>simp_all add: conn_up_def\<close>)
  then obtain f where f: "sent_on (fw ?v) d f"
    "\<And>cb. send_method E dr 0 Connection_StartOk ''FsSs''
      [VDict props, VBytes m, VBytes resp, VStr (locale_name w)] None cb ?v = cb (?v\<lparr>fw := f\<rparr>)"
    using send_up [OF _ d, of ?v E dr] fit by auto
  show thesis
    by (rule that [of f]) (use f mb props auth in \<open>simp_all add: on_start_def bindA_def\<close>)
qed

lemma on_tune_up:
  assumes up: "conn_up w" and v: "v = tuned cmax fmax shb w"
    and d: "method_frame 0 Connection_TuneOk ''BlB''
      [VInt (channel_max v), VInt (frame_max (fw v)), VInt (heartbeat v)] = Inr d1"
      "method_frame 0 Connection_Open ''ssb'' [VStr (virtual_host w), VStr [], VBool False] = Inr d2"
    and fit: "int (length d1) \<le> frame_max (fw v) - 8" "int (length d2) \<le> frame_max (fw v) - 8"
  obtains f where "sent_on (fw v) (d1 @ d2) f" and "on_tune E dr cmax fmax shb w = (Inr (), v\<lparr>fw := f\<rparr>)"
proof -
  have up': "conn_up v"
    by (rule conn_up_cong [OF up]) (use up in \<open>simp_all add: v tuned_def conn_up_def\<close>)
  obtain f1 where f1: "sent_on (fw v) d1 f1"
    "\<And>cb. send_method E dr 0 Connection_TuneOk ''BlB''
      [VInt (channel_max v), VInt (frame_max (fw v)), VInt (heartbeat v)] None cb v = cb (v\<lparr>fw := f1\<rparr>)"
    using send_up [OF up' d(1) fit(1), of E dr] by auto
  let ?v1 = "v\<lparr>fw := f1\<rparr>"
  have "frame_max f1 = frame_max (fw v)" "virtual_host v = virtual_host w"
    using f1(1) by (simp_all add: sent_on_def v tuned_def)
  then obtain f2 where f2: "sent_on f1 d2 f2"
    "\<And>cb. send_method E dr 0 Connection_Open ''ssb'' [VStr (virtual_host v), VStr [], VBool False]
      None cb ?v1 = cb (v\<lparr>fw := f2\<rparr>)"
    using send_up [OF conn_up_sent [OF up' f1(1)], of Connection_Open "''ssb''" _ d2 E dr] d(2) fit(2) by auto
  show thesis
    by (rule that [of f2])
      (use f1 f2 sent_on_trans in \<open>auto simp: on_tune_def on_tune_sent_def bindA_def v [symmetric]\<close>)
qed

section \<open>The whole handshake\<close>

lemma handshake_step:
  assumes "\<not> handshake_complete w" and "connect_timeout (transport (fw w)) = None"
    and "drain None w = (Inr (), w')"
  shows "handshake_loop (Suc k) drain w = handshake_loop k drain w'"
  using assms by (simp add: bindA_def)

lemma open_methods:
  "METHODS 0 Connection_Start = Some (spec_method Connection_Start (Some ''ooFSS'') False)"
  "METHODS 0 Connection_Tune = Some (spec_method Connection_Tune (Some ''BlB'') False)"
  "METHODS 0 Connection_OpenOk = Some (spec_method Connection_OpenOk None False)"
  "sig \<in> {Connection_Start, Connection_Tune, Connection_OpenOk} \<Longrightarrow> sig \<notin> set CONTENT_METHODS"
  by (auto simp: METHODS_def connection_METHODS_def spec_method_def CONTENT_METHODS_def sig_defs)

text \<open>What one step of the handshake leaves alone.\<close>

definition same_params :: "world \<Rightarrow> world \<Rightarrow> bool" where
  "same_params w w' \<longleftrightarrow> channel_max w' = channel_max w \<and> frame_max (fw w') = frame_max (fw w)
     \<and> client_heartbeat w' = client_heartbeat w \<and> virtual_host w' = virtual_host w
     \<and> objects w' = objects w \<and> handshake_complete w' = handshake_complete w"

text \<open>Start: what its handler is run on.\<close>

lemma serve_start_method:
  assumes up: "conn_up w"
    and out: "encode_frames ((1, 0, p) # fs) = Inr out" "unread (transport (fw w)) = out @ rest"
    and p: "unpack_sig p = Inr Connection_Start"
    and args: "loads ''ooFSS'' p 4 = Inr ([major, minor, sprops, VStr mechs, VStr locs], k)"
    and n: "0 < n"
  obtains out' v dr t h q w' where "encode_frames fs = Inr out'" and "conn_up v"
    and "unread (transport (fw v)) = out' @ rest"
    and "sent_bytes (transport (fw v)) = sent_bytes (transport (fw w))"
    and "v = w\<lparr>fw := (fw w)\<lparr>transport := t\<rparr>, fh := h\<rparr>" and "connected t = connected (transport (fw w))"
    and "on_start E dr major minor sprops mechs locs v = (q, w')" and "drain_events n E None w = (q, w')"
proof -
  have ls: "connection_listener E dr Connection_Start = Some (\<lambda>args. case args of
        [AV major, AV minor, AV sprops, AV (VStr mechs), AV (VStr locs)] \<Rightarrow>
          keep (on_start E dr major minor sprops mechs locs) args
      | _ \<Rightarrow> raiseA TypeError)" for dr
    by (simp add: connection_listener_def sig_defs)
  have ma: "method_args (spec_method Connection_Start (Some ''ooFSS'') False) p None
      = Inr [AV major, AV minor, AV sprops, AV (VStr mechs), AV (VStr locs)]"
    using args by (simp add: method_args_def spec_method_def)
  have sig: "Connection_Start \<notin> set CONTENT_METHODS" by (rule open_methods(4)) simp
  have mc: "\<not> m_content (spec_method x y False)" for x y by (simp add: spec_method_def)
  obtain out' v dr t h where v: "encode_frames fs = Inr out'" "conn_up v" "unread (transport (fw v)) = out' @ rest"
      "sent_bytes (transport (fw v)) = sent_bytes (transport (fw w))"
      "v = w\<lparr>fw := (fw w)\<lparr>transport := t\<rparr>, fh := h\<rparr>" "connected t = connected (transport (fw w))"
    and r: "drain_events n E None w = (case keep (on_start E dr major minor sprops mechs locs)
        [AV major, AV minor, AV sprops, AV (VStr mechs), AV (VStr locs)] v of
        (Inl e, w') \<Rightarrow> (Inl e, w') | (Inr _, w') \<Rightarrow> (Inr (), w'))"
    by (rule serve [OF up out p sig open_methods(1) mc ma ls n]) (rule that; (assumption | simp))
  obtain q w' where q: "on_start E dr major minor sprops mechs locs v = (q, w')" by fastforce
  then have "drain_events n E None w = (q, w')"
    using r by (cases q) (simp_all add: keep_def bindA_def)
  then show thesis using that v q by blast
qed

lemma serve_start:
  assumes up: "conn_up w"
    and out: "encode_frames ((1, 0, p) # fs) = Inr out" "unread (transport (fw w)) = out @ rest"
    and p: "unpack_sig p = Inr Connection_Start"
    and args: "loads ''ooFSS'' p 4 = Inr ([major, minor, sprops, VStr mechs, VStr locs], k)"
    and start: "encode_utf8 mechs = Inr mb"
      "negotiate (negotiate_capabilities E) sprops (client_properties w) = Inr props"
      "pick_authentication (split_at 32 mb) (authentication w) = Inr (Some (m, resp))"
    and d: "method_frame 0 Connection_StartOk ''FsSs''
      [VDict props, VBytes m, VBytes resp, VStr (locale_name w)] = Inr d" "int (length d) \<le> frame_max (fw w) - 8"
    and n: "0 < n"
  obtains w' out' where "drain_events n E None w = (Inr (), w')" and "conn_up w'" and "same_params w w'"
    and "encode_frames fs = Inr out'" and "unread (transport (fw w')) = out' @ rest"
    and "sent_bytes (transport (fw w')) = sent_bytes (transport (fw w)) @ d"
proof -
  obtain out' v dr t h q w1 where o: "encode_frames fs = Inr out'"
    and v: "conn_up v" "unread (transport (fw v)) = out' @ rest"
      "sent_bytes (transport (fw v)) = sent_bytes (transport (fw w))"
      "v = w\<lparr>fw := (fw w)\<lparr>transport := t\<rparr>, fh := h\<rparr>"
    and r: "on_start E dr major minor sprops mechs locs v = (q, w1)" "drain_events n E None w = (q, w1)"
    by (rule serve_start_method [OF up out p args n, of E]) (rule that; (assumption | simp))
  have same: "client_properties v = client_properties w" "authentication v = authentication w"
    "locale_name v = locale_name w" "frame_max (fw v) = frame_max (fw w)"
    by (simp_all add: v(4))
  note start' = start(1) start(2) [folded same] start(3) [folded same] d [folded same]
  obtain f where f: "sent_on (fw v) d f"
    and s: "on_start E dr major minor sprops mechs locs v = (Inr (),
      v\<lparr>server_version := (major, minor), server_properties := sprops, mechanisms := split_at 32 mb,
        locales := split_at 32 locs, client_properties := props, fw := f\<rparr>)"
    by (rule on_start_up [OF v(1) start', of dr major minor locs]) (rule that)
  let ?w = "v\<lparr>server_version := (major, minor), server_properties := sprops, mechanisms := split_at 32 mb,
        locales := split_at 32 locs, client_properties := props, fw := f\<rparr>"
  have 1: "drain_events n E None w = (Inr (), ?w)" using r s by simp
  have 2: "conn_up ?w"
    by (rule conn_up_cong [OF v(1)]) (use f v(1) in \<open>auto simp: sent_on_def conn_up_def\<close>)
  have 3: "same_params w ?w" using f by (simp add: same_params_def v(4) sent_on_def)
  show thesis
    by (rule that [OF 1 2 3 o]) (use f v(2,3) in \<open>simp_all add: sent_on_def\<close>)
qed

text \<open>No mechanism fits: the handler raises and the socket stays open.\<close>

lemma serve_refused:
  assumes up: "conn_up w"
    and out: "encode_frames [(1, 0, p)] = Inr out" "unread (transport (fw w)) = out @ rest"
    and p: "unpack_sig p = Inr Connection_Start"
    and args: "loads ''ooFSS'' p 4 = Inr ([major, minor, sprops, VStr mechs, VStr locs], k)"
    and start: "encode_utf8 mechs = Inr mb"
      "negotiate (negotiate_capabilities E) sprops (client_properties w) = Inr props"
      "pick_authentication (split_at 32 mb) (authentication w) = Inr None"
    and n: "0 < n"
  obtains e w' where "drain_events n E None w = (Inl e, w')"
    and "is_instance e ConnectionError" and "\<not> is_OSError e"
    and "has_transport w' = has_transport w" and "connected (transport (fw w')) = connected (transport (fw w))"
    and "handshake_complete w' = handshake_complete w"
    and "sent_bytes (transport (fw w')) = sent_bytes (transport (fw w))"
    and "unread (transport (fw w')) = rest"
proof -
  obtain out' v dr t h q w1 where o: "encode_frames [] = Inr out'"
    and v: "conn_up v" "unread (transport (fw v)) = out' @ rest"
      "sent_bytes (transport (fw v)) = sent_bytes (transport (fw w))"
      "v = w\<lparr>fw := (fw w)\<lparr>transport := t\<rparr>, fh := h\<rparr>" "connected t = connected (transport (fw w))"
    and r: "on_start E dr major minor sprops mechs locs v = (q, w1)" "drain_events n E None w = (q, w1)"
    by (rule serve_start_method [OF up out p args n, of E]) (rule that; (assumption | simp))
  have same: "client_properties v = client_properties w" "authentication v = authentication w" by (simp_all add: v(4))
  let ?e = "raise_amqp ConnectionError ''Couldn't find appropriate auth mechanism (can offer: {}; available: {})''"
  have "q = Inl ?e \<and> w1 = v\<lparr>server_version := (major, minor), server_properties := sprops,
      mechanisms := split_at 32 mb, locales := split_at 32 locs, client_properties := props\<rparr>"
    using r(1) start(1) start(2) [folded same] start(3) [folded same] by (simp add: on_start_def bindA_def)
  moreover have "is_instance ?e ConnectionError" "\<not> is_OSError ?e"
    by (simp_all add: is_instance_def raise_amqp_def amqp_error_init_def is_OSError_def)
  ultimately show thesis
    by (intro that [of ?e w1]) (use r(2) v o in simp_all)
qed

lemma serve_tune:
  assumes up: "conn_up w"
    and out: "encode_frames ((1, 0, p) # fs) = Inr out" "unread (transport (fw w)) = out @ rest"
    and p: "unpack_sig p = Inr Connection_Tune"
    and args: "loads ''BlB'' p 4 = Inr ([VInt cmax, VInt fmax, VInt shb], k)"
    and v: "v = tuned cmax fmax shb w"
    and d1: "method_frame 0 Connection_TuneOk ''BlB''
      [VInt (channel_max v), VInt (frame_max (fw v)), VInt (heartbeat v)] = Inr d1"
      "int (length d1) \<le> frame_max (fw v) - 8"
    and d2: "method_frame 0 Connection_Open ''ssb'' [VStr (virtual_host w), VStr [], VBool False] = Inr d2"
      "int (length d2) \<le> frame_max (fw v) - 8"
    and n: "0 < n"
  obtains w' out' where "drain_events n E None w = (Inr (), w')" and "conn_up w'"
    and "same_params v w'" and "heartbeat w' = heartbeat v"
    and "encode_frames fs = Inr out'" and "unread (transport (fw w')) = out' @ rest"
    and "sent_bytes (transport (fw w')) = sent_bytes (transport (fw w)) @ d1 @ d2"
proof -
  have ls: "connection_listener E dr Connection_Tune = Some (\<lambda>args. case args of
        [AV (VInt cmax), AV (VInt fmax), AV (VInt shb)] \<Rightarrow> keep (on_tune E dr cmax fmax shb) args
      | _ \<Rightarrow> raiseA TypeError)" for dr
    by (simp add: connection_listener_def sig_defs)
  have ma: "method_args (spec_method Connection_Tune (Some ''BlB'') False) p None
      = Inr [AV (VInt cmax), AV (VInt fmax), AV (VInt shb)]"
    using args by (simp add: method_args_def spec_method_def)
  have sig: "Connection_Tune \<notin> set CONTENT_METHODS" by (rule open_methods(4)) simp
  have mc: "\<not> m_content (spec_method x y False)" for x y by (simp add: spec_method_def)
  obtain out' u dr t h where o: "encode_frames fs = Inr out'"
    and u: "conn_up u" "unread (transport (fw u)) = out' @ rest"
      "sent_bytes (transport (fw u)) = sent_bytes (transport (fw w))"
      "u = w\<lparr>fw := (fw w)\<lparr>transport := t\<rparr>, fh := h\<rparr>"
    and r: "drain_events n E None w = (case keep (on_tune E dr cmax fmax shb)
        [AV (VInt cmax), AV (VInt fmax), AV (VInt shb)] u of
        (Inl e, w') \<Rightarrow> (Inl e, w') | (Inr _, w') \<Rightarrow> (Inr (), w'))"
    by (rule serve [OF up out p sig open_methods(2) mc ma ls n]) (rule that; (assumption | simp))
  let ?v = "tuned cmax fmax shb u"
  have same: "channel_max ?v = channel_max v" "frame_max (fw ?v) = frame_max (fw v)"
    "heartbeat ?v = heartbeat v" "virtual_host u = virtual_host w"
    by (simp_all add: tuned_def v u(4))
  note d1' = d1 [folded same] and d2' = d2 [folded same]
  obtain f where f: "sent_on (fw ?v) (d1 @ d2) f" and s: "on_tune E dr cmax fmax shb u = (Inr (), ?v\<lparr>fw := f\<rparr>)"
    by (rule on_tune_up [OF u(1) refl d1'(1) d2'(1) d1'(2) d2'(2), where E = E and dr = dr]) (rule that)
  let ?w = "?v\<lparr>fw := f\<rparr>"
  have 1: "drain_events n E None w = (Inr (), ?w)" using r s by (simp add: keep_def bindA_def)
  have 2: "conn_up ?w"
    by (rule conn_up_cong [OF u(1)]) (use f u(1) in \<open>auto simp: sent_on_def conn_up_def tuned_def\<close>)
  have 3: "same_params v ?w" using f by (simp add: same_params_def v u(4) sent_on_def tuned_def)
  show thesis
    by (rule that [OF 1 2 3 _ o]) (use f u(2,3) same(3) in \<open>simp_all add: sent_on_def tuned_def\<close>)
qed

lemma serve_open:
  assumes up: "conn_up w" and cb: "on_open (objects w 0) = None"
    and out: "encode_frames [(1, 0, p)] = Inr out" "unread (transport (fw w)) = out @ rest"
    and p: "unpack_sig p = Inr Connection_OpenOk" and n: "0 < n"
  obtains v where "drain_events n E None w = (Inr (), v\<lparr>handshake_complete := True\<rparr>)"
    and "same_params w v" and "heartbeat v = heartbeat w" and "unread (transport (fw v)) = rest"
    and "sent_bytes (transport (fw v)) = sent_bytes (transport (fw w))"
proof -
  have ls: "connection_listener E dr Connection_OpenOk = Some (\<lambda>args. keep (on_open_ok E) args)" for dr
    by (simp add: connection_listener_def sig_defs)
  have ma: "method_args (spec_method Connection_OpenOk None False) p None = Inr []"
    by (simp add: method_args_def spec_method_def)
  have sig: "Connection_OpenOk \<notin> set CONTENT_METHODS" by (rule open_methods(4)) simp
  have mc: "\<not> m_content (spec_method x y False)" for x y by (simp add: spec_method_def)
  obtain out' v t h where o: "encode_frames [] = Inr out'"
    and v: "unread (transport (fw v)) = out' @ rest"
      "sent_bytes (transport (fw v)) = sent_bytes (transport (fw w))"
      "v = w\<lparr>fw := (fw w)\<lparr>transport := t\<rparr>, fh := h\<rparr>"
    and r: "drain_events n E None w = (case keep (on_open_ok E) [] v of
        (Inl e, w') \<Rightarrow> (Inl e, w') | (Inr _, w') \<Rightarrow> (Inr (), w'))"
    by (rule serve [OF up out p sig open_methods(3) mc ma ls n]) (rule that; (assumption | simp))
  show thesis
    by (rule that [of v])
      (use r cb o v in \<open>simp_all add: keep_def bindA_def on_open_ok_def call_app_opt_def same_params_def\<close>)
qed

text \<open>
  The handshake: the server sends Start, Tune and OpenOk, in packets of any size; the client
  answers StartOk, TuneOk and Open and ends with the parameters of \<open>tuned\<close>.
\<close>

lemma handshake:
  assumes up: "conn_up w" and todo: "\<not> handshake_complete w" and cb: "on_open (objects w 0) = None"
    and out: "encode_frames [(1, 0, p1), (1, 0, p2), (1, 0, p3)] = Inr out"
      "unread (transport (fw w)) = out @ rest"
    and p: "unpack_sig p1 = Inr Connection_Start" "unpack_sig p2 = Inr Connection_Tune"
      "unpack_sig p3 = Inr Connection_OpenOk"
    and args: "loads ''ooFSS'' p1 4 = Inr ([major, minor, sprops, VStr mechs, VStr locs], k1)"
      "loads ''BlB'' p2 4 = Inr ([VInt cmax, VInt fmax, VInt shb], k2)"
    and start: "encode_utf8 mechs = Inr mb"
      "negotiate (negotiate_capabilities E) sprops (client_properties w) = Inr props"
      "pick_authentication (split_at 32 mb) (authentication w) = Inr (Some (m, resp))"
    and v: "v = tuned cmax fmax shb w"
    and d1: "method_frame 0 Connection_StartOk ''FsSs''
      [VDict props, VBytes m, VBytes resp, VStr (locale_name w)] = Inr d1" "int (length d1) \<le> frame_max (fw w) - 8"
    and d2: "method_frame 0 Connection_TuneOk ''BlB''
      [VInt (channel_max v), VInt (frame_max (fw v)), VInt (heartbeat v)] = Inr d2"
      "int (length d2) \<le> frame_max (fw v) - 8"
    and d3: "method_frame 0 Connection_Open ''ssb'' [VStr (virtual_host w), VStr [], VBool False] = Inr d3"
      "int (length d3) \<le> frame_max (fw v) - 8"
    and n: "3 \<le> n"
  shows "\<exists>w'. handshake_loop n (drain_events n E) w = (Inr (), w') \<and> handshake_complete w'
    \<and> channel_max w' = channel_max v \<and> frame_max (fw w') = frame_max (fw v) \<and> heartbeat w' = heartbeat v
    \<and> sent_bytes (transport (fw w')) = sent_bytes (transport (fw w)) @ d1 @ d2 @ d3
    \<and> unread (transport (fw w')) = rest"
proof -
  have n0: "0 < n" using n by simp
  obtain w1 out1 where r1: "drain_events n E None w = (Inr (), w1)" "conn_up w1" "same_params w w1"
    "encode_frames [(1, 0, p2), (1, 0, p3)] = Inr out1" "unread (transport (fw w1)) = out1 @ rest"
    "sent_bytes (transport (fw w1)) = sent_bytes (transport (fw w)) @ d1"
    by (rule serve_start [OF up out p(1) args(1) start d1 n0]) (rule that)
  let ?v = "tuned cmax fmax shb w1"
  have same: "channel_max ?v = channel_max v" "frame_max (fw ?v) = frame_max (fw v)" "heartbeat ?v = heartbeat v"
    "virtual_host w1 = virtual_host w" "handshake_complete v = handshake_complete w" "objects v = objects w"
    using r1(3) by (simp_all add: same_params_def tuned_def v)
  note d2' = d2 [folded same] and d3' = d3 [folded same]
  obtain w2 out2 where r2: "drain_events n E None w1 = (Inr (), w2)" "conn_up w2" "same_params ?v w2"
    "heartbeat w2 = heartbeat ?v" "encode_frames [(1, 0, p3)] = Inr out2"
    "unread (transport (fw w2)) = out2 @ rest"
    "sent_bytes (transport (fw w2)) = sent_bytes (transport (fw w1)) @ d2 @ d3"
    by (rule serve_tune [OF r1(2,4,5) p(2) args(2) refl d2' d3' n0]) (rule that)
  have w2: "on_open (objects w2 0) = None" "\<not> handshake_complete w1" "\<not> handshake_complete w2"
    using r1(3) r2(3) cb todo by (simp_all add: same_params_def tuned_def)
  obtain u where r3: "drain_events n E None w2 = (Inr (), u\<lparr>handshake_complete := True\<rparr>)"
    "same_params w2 u" "heartbeat u = heartbeat w2" "unread (transport (fw u)) = rest"
    "sent_bytes (transport (fw u)) = sent_bytes (transport (fw w2))"
    by (rule serve_open [OF r2(2) w2(1) r2(5,6) p(3) n0]) (rule that)
  obtain j where j: "n = Suc (Suc (Suc j))"
    using n by (metis Suc_le_D numeral_3_eq_3 Suc_le_mono)
  have ct: "connect_timeout (transport (fw x)) = None" if "conn_up x" for x
    using that by (simp add: conn_up_def)
  define drain where "drain = drain_events n E"
  have "handshake_loop (Suc (Suc (Suc j))) drain w = handshake_loop j drain (u\<lparr>handshake_complete := True\<rparr>)"
    using handshake_step [OF todo ct [OF up], of drain] handshake_step [OF w2(2) ct [OF r1(2)], of drain]
      handshake_step [OF w2(3) ct [OF r2(2)], of drain] r1(1) r2(1) r3(1) by (simp add: drain_def)
  also have "\<dots> = (Inr (), u\<lparr>handshake_complete := True\<rparr>)" by (cases j) simp_all
  finally have "handshake_loop n (drain_events n E) w = (Inr (), u\<lparr>handshake_complete := True\<rparr>)"
    by (simp only: j drain_def)
  then show ?thesis
    using r1(6) r2(3,4,7) r3(2-5) same
    by (intro exI [of _ "u\<lparr>handshake_complete := True\<rparr>"] conjI) (simp_all add: same_params_def)
qed

end
