(* ===== verification/Server_Close.thy ===== *)
theory Server_Close
  imports Handshake
begin

text \<open>
  A call that is waiting when the server closes the connection: the close is acknowledged,
  everything is released, and the call raises the error.
\<close>

lemma close_method:
  "METHODS 0 Connection_Close = Some (spec_method Connection_Close (Some ''BsBB'') False)"
  "Connection_Close \<notin> set CONTENT_METHODS"
  by (simp_all add: METHODS_def connection_METHODS_def spec_method_def CONTENT_METHODS_def sig_defs)

lemma close_interrupts:
  assumes up: "conn_up w" "conn_ref (objects w r)" "r \<noteq> 0" and ids: "ids_ok w" and clean: "clean_close (transport (fw w))"
    and d: "method_frame 0 Connection_CloseOk [] [] = Inr d" "int (length d) \<le> frame_max (fw w) - 8"
    and out: "encode_frames [(1, 0, p)] = Inr out" "unread (transport (fw w)) = out @ rest"
    and p: "unpack_sig p = Inr Connection_Close"
    and args: "loads ''BsBB'' p 4 = Inr ([VInt code, VStr text, VInt c, VInt m], k)" and n: "0 < n"
  obtains w' where "wait (drainer n E) r ms cb None tuple w
      = (Inl (Amqp (error_for_code code text (c, m) ConnectionError)), w')"
    and "channels w' = None" and "\<not> has_transport w'" and "\<forall>q. \<not> conn_ref (objects w' q)"
proof -
  let ?w1 = "waiting r ms cb w" and ?err = "Amqp (error_for_code code text (c, m) ConnectionError)"
  let ?args = "[AV (VInt code), AV (VStr text), AV (VInt c), AV (VInt m)]"
  have w1: "conn_up ?w1" "unread (transport (fw ?w1)) = out @ rest"
    using up out(2) by (simp_all add: conn_up_def channel_up_def waiting_def upd_obj_def)
  have ls: "connection_listener E dr Connection_Close = Some (\<lambda>args. case args of
        [AV (VInt code), AV (VStr text), AV (VInt c), AV (VInt m)] \<Rightarrow>
          keep (connection_on_close E dr code text c m) args
      | _ \<Rightarrow> raiseA TypeError)" for dr
    by (simp add: connection_listener_def sig_defs)
  have ma: "\<not> m_content (spec_method Connection_Close (Some ''BsBB'') False)"
    "method_args (spec_method Connection_Close (Some ''BsBB'') False) p None = Inr ?args"
    using args by (simp_all add: method_args_def spec_method_def)
  obtain out' v dr t h where v: "conn_up v" "v = ?w1\<lparr>fw := (fw ?w1)\<lparr>transport := t\<rparr>, fh := h\<rparr>"
      "clean_close t = clean_close (transport (fw ?w1))"
    and run: "drain_events n E None ?w1 = (case (case ?args of
        [AV (VInt code), AV (VStr text), AV (VInt c), AV (VInt m)] \<Rightarrow>
          keep (connection_on_close E dr code text c m) ?args
      | _ \<Rightarrow> raiseA TypeError) v of (Inl e, w') \<Rightarrow> (Inl e, w') | (Inr _, w') \<Rightarrow> (Inr (), w'))"
    by (rule serve [OF w1(1) out(1) w1(2) p close_method(2,1) ma ls n]) (rule that)
  have live: "conn_ref (objects v 0)" "has_frame_writer v" "channel_id (objects v 0) = Some 0" "writable (transport (fw v))"
    using v(1) by (simp_all add: conn_up_def channel_up_def)
  have fit: "int (length d) \<le> frame_max (fw v) - 8" using d(2) by (simp add: v(2))
  obtain f where f: "sent_on (fw v) d f"
    "\<And>cb. send_method E dr 0 Connection_CloseOk [] [] None cb v = cb (v\<lparr>fw := f\<rparr>)"
    by (rule send_bare [OF live d(1) fit, of E dr]) (rule that)
  let ?w2 = "v\<lparr>fw := f\<rparr>"
  have sent: "send_method E dr 0 Connection_CloseOk [] [] None (retA ()) v = (Inr (), ?w2)" by (simp add: f(2))
  have socket: "\<And>s. sock (transport (fw ?w2)) = Some s \<Longrightarrow> only_OSErrors s"
    using clean v(2,3) f(1) by (simp add: sent_on_def clean_close_def)
  have ok: "ids_ok ?w2"
    by (rule ids_ok_cong [OF ids]) (auto simp: v(2) live_def waiting_def upd_obj_def split: if_splits)
  obtain q w3 where q: "connection_on_close E dr code text c m v = (q, w3)"
    by (cases "connection_on_close E dr code text c m v")
  note closed = server_close [OF sent socket ok q]
  have drain: "drain_events n E None ?w1 = (Inl ?err, w3)"
    using run q closed by (simp add: keep_def bindA_def)
  obtain g where g: "wait (drainer n E) r ms cb None tuple w
    = (Inl ?err, upd_obj r (\<lambda>c. c\<lparr>pending := g (pending c)\<rparr>) w3)"
    by (rule wait_first_turn [OF drain n up(2), of "Inl ?err" tuple]) (simp, rule that)
  show thesis by (rule that [OF g]) (use closed in \<open>simp_all add: upd_obj_def\<close>)
qed

end
