(* ===== verification/Deliveries.thy ===== *)
theory Deliveries
  imports Calls Framing_Roundtrip
begin

text \<open>
  Contents from the wire to the application: what the event loop does with the frames of a
  content, and how a delivery gets from the socket to the callback of its consumer.
\<close>

section \<open>Arguments\<close>

lemma encode_frames_length: "encode_frames fs = Inr out \<Longrightarrow> length fs \<le> length out"
proof (induction fs arbitrary: out)
  case (Cons f fs)
  then show ?case by (cases f) (force simp: bindE_eq_Inr dest: pack_frame_length)
qed simp

lemma unpack_sig_length: "unpack_sig p = Inr sig \<Longrightarrow> 4 \<le> length p"
  by (auto simp: unpack_sig_def sunpack_u_def bindE_eq_Inr dest: unpack_u_bound)

text \<open>The arguments of a method as its handler gets them.\<close>

lemma loads_arguments:
  assumes "dumps fmt vals = Inr a" and "fmt_ok False fmt" and "length fmt = length vals"
    and "args_readable fmt vals" and "unpack_sig p = Inr sig" and "drop 4 p = a"
  shows "loads fmt p 4 = Inr (args_canon fmt vals, length p)"
  using loads_dumps [OF assms(1-4), of "take 4 p" "[]"] unpack_sig_length [OF assms(5)] assms(6)
  by (metis append_Nil2 append_take_drop_id length_append length_take min_absorb2)

lemma deliver_arguments:
  assumes "dumps ''sLbss'' [VStr tag, VInt dtag, VBool red, VStr ex, VStr rk] = Inr a"
    and "valid_str tag" and "valid_str ex" and "valid_str rk"
    and "unpack_sig p = Inr sig" and "drop 4 p = a"
  shows "loads ''sLbss'' p 4 = Inr ([VStr tag, VInt dtag, VBool red, VStr ex, VStr rk], length p)"
proof -
  have "fmt_ok False ''sLbss''" by code_simp
  moreover have "args_readable ''sLbss'' [VStr tag, VInt dtag, VBool red, VStr ex, VStr rk]"
    "args_canon ''sLbss'' [VStr tag, VInt dtag, VBool red, VStr ex, VStr rk]
      = [VStr tag, VInt dtag, VBool red, VStr ex, VStr rk]"
    using assms(2-4)
    by (simp_all add: args_readable_def arg_readable_def args_canon_def arg_canon_def py_or_def valid_str_def)
  ultimately show ?thesis using loads_arguments [OF assms(1) _ _ _ assms(5,6)] by simp
qed

section \<open>Contents\<close>

text \<open>A content another writer sent is dispatched once its last frame is read.\<close>

lemma content_drained:
  assumes up: "has_transport w" "has_inbound w" "steady_transport (transport (fw w))" "expected_types (fh w) ch = 1"
    and written: "write_frame cdc write_bytes 1 ch (Some sig) (VBytes a) (Some msg) s = (Inr (), s', m')"
    and parts: "content_parts cdc msg = (Inr (bdy, pb), msg')" and ne: "bdy \<noteq> []"
    and sig: "sig \<in> set CONTENT_METHODS" and rd: "props_readable (properties msg') PROPERTIES"
    and fmax: "8 < frame_max s"
    and wire: "sent_bytes (transport s) @ unread (transport (fw w)) = sent_bytes (transport s') @ rest"
    and n: "length (unread (transport (fw w))) < n"
  obtains m t h mb got where "drain_events n E None w
      = on_inbound_method E (m, drain_events m E) (ch, sig, mb, Some got)
          (w\<lparr>fw := (fw w)\<lparr>transport := t\<rparr>, fh := h\<rparr>)"
    and "unread t = rest" and "steady_transport t" and "same_sender (transport (fw w)) t"
    and "unpack_sig mb = Inr sig" and "drop 4 mb = a"
    and "body got = VBytes bdy" and "properties got = canon_props (properties msg') PROPERTIES"
    and "expected_types h ch = 1"
proof -
  have pb: "serialize_properties msg' = Inr pb"
    using parts by (auto simp: content_parts_def elim!: bindA_cases)
  obtain fs out where fs: "frame_list 1 ch (Some sig) (VBytes a) (Some (bdy, pb)) (frame_max s - 8) = Inr fs"
    "encode_frames fs = Inr out" "sent_bytes (transport s') = sent_bytes (transport s) @ out"
    using tx.write_frame_content [OF written _ ne, of pb] parts by (auto simp: str_to_bytes_def)
  have u: "unread (transport (fw w)) = out @ rest" using wire fs(3) by simp
  have chunk: "0 < frame_max s - 8" using fmax by simp
  obtain got mb where run: "fst (run_frames fs (fh w))
      = replicate (length fs - 1) (Inr None) @ [Inr (Some (ch, sig, mb, Some got))]"
    and got: "unpack_sig mb = Inr sig" "drop 4 mb = a" "body got = VBytes bdy"
      "properties got = canon_props (properties msg') PROPERTIES"
      "expected_types (snd (run_frames fs (fh w))) ch = 1"
    using content_frames_delivered [OF fs(1) sig pb rd up(4) chunk ne] by blast
  have 1: "run_frames fs (fh w) = (replicate (length fs - 1) (Inr None)
      @ [Inr (Some (ch, sig, mb, Some got))], snd (run_frames fs (fh w)))"
    using run by (metis prod.collapse)
  have 2: "length fs - 1 < n" using encode_frames_length [OF fs(2)] n u by simp
  show thesis
    by (rule drain_frames [OF up(1-3) fs(2) u 1 2, of E]) (rule that [OF _ _ _ _ got])
qed

text \<open>From the socket to the callback of the consumer.\<close>

lemma delivery_drained:
  assumes up: "channel_up w r ch" "steady_transport (transport (fw w))" "r \<noteq> 0"
    and plain: "\<not> auto_decode (objects w r)" "map_of (pending (objects w r)) Basic_Deliver = None"
    and consumer: "map_of (callbacks (objects w r)) tag = Some (Some cb)"
    and args: "dumps ''sLbss'' [VStr tag, VInt dtag, VBool red, VStr ex, VStr rk] = Inr a"
      "valid_str tag" "valid_str ex" "valid_str rk"
    and written: "write_frame cdc write_bytes 1 ch (Some Basic_Deliver) (VBytes a) (Some msg) s = (Inr (), s', m')"
    and parts: "content_parts cdc msg = (Inr (bdy, pb), msg')" and ne: "bdy \<noteq> []"
    and rd: "props_readable (properties msg') PROPERTIES" and fmax: "8 < frame_max s"
    and wire: "sent_bytes (transport s) @ unread (transport (fw w)) = sent_bytes (transport s') @ rest"
    and n: "length (unread (transport (fw w))) < n"
  shows "\<exists>w1 got. drain_events n E None w = app E cb [AM (Some got)] w1
    \<and> log w1 = log w @ [(cb, [AM (Some got)])] \<and> objects w1 = objects w
    \<and> unread (transport (fw w1)) = rest
    \<and> body got = VBytes bdy \<and> properties got = canon_props (properties msg') PROPERTIES
    \<and> channel got = Some r
    \<and> delivery_info got = Some [(''consumer_tag'', VStr tag), (''delivery_tag'', VInt dtag),
        (''redelivered'', VBool red), (''exchange'', VStr ex), (''routing_key'', VStr rk)]"
proof -
  have cu: "has_transport w" "has_inbound w" "expected_types (fh w) ch = 1" "\<not> is_closing (objects w r)"
    using up(1) by (simp_all add: channel_up_def)
  obtain tbl where tbl: "channels w = Some tbl" "map_of tbl ch = Some r"
    using up(1) by (auto simp: channel_up_def)
  have sig: "Basic_Deliver \<in> set CONTENT_METHODS" by (simp add: CONTENT_METHODS_def)
  obtain m t h mb m0 where d: "drain_events n E None w
      = on_inbound_method E (m, drain_events m E) (ch, Basic_Deliver, mb, Some m0)
          (w\<lparr>fw := (fw w)\<lparr>transport := t\<rparr>, fh := h\<rparr>)"
    and t: "unread t = rest" and mb: "unpack_sig mb = Inr Basic_Deliver" "drop 4 mb = a"
    and m0: "body m0 = VBytes bdy" "properties m0 = canon_props (properties msg') PROPERTIES"
    by (rule content_drained [OF cu(1,2) up(2) cu(3) written parts ne sig rd fmax wire n, of E]) (rule that)
  let ?w = "w\<lparr>fw := (fw w)\<lparr>transport := t\<rparr>, fh := h\<rparr>"
  let ?got = "deliver_info [(''consumer_tag'', VStr tag), (''delivery_tag'', VInt dtag),
        (''redelivered'', VBool red), (''exchange'', VStr ex), (''routing_key'', VStr rk)] r m0"
  have "dispatch_method E (listener E (m, drain_events m E)) r Basic_Deliver mb (Some m0) ?w
    = app E cb [AM (Some ?got)] (?w\<lparr>log := log ?w @ [(cb, [AM (Some ?got)])]\<rparr>)"
    by (rule deliver_to_consumer)
      (use plain cu(4) up(3) consumer deliver_arguments [OF args mb] in simp_all)
  then have "drain_events n E None w = app E cb [AM (Some ?got)] (?w\<lparr>log := log ?w @ [(cb, [AM (Some ?got)])]\<rparr>)"
    using tbl by (simp add: d on_inbound_method_def)
  then show ?thesis
    using t m0 by (intro exI [of _ "?w\<lparr>log := log ?w @ [(cb, [AM (Some ?got)])]\<rparr>"] exI [of _ ?got])
      (simp add: deliver_info_def)
qed

section \<open>Calls whose answer has a content\<close>

text \<open>A call that waits for a content gets it, with the arguments of its method.\<close>

lemma wait_content:
  assumes up: "channel_up w r ch" "steady_transport (transport (fw w))" "\<not> auto_decode (objects w r)"
    and written: "write_frame cdc write_bytes 1 ch (Some sig) (VBytes a) (Some msg) s = (Inr (), s', m')"
    and parts: "content_parts cdc msg = (Inr (bdy, pb), msg')" and ne: "bdy \<noteq> []"
    and sig: "sig \<in> set ms" "sig \<in> set CONTENT_METHODS" and rd: "props_readable (properties msg') PROPERTIES"
    and fmax: "8 < frame_max s"
    and wire: "sent_bytes (transport s) @ unread (transport (fw w)) = sent_bytes (transport s') @ rest"
    and n: "length (unread (transport (fw w))) < n"
    and m: "METHODS r sig = Some (spec_method sig (Some fmt) True)" "\<And>dr. listener E dr r sig = None"
    and args: "\<And>p. unpack_sig p = Inr sig \<Longrightarrow> drop 4 p = a \<Longrightarrow> loads fmt p 4 = Inr (vs, length p)"
  obtains w' got where "wait (drainer n E) r ms No_callback None tuple w
      = (Inr (shape_result tuple (map AV vs @ [AM (Some got)])), w')"
    and "body got = VBytes bdy" and "properties got = canon_props (properties msg') PROPERTIES"
    and "unread (transport (fw w')) = rest" and "same_sender (transport (fw w)) (transport (fw w'))"
    and "call_done r ms w w'"
proof -
  let ?w1 = "waiting r ms No_callback w"
  have 1: "has_transport ?w1" "has_inbound ?w1" "steady_transport (transport (fw ?w1))" "expected_types (fh ?w1) ch = 1"
    "sent_bytes (transport s) @ unread (transport (fw ?w1)) = sent_bytes (transport s') @ rest"
    "length (unread (transport (fw ?w1))) < n"
    using up wire n by (simp_all add: channel_up_def)
  obtain k t h mb got where d: "drain_events n E None ?w1
      = on_inbound_method E (k, drain_events k E) (ch, sig, mb, Some got)
          (?w1\<lparr>fw := (fw ?w1)\<lparr>transport := t\<rparr>, fh := h\<rparr>)"
    and t: "unread t = rest" "same_sender (transport (fw ?w1)) t" and mb: "unpack_sig mb = Inr sig" "drop 4 mb = a"
    and got: "body got = VBytes bdy" "properties got = canon_props (properties msg') PROPERTIES"
    by (rule content_drained [OF 1(1-4) written parts ne sig(2) rd fmax 1(5,6), of E]) (rule that)
  obtain tbl where "channels w = Some tbl" "map_of tbl ch = Some r" using up(1) by (auto simp: channel_up_def)
  then have run: "drain_events n E None ?w1 = dispatch_method E (listener E (k, drain_events k E)) r sig mb (Some got)
      (?w1\<lparr>fw := (fw w)\<lparr>transport := t\<rparr>, fh := h\<rparr>)"
    by (simp add: d on_inbound_method_def)
  have 2: "conn_ref (objects w r)" "\<not> is_closing (objects w r)" "0 < n"
    "m_content (spec_method sig (Some fmt) True) \<longrightarrow> \<not> auto_decode (objects w r)"
    "method_args (spec_method sig (Some fmt) True) mb (Some got) = Inr (map AV vs @ [AM (Some got)])"
    using up n args [OF mb] by (simp_all add: channel_up_def method_args_def spec_method_def)
  obtain w' where w': "wait (drainer n E) r ms No_callback None tuple w
      = (Inr (shape_result tuple (map AV vs @ [AM (Some got)])), w')"
    "fw w' = (fw w)\<lparr>transport := t\<rparr>" "call_done r ms w w'"
    by (rule wait_settled [OF run 2(1,2) sig(1) 2(3) m(1) 2(4,5) m(2), where tuple = tuple])
      (rule that; (assumption | simp))
  show thesis by (rule that [OF w'(1) got _ _ w'(3)]) (use w' t in simp_all)
qed

lemma get_arguments:
  assumes "dumps ''Lbssl'' [VInt dtag, VBool red, VStr ex, VStr rk, VInt count] = Inr a"
    and "valid_str ex" and "valid_str rk" and "unpack_sig p = Inr sig" and "drop 4 p = a"
  shows "loads ''Lbssl'' p 4 = Inr ([VInt dtag, VBool red, VStr ex, VStr rk, VInt count], length p)"
proof -
  have "fmt_ok False ''Lbssl''" by code_simp
  moreover have "args_readable ''Lbssl'' [VInt dtag, VBool red, VStr ex, VStr rk, VInt count]"
    "args_canon ''Lbssl'' [VInt dtag, VBool red, VStr ex, VStr rk, VInt count]
      = [VInt dtag, VBool red, VStr ex, VStr rk, VInt count]"
    using assms(2,3)
    by (simp_all add: args_readable_def arg_readable_def args_canon_def arg_canon_def py_or_def valid_str_def)
  ultimately show ?thesis using loads_arguments [OF assms(1) _ _ _ assms(4,5)] by simp
qed

lemma get_answered:
  assumes up: "channel_up w r ch" "has_frame_writer w" "channel_id (objects w r) = Some ch"
      "steady_transport (transport (fw w))" "writable (transport (fw w))" "r \<noteq> 0" "\<not> auto_decode (objects w r)"
    and d: "method_frame ch Basic_Get ''Bsb'' [VInt 0, queue, no_ack] = Inr d" "int (length d) \<le> frame_max (fw w) - 8"
    and args: "dumps ''Lbssl'' [VInt dtag, VBool red, VStr ex, VStr rk, VInt count] = Inr a"
      "valid_str ex" "valid_str rk"
    and written: "write_frame cdc write_bytes 1 ch (Some Basic_GetOk) (VBytes a) (Some msg) s = (Inr (), s', m')"
    and parts: "content_parts cdc msg = (Inr (bdy, pb), msg')" and ne: "bdy \<noteq> []"
    and rd: "props_readable (properties msg') PROPERTIES" and fmax: "8 < frame_max s"
    and wire: "sent_bytes (transport s) @ unread (transport (fw w)) = sent_bytes (transport s') @ rest"
    and n: "length (unread (transport (fw w))) < n"
  shows "\<exists>w1 got. basic_get E (drainer n E) r queue no_ack w = (Inr (ROne (AM (Some got))), w1)
    \<and> body got = VBytes bdy \<and> properties got = canon_props (properties msg') PROPERTIES \<and> channel got = Some r
    \<and> delivery_info got = Some [(''delivery_tag'', VInt dtag), (''redelivered'', VBool red),
        (''exchange'', VStr ex), (''routing_key'', VStr rk), (''message_count'', VInt count)]
    \<and> sent_bytes (transport (fw w1)) = sent_bytes (transport (fw w)) @ d
    \<and> unread (transport (fw w1)) = rest \<and> call_done r [Basic_GetOk, Basic_GetEmpty] w w1"
proof -
  have live: "conn_ref (objects w r)" using up(1) by (simp add: channel_up_def)
  obtain f where f: "sent_on (fw w) d f"
    "\<And>cb. send_method E (drainer n E) r Basic_Get ''Bsb'' [VInt 0, queue, no_ack] None cb w = cb (w\<lparr>fw := f\<rparr>)"
    by (rule send_framed [OF live up(2,3,5) d, of E "drainer n E"]) (simp, rule that)
  let ?w = "w\<lparr>fw := f\<rparr>"
  have 1: "channel_up ?w r ch" "steady_transport (transport (fw ?w))" "\<not> auto_decode (objects ?w r)"
    "sent_bytes (transport s) @ unread (transport (fw ?w)) = sent_bytes (transport s') @ rest"
    "length (unread (transport (fw ?w))) < n"
    using up f(1) wire n by (simp_all add: sent_on_def channel_up_def)
  have sig: "Basic_GetOk \<in> set [Basic_GetOk, Basic_GetEmpty]" "Basic_GetOk \<in> set CONTENT_METHODS"
    by (simp_all add: CONTENT_METHODS_def)
  have m: "METHODS r Basic_GetOk = Some (spec_method Basic_GetOk (Some ''Lbssl'') True)"
    "listener E dr r Basic_GetOk = None" for dr
    using up(6) by (simp_all add: METHODS_def channel_METHODS_def spec_method_def listener_def channel_listener_def sig_defs)
  obtain w1 got where w1: "wait (drainer n E) r [Basic_GetOk, Basic_GetEmpty] No_callback None True ?w
      = (Inr (shape_result True (map AV [VInt dtag, VBool red, VStr ex, VStr rk, VInt count] @ [AM (Some got)])), w1)"
    and got: "body got = VBytes bdy" "properties got = canon_props (properties msg') PROPERTIES"
    and u: "unread (transport (fw w1)) = rest" "same_sender (transport (fw ?w)) (transport (fw w1))"
      "call_done r [Basic_GetOk, Basic_GetEmpty] ?w w1"
    by (rule wait_content [OF 1(1-3) written parts ne sig rd fmax 1(4,5) m, where tuple = True
        and vs = "[VInt dtag, VBool red, VStr ex, VStr rk, VInt count]"])
      ((rule get_arguments [OF args]; assumption), rule that)
  let ?got = "deliver_info [(''delivery_tag'', VInt dtag), (''redelivered'', VBool red),
        (''exchange'', VStr ex), (''routing_key'', VStr rk), (''message_count'', VInt count)] r got"
  have "basic_get E (drainer n E) r queue no_ack w = (Inr (ROne (AM (Some ?got))), w1)"
    using w1 by (simp add: basic_get_def send_wait_def bindA_def f(2) shape_result_def)
  moreover have "call_done r [Basic_GetOk, Basic_GetEmpty] w w1" using u(3) by (simp add: call_done_def)
  ultimately show ?thesis
    using got u f(1) by (intro exI [of _ w1] exI [of _ ?got]) (simp add: deliver_info_def same_sender_def sent_on_def)
qed

section \<open>A new consumer\<close>

text \<open>Consuming registers the callback under the tag the server gave.\<close>

lemma consume_answered:
  assumes up: "channel_up w r ch" "has_frame_writer w" "channel_id (objects w r) = Some ch"
      "steady_transport (transport (fw w))" "writable (transport (fw w))" "r \<noteq> 0"
    and d: "method_frame ch Basic_Consume ''BssbbbbF''
        [VInt 0, queue, VStr ctag, no_local, no_ack, exclusive, VBool False, arguments] = Inr d"
      "int (length d) \<le> frame_max (fw w) - 8"
    and out: "encode_frames (hbs @ [(1, ch, p)]) = Inr out" "unread (transport (fw w)) = out @ rest"
    and hb: "\<forall>(ft, _, _) \<in> set hbs. ft = 8"
    and p: "unpack_sig p = Inr Basic_ConsumeOk" "loads ''s'' p 4 = Inr ([VStr tag], k)" and n: "length hbs < n"
  obtains w' where "basic_consume E (drainer n E) r queue ctag no_local no_ack exclusive (VBool False) callback arguments
      on_cancel w = (Inr (ROne (AV (VStr tag))), w')"
    and "sent_bytes (transport (fw w')) = sent_bytes (transport (fw w)) @ d"
    and "unread (transport (fw w')) = rest" and "steady_transport (transport (fw w'))"
    and "channel_up w' r ch" and "log w' = log w" and "map_of (callbacks (objects w' r)) tag = Some callback"
    and "auto_decode (objects w' r) = auto_decode (objects w r)"
    and "map_of (pending (objects w' r)) Basic_Deliver = map_of (pending (objects w r)) Basic_Deliver"
proof -
  have m: "METHODS r Basic_ConsumeOk = Some (spec_method Basic_ConsumeOk (Some ''s'') False)"
    "listener E dr r Basic_ConsumeOk = None" for dr
    using up(6) by (simp_all add: METHODS_def channel_METHODS_def spec_method_def listener_def channel_listener_def sig_defs)
  have sig: "Basic_ConsumeOk \<notin> set CONTENT_METHODS" by (simp add: CONTENT_METHODS_def sig_defs)
  have ma: "\<not> m_content (spec_method Basic_ConsumeOk (Some ''s'') False)"
    "method_args (spec_method Basic_ConsumeOk (Some ''s'') False) p None = Inr [AV (VStr tag)]"
    using p(2) by (simp_all add: method_args_def spec_method_def)
  have ne: "''BssbbbbF'' \<noteq> []" by simp
  obtain v where v: "send_wait E (drainer n E) r Basic_Consume ''BssbbbbF''
        [VInt 0, queue, VStr ctag, no_local, no_ack, exclusive, VBool False, arguments] None [Basic_ConsumeOk] True w
      = (Inr (shape_result True [AV (VStr tag)]), v)"
    "sent_bytes (transport (fw v)) = sent_bytes (transport (fw w)) @ d" "unread (transport (fw v)) = rest"
    "steady_transport (transport (fw v))" "channel_up v r ch" "call_done r [Basic_ConsumeOk] w v"
    by (rule call_answered [OF up(1-5) d ne out hb p(1) sig m(1) ma m(2) n, where tuple = True])
      (rule that; (assumption | simp))
  let ?reg = "\<lambda>c. c\<lparr>callbacks := AList.update tag callback (callbacks c),
      cancel_callbacks := (case on_cancel of None \<Rightarrow> cancel_callbacks c
        | Some k \<Rightarrow> AList.update tag k (cancel_callbacks c)),
      no_ack_consumers := (if truthy no_ack then List.insert tag (no_ack_consumers c) else no_ack_consumers c)\<rparr>"
  have "map_of (pending (objects v r)) Basic_Deliver = map_of (pending (objects w r)) Basic_Deliver"
    by (rule call_done_pending [OF v(6)]) (simp add: sig_defs)
  moreover have "auto_decode (objects v r) = auto_decode (objects w r)" "log v = log w"
    using v(6) unfolding call_done_def by (auto simp del: split_paired_All)
  ultimately show thesis
    by (intro that [of "upd_obj r ?reg v"])
      (use v in \<open>simp_all add: basic_consume_def bindA_def nowait_for_def shape_result_def AList.update_conv'
        channel_up_def upd_obj_def\<close>)
qed

end
