(* ===== verification/Channel_Revival.thy ===== *)
theory Channel_Revival
  imports Handshake
begin

text \<open>
  Opening a channel, and what happens when the server closes one: the client acknowledges it, opens the channel
  again under the same id, inside the handler and so inside the event loop, and raises the error.
\<close>

section \<open>Opening a channel\<close>

lemma revival_methods:
  assumes "r \<noteq> 0"
  shows "METHODS r Channel_Close = Some (spec_method Channel_Close (Some ''BsBB'') False)"
    and "METHODS r Channel_OpenOk = Some (spec_method Channel_OpenOk None False)"
    and "Channel_Close \<notin> set CONTENT_METHODS" and "Channel_OpenOk \<notin> set CONTENT_METHODS"
  using assms by (simp_all add: METHODS_def channel_METHODS_def spec_method_def CONTENT_METHODS_def sig_defs)

lemma revival_listeners:
  assumes "r \<noteq> 0"
  shows "listener E dr r Channel_OpenOk = Some (\<lambda>args. keep (channel_on_open_ok E r) args)"
    and "listener E dr r Channel_Close = Some (\<lambda>args. case args of
        [AV (VInt code), AV (VStr text), AV (VInt c), AV (VInt m)] \<Rightarrow>
          keep (channel_on_close E dr r code text c m) args
      | _ \<Rightarrow> raiseA TypeError)"
  using assms by (simp_all add: listener_def channel_listener_def sig_defs)

lemma open_answered:
  assumes up: "channel_up w r ch" "has_frame_writer w" "channel_id (objects w r) = Some ch" "r \<noteq> 0"
    "steady_transport (transport (fw w))" "writable (transport (fw w))"
    and shut: "\<not> is_open (objects w r)" "on_open (objects w r) = None"
    and d: "method_frame ch Channel_Open ''s'' [VStr []] = Inr d" "int (length d) \<le> frame_max (fw w) - 8"
    and out: "encode_frames [(1, ch, p)] = Inr out" "unread (transport (fw w)) = out @ rest"
    and p: "unpack_sig p = Inr Channel_OpenOk" and n: "0 < n"
  obtains w' x where "channel_open E (drainer n E) r w = (Inr x, w')" and "is_open (objects w' r)"
    and "sent_bytes (transport (fw w')) = sent_bytes (transport (fw w)) @ d"
    and "unread (transport (fw w')) = rest" and "channels w' = channels w"
    and "conn_ref (objects w' r)" and "channel_id (objects w' r) = Some ch"
proof -
  have live: "conn_ref (objects w r)" using up(1) by (simp add: channel_up_def)
  obtain f where f: "sent_on (fw w) d f"
    "\<And>cb. send_method E (drainer n E) r Channel_Open ''s'' [VStr []] None cb w = cb (w\<lparr>fw := f\<rparr>)"
    by (rule send_framed [OF live up(2,3,6) d _, of E "drainer n E"]) (simp, rule that)
  let ?w = "w\<lparr>fw := f\<rparr>"
  let ?w1 = "waiting r [Channel_OpenOk] No_callback ?w" and ?p = "next_waiter ?w"
  have 1: "channel_up ?w r ch" "steady_transport (transport (fw ?w))"
    and 2: "encode_frames ([] @ [(1, ch, p)]) = Inr out" "unread (transport (fw ?w)) = out @ rest"
    using up f(1) out by (simp_all add: sent_on_def channel_up_def)
  have 3: "\<forall>(ft, _, _) \<in> set ([] :: frame list). ft = 8" "length ([] :: frame list) < n" using n by simp_all
  obtain t h dr where t: "unread t = rest" "same_sender (transport (fw ?w)) t"
    and run: "drain_events n E None ?w1 = dispatch_method E (listener E dr) r Channel_OpenOk p None
      (?w1\<lparr>fw := (fw ?w)\<lparr>transport := t\<rparr>, fh := h\<rparr>)"
    by (rule wait_dispatches [OF 1 2 3(1) p revival_methods(4) [OF up(4)] 3(2)]) (rule that)
  let ?w2 = "?w1\<lparr>fw := (fw ?w)\<lparr>transport := t\<rparr>, fh := h\<rparr>"
  let ?w3 = "upd_obj r (\<lambda>c. c\<lparr>is_open := True\<rparr>) (upd_obj r (\<lambda>c. c\<lparr>pending := AList.delete Channel_OpenOk (pending c)\<rparr>) ?w2)"
  have ww: "waiters ?w1 (next_waiter w) = \<lparr>on_call = No_callback, result_args = None\<rparr>"
    by (simp add: waiting_def)
  have "dispatch_method E (listener E dr) r Channel_OpenOk p None ?w2
    = (Inr (), ?w3\<lparr>waiters := (waiters ?w3)(?p := (waiters ?w3 ?p)\<lparr>result_args := Some []\<rparr>)\<rparr>)"
    by (rule dispatch_both [where args = "[]" and args' = "[]" and f = "\<lambda>args. keep (channel_on_open_ok E r) args"
          and m = "spec_method Channel_OpenOk None False"])
      (use 1(1) shut(2) revival_methods(2) [OF up(4)] revival_listeners(1) [OF up(4)]
        in \<open>simp_all add: ww AList.update_conv' channel_up_def method_args_def spec_method_def keep_def bindA_def
          channel_on_open_ok_def call_app_opt_def upd_obj_def\<close>)
  note run = run [unfolded this]
  have live': "0 < n" "conn_ref (objects ?w r)" using n live by simp_all
  obtain g where g: "wait (drainer n E) r [Channel_OpenOk] No_callback None False ?w
    = (Inr (shape_result False []), upd_obj r (\<lambda>c. c\<lparr>pending := g (pending c)\<rparr>)
        (?w3\<lparr>waiters := (waiters ?w3)(?p := (waiters ?w3 ?p)\<lparr>result_args := Some []\<rparr>)\<rparr>))"
    by (rule wait_first_turn [OF run live', of "Inr (shape_result False [])" False]) (simp, rule that)
  have 4: "channel_open E (drainer n E) r w = (Inr (shape_result False []), upd_obj r (\<lambda>c. c\<lparr>pending := g (pending c)\<rparr>)
        (?w3\<lparr>waiters := (waiters ?w3)(?p := (waiters ?w3 ?p)\<lparr>result_args := Some []\<rparr>)\<rparr>))"
    using g f(2) shut(1) by (simp add: channel_open_def send_wait_def bindA_def)
  show thesis
    by (rule that [OF 4]) (use f(1) t up(3) live in \<open>simp_all add: sent_on_def same_sender_def\<close>)
qed

section \<open>A channel the server closes\<close>

lemma channel_closed_by_server:
  assumes up: "channel_up w r ch" "has_frame_writer w" "channel_id (objects w r) = Some ch" "r \<noteq> 0"
    "steady_transport (transport (fw w))" "writable (transport (fw w))"
    and idle: "\<not> is_closing (objects w 0)" "on_open (objects w r) = None" "map_of (pending (objects w r)) Channel_Close = None"
    and d1: "method_frame ch Channel_CloseOk [] [] = Inr d1" "int (length d1) \<le> frame_max (fw w) - 8"
    and d2: "method_frame ch Channel_Open ''s'' [VStr []] = Inr d2" "int (length d2) \<le> frame_max (fw w) - 8"
    and out: "encode_frames [(1, ch, p1), (1, ch, p2)] = Inr out" "unread (transport (fw w)) = out @ rest"
    and p: "unpack_sig p1 = Inr Channel_Close" "unpack_sig p2 = Inr Channel_OpenOk"
    and args: "loads ''BsBB'' p1 4 = Inr ([VInt code, VStr text, VInt c, VInt m], k)" and n: "2 \<le> n"
  shows "\<exists>w'. drain_events n E None w = (Inl (Amqp (error_for_code code text (c, m) ChannelError)), w')
    \<and> is_open (objects w' r) \<and> conn_ref (objects w' r) \<and> channel_id (objects w' r) = Some ch
    \<and> channels w' = channels w
    \<and> sent_bytes (transport (fw w')) = sent_bytes (transport (fw w)) @ d1 @ d2
    \<and> unread (transport (fw w')) = rest"
proof -
  have cu: "has_transport w" "has_inbound w" "expected_types (fh w) ch = 1" "\<not> is_closing (objects w r)" "conn_ref (objects w r)"
    using up(1) by (simp_all add: channel_up_def)
  obtain tbl where tbl: "channels w = Some tbl" "map_of tbl ch = Some r" using up(1) by (auto simp: channel_up_def)
  obtain o1 o2 where o: "encode_frames ([] @ [(1, ch, p1)]) = Inr o1" "encode_frames [(1, ch, p2)] = Inr o2" "out = o1 @ o2"
    using out(1) by (auto simp: bindE_eq_Inr)
  have u: "unread (transport (fw w)) = o1 @ o2 @ rest" using out(2) o(3) by simp
  have hb: "\<forall>(ft, _, _) \<in> set ([] :: frame list). ft = 8" and len: "length ([] :: frame list) < n" using n by simp_all
  obtain i t h where t: "steady_transport t" "unread t = o2 @ rest" "same_sender (transport (fw w)) t"
    and run: "drain_events n E None w = on_inbound_method E (i, drain_events i E) (ch, Channel_Close, p1, None)
      (w\<lparr>fw := (fw w)\<lparr>transport := t\<rparr>, fh := h\<rparr>)"
    and h: "h = (fh w)\<lparr>bytes_recv := bytes_recv (fh w) + length ([] :: frame list) + 1\<rparr>"
    and i: "n = Suc (length ([] :: frame list) + i)"
    by (rule drain_method [OF cu(1,2) up(5) o(1) u hb cu(3) p(1) revival_methods(3) [OF up(4)] len, of E]) (rule that)
  let ?w = "w\<lparr>fw := (fw w)\<lparr>transport := t\<rparr>, fh := h\<rparr>" and ?dr = "drainer i E"
  have wr: "writable (transport (fw ?w))" using up(6) t(3) by (simp add: writable_def same_sender_def)
  obtain f where f: "sent_on (fw ?w) d1 f"
    "\<And>cb. send_method E ?dr r Channel_CloseOk [] [] None cb ?w = cb (?w\<lparr>fw := f\<rparr>)"
    by (rule send_bare [OF _ _ _ wr d1(1), where E = E and dr = ?dr and r = r])
      (use cu up d1(2) in simp, use up(2) in simp, use up(3) in simp, use d1(2) in simp, rule that)
  let ?w1 = "upd_obj r (\<lambda>c. c\<lparr>is_open := False\<rparr>) (?w\<lparr>fw := f\<rparr>)"
  have w1: "channel_up ?w1 r ch" "has_frame_writer ?w1" "channel_id (objects ?w1 r) = Some ch"
    "steady_transport (transport (fw ?w1))" "writable (transport (fw ?w1))" "\<not> is_open (objects ?w1 r)"
    "on_open (objects ?w1 r) = None" "int (length d2) \<le> frame_max (fw ?w1) - 8"
    "unread (transport (fw ?w1)) = o2 @ rest"
    using up idle f(1) t d2(2) h by (simp_all add: channel_up_def sent_on_def upd_obj_def)
  have i0: "0 < i" using i n by simp
  obtain w' x where w': "channel_open E ?dr r ?w1 = (Inr x, w')" "is_open (objects w' r)"
    "sent_bytes (transport (fw w')) = sent_bytes (transport (fw ?w1)) @ d2" "unread (transport (fw w')) = rest"
    "channels w' = channels ?w1" "conn_ref (objects w' r)" "channel_id (objects w' r) = Some ch"
    by (rule open_answered [OF w1(1-3) up(4) w1(4-7) d2(1) w1(8) o(2) w1(9) p(2) i0]) (rule that)
  have "channel_on_close E ?dr r code text c m ?w
    = (Inl (Amqp (error_for_code code text (c, m) ChannelError)), w')"
    using f(2) w'(1) idle(1) cu(4) by (simp add: channel_on_close_def do_revive_def bindA_def)
  then have "dispatch_method E (listener E ?dr) r Channel_Close p1 None ?w
    = (Inl (Amqp (error_for_code code text (c, m) ChannelError)), w')"
    by (subst dispatch_listened [where ls = "listener E ?dr" and args = "[AV (VInt code), AV (VStr text), AV (VInt c), AV (VInt m)]",
          OF _ revival_methods(1) [OF up(4)] revival_listeners(2) [OF up(4)]])
      (use cu(4) idle(3) args in \<open>simp_all add: method_args_def spec_method_def keep_def bindA_def\<close>)
  then have "drain_events n E None w = (Inl (Amqp (error_for_code code text (c, m) ChannelError)), w')"
    using tbl run by (simp add: on_inbound_method_def drainer_def)
  then show ?thesis using w' f(1) t(3) by (simp add: sent_on_def same_sender_def)
qed

section \<open>A new channel\<close>

lemma first_free_is:
  assumes "1 \<le> i" and "i \<le> n" and "i \<notin> set used" and "\<forall>j. 1 \<le> j \<and> j < i \<longrightarrow> j \<in> set used"
  shows "first_free used [1..n] = Some i"
  using assms by (simp add: first_free_upto)

lemma channel_opened:
  assumes up: "conn_up w" and ids: "ids_ok w" "channel_max w \<le> 65535"
    and i: "1 \<le> i" "i \<le> channel_max w" "i \<notin> set (used_channel_ids w)"
      "\<forall>j. 1 \<le> j \<and> j < i \<longrightarrow> j \<in> set (used_channel_ids w)" "expected_types (fh w) i = 1"
    and d: "method_frame i Channel_Open ''s'' [VStr []] = Inr d" "int (length d) \<le> frame_max (fw w) - 8"
    and out: "encode_frames [(1, i, p)] = Inr out" "unread (transport (fw w)) = out @ rest"
    and p: "unpack_sig p = Inr Channel_OpenOk" and n: "0 < n"
  shows "\<exists>w' tbl. connection_channel E (drainer n E) None None w = (Inr (RRef (next_ref w)), w')
    \<and> is_open (objects w' (next_ref w)) \<and> conn_ref (objects w' (next_ref w))
    \<and> channel_id (objects w' (next_ref w)) = Some i
    \<and> channels w' = Some tbl \<and> map_of tbl i = Some (next_ref w)
    \<and> sent_bytes (transport (fw w')) = sent_bytes (transport (fw w)) @ d
    \<and> unread (transport (fw w')) = rest"
proof -
  let ?r = "next_ref w"
  obtain tbl where tbl: "channels w = Some tbl" "map_of tbl 0 = Some 0"
    using up by (auto simp: conn_up_def channel_up_def)
  let ?w1 = "w\<lparr>used_channel_ids := used_channel_ids w @ [i], objects := (objects w)(?r := fresh_chan E w i True None),
      next_ref := ?r + 1, channels := Some (AList.update i ?r tbl)\<rparr>"
  have "get_free_channel_id w = (Inr i, w\<lparr>used_channel_ids := used_channel_ids w @ [i]\<rparr>)"
    using first_free_is [OF i(1-4)] i(1,2) ids(2) by (simp add: get_free_channel_id_def append_id_def)
  then have init: "channel_init E None True None w = (Inr ?r, ?w1)"
    using tbl by (simp add: channel_init_def bindA_def fresh_chan_def)
  have r: "?r \<noteq> 0" using ids(1) by (simp add: ids_ok_def)
  have w1: "channel_up ?w1 ?r i" "has_frame_writer ?w1" "channel_id (objects ?w1 ?r) = Some i"
    "steady_transport (transport (fw ?w1))" "writable (transport (fw ?w1))" "\<not> is_open (objects ?w1 ?r)"
    "on_open (objects ?w1 ?r) = None" "int (length d) \<le> frame_max (fw ?w1) - 8"
    "unread (transport (fw ?w1)) = out @ rest"
    using up i(5) d(2) out(2)
    by (simp_all add: conn_up_def channel_up_def fresh_chan_def AList.update_conv')
  obtain w' x where w': "channel_open E (drainer n E) ?r ?w1 = (Inr x, w')" "is_open (objects w' ?r)"
    "sent_bytes (transport (fw w')) = sent_bytes (transport (fw ?w1)) @ d" "unread (transport (fw w')) = rest"
    "channels w' = channels ?w1" "conn_ref (objects w' ?r)" "channel_id (objects w' ?r) = Some i"
    by (rule open_answered [OF w1(1-3) r w1(4-7) d(1) w1(8) out(1) w1(9) p n]) (rule that)
  have "connection_channel E (drainer n E) None None w = (Inr (RRef ?r), w')"
    using tbl(1) init w'(1) by (simp add: connection_channel_def bindA_def)
  then show ?thesis using w' by (simp add: AList.update_conv')
qed

end
