(* ===== verification/Flow_Control.thy ===== *)
theory Flow_Control
  imports Calls
begin

text \<open>The server asks a channel to stop or to resume sending contents.\<close>

lemma flow_methods:
  assumes "r \<noteq> 0"
  shows "METHODS r Channel_Flow = Some (spec_method Channel_Flow (Some ''b'') False)"
    and "Channel_Flow \<notin> set CONTENT_METHODS"
    and "listener E dr r Channel_Flow = Some (\<lambda>args. case args of
        [AV a] \<Rightarrow> keep (channel_on_flow E dr r a) args | _ \<Rightarrow> raiseA TypeError)"
  using assms
  by (simp_all add: METHODS_def channel_METHODS_def spec_method_def CONTENT_METHODS_def listener_def
      channel_listener_def sig_defs)

text \<open>The request is noted on the channel and answered.\<close>

lemma flow_requested:
  assumes up: "channel_up w r ch" "has_frame_writer w" "channel_id (objects w r) = Some ch" "r \<noteq> 0"
      "steady_transport (transport (fw w))" "writable (transport (fw w))"
    and idle: "map_of (pending (objects w r)) Channel_Flow = None"
    and d: "method_frame ch Channel_FlowOk ''b'' [VBool act] = Inr d" "int (length d) \<le> frame_max (fw w) - 8"
    and out: "encode_frames (hbs @ [(1, ch, p)]) = Inr out" "unread (transport (fw w)) = out @ rest"
    and hb: "\<forall>(ft, _, _) \<in> set hbs. ft = 8"
    and p: "unpack_sig p = Inr Channel_Flow" "loads ''b'' p 4 = Inr ([VBool act], k)" and n: "length hbs < n"
  obtains f h where "drain_events n E None w = (Inr (),
      w\<lparr>objects := (objects w)(r := (objects w r)\<lparr>active := VBool act\<rparr>), fw := f, fh := h\<rparr>)"
    and "sent_bytes (transport f) = sent_bytes (transport (fw w)) @ d" and "unread (transport f) = rest"
    and "frame_max f = frame_max (fw w)" and "writable (transport f)"
proof -
  have cu: "has_transport w" "has_inbound w" "expected_types (fh w) ch = 1" "\<not> is_closing (objects w r)" "conn_ref (objects w r)"
    using up(1) by (simp_all add: channel_up_def)
  obtain tbl where tbl: "channels w = Some tbl" "map_of tbl ch = Some r" using up(1) by (auto simp: channel_up_def)
  obtain i t h where t: "unread t = rest" "same_sender (transport (fw w)) t"
    and run: "drain_events n E None w = on_inbound_method E (i, drain_events i E) (ch, Channel_Flow, p, None)
      (w\<lparr>fw := (fw w)\<lparr>transport := t\<rparr>, fh := h\<rparr>)"
    by (rule drain_method [OF cu(1,2) up(5) out hb cu(3) p(1) flow_methods(2) [OF up(4)] n, of E]) (rule that)
  let ?dr = "(i, drain_events i E)" and ?w = "w\<lparr>fw := (fw w)\<lparr>transport := t\<rparr>, fh := h\<rparr>"
  let ?w1 = "upd_obj r (\<lambda>c. c\<lparr>active := VBool act\<rparr>) ?w"
  have w1: "conn_ref (objects ?w1 r)" "has_frame_writer ?w1" "channel_id (objects ?w1 r) = Some ch"
    "writable (transport (fw ?w1))" "int (length d) \<le> frame_max (fw ?w1) - 8"
    using cu up t(2) d(2) by (simp_all add: upd_obj_def writable_def same_sender_def)
  obtain f where f: "sent_on (fw ?w1) d f"
    "\<And>cb. send_method E ?dr r Channel_FlowOk ''b'' [VBool act] None cb ?w1 = cb (?w1\<lparr>fw := f\<rparr>)"
    by (rule send_framed [OF w1(1-4) d(1) w1(5), of E ?dr]) (simp, rule that)
  have "dispatch_method E (listener E ?dr) r Channel_Flow p None ?w = (Inr (), ?w1\<lparr>fw := f\<rparr>)"
    by (subst dispatch_listened [where ls = "listener E ?dr" and args = "[AV (VBool act)]"
          and m = "spec_method Channel_Flow (Some ''b'') False" and f = "\<lambda>args. case args of
            [AV a] \<Rightarrow> keep (channel_on_flow E ?dr r a) args | _ \<Rightarrow> raiseA TypeError"])
      (use cu(4) idle p(2) f(2) flow_methods [OF up(4)] in \<open>simp_all add: method_args_def spec_method_def keep_def
        bindA_def channel_on_flow_def x_flow_ok_def\<close>)
  then have "drain_events n E None w = (Inr (), ?w1\<lparr>fw := f\<rparr>)"
    using run tbl by (simp add: on_inbound_method_def)
  moreover have "?w1\<lparr>fw := f\<rparr> = w\<lparr>objects := (objects w)(r := (objects w r)\<lparr>active := VBool act\<rparr>), fw := f, fh := h\<rparr>"
    by (simp add: upd_obj_def)
  ultimately show thesis
    using f(1) t by (intro that [of h f]) (simp_all add: sent_on_def same_sender_def)
qed

end
