(* ===== verification/Returned_Messages.thy ===== *)
theory Returned_Messages
  imports Deliveries
begin

text \<open>
  A message that could not be routed comes back while its publisher waits for the confirmation.
\<close>

lemma return_methods:
  assumes "r \<noteq> 0"
  shows "METHODS r Basic_Return = Some (spec_method Basic_Return (Some ''Bsss'') True)"
    and "listener E dr r Basic_Return = Some (\<lambda>args. case args of
        [AV (VInt code), AV (VStr text), AV ex, AV rk, AM msg] \<Rightarrow>
          keep (on_basic_return E r code text ex rk msg) args
      | _ \<Rightarrow> raiseA TypeError)"
  using assms
  by (simp_all add: METHODS_def channel_METHODS_def spec_method_def listener_def channel_listener_def sig_defs)

lemma return_arguments:
  assumes "dumps ''Bsss'' [VInt code, VStr text, VStr ex, VStr rk] = Inr a"
    and "valid_str text" and "valid_str ex" and "valid_str rk" and "unpack_sig p = Inr sig" and "drop 4 p = a"
  shows "loads ''Bsss'' p 4 = Inr ([VInt code, VStr text, VStr ex, VStr rk], length p)"
proof -
  have "fmt_ok False ''Bsss''" by code_simp
  moreover have "args_readable ''Bsss'' [VInt code, VStr text, VStr ex, VStr rk]"
    "args_canon ''Bsss'' [VInt code, VStr text, VStr ex, VStr rk] = [VInt code, VStr text, VStr ex, VStr rk]"
    using assms(2-4)
    by (simp_all add: args_readable_def arg_readable_def args_canon_def arg_canon_def py_or_def valid_str_def)
  ultimately show ?thesis using loads_arguments [OF assms(1) _ _ _ assms(5,6)] by simp
qed

text \<open>Without a handler the return is raised, and changes nothing.\<close>

lemma dispatch_return:
  assumes "r \<noteq> 0" and "\<not> is_closing (objects w r)" and "handlers_of r ''basic_return'' w = []"
    and "map_of (pending (objects w r)) Basic_Return = None"
    and "loads ''Bsss'' p 4 = Inr ([VInt code, VStr text, VStr ex, VStr rk], k)"
  shows "dispatch_method E (listener E dr) r Basic_Return p (Some msg) w
    = (Inl (Amqp (error_for_code code text Basic_Return ChannelError)), w)"
proof -
  have "upd_obj r (\<lambda>c. c\<lparr>pending := AList.delete Basic_Return (pending c)\<rparr>) w = w"
    using assms(4) by (simp add: upd_obj_def AList.delete_id map_of_eq_None_iff)
  then show ?thesis
    using assms(2-5) return_methods [OF assms(1)]
    by (simp add: dispatch_method_def Let_def spec_method_def run_listener_def bindA_def keep_def on_basic_return_def)
qed

text \<open>It interrupts whoever waits for something else on the channel.\<close>

lemma wait_returned:
  assumes up: "channel_up w r ch" "steady_transport (transport (fw w))" "r \<noteq> 0"
    and quiet: "handlers_of r ''basic_return'' w = []" "map_of (pending (objects w r)) Basic_Return = None"
      "Basic_Return \<notin> set ms"
    and args: "dumps ''Bsss'' [VInt code, VStr text, VStr ex, VStr rk] = Inr a"
      "valid_str text" "valid_str ex" "valid_str rk"
    and written: "write_frame cdc write_bytes 1 ch (Some Basic_Return) (VBytes a) (Some msg) s = (Inr (), s', m')"
    and parts: "content_parts cdc msg = (Inr (bdy, pb), msg')" and ne: "bdy \<noteq> []"
    and rd: "props_readable (properties msg') PROPERTIES" and fmax: "8 < frame_max s"
    and wire: "sent_bytes (transport s) @ unread (transport (fw w)) = sent_bytes (transport s') @ rest"
    and n: "length (unread (transport (fw w))) < n"
  obtains w' where "wait (drainer n E) r ms cb None tuple w
      = (Inl (Amqp (error_for_code code text Basic_Return ChannelError)), w')"
    and "unread (transport (fw w')) = rest" and "same_sender (transport (fw w)) (transport (fw w'))"
    and "steady_transport (transport (fw w'))" and "frame_max (fw w') = frame_max (fw w)"
    and "channel_up w' r ch" and "call_done r ms w w'"
proof -
  let ?w1 = "waiting r ms cb w"
  have 1: "has_transport ?w1" "has_inbound ?w1" "steady_transport (transport (fw ?w1))" "expected_types (fh ?w1) ch = 1"
    "sent_bytes (transport s) @ unread (transport (fw ?w1)) = sent_bytes (transport s') @ rest"
    "length (unread (transport (fw ?w1))) < n" "Basic_Return \<in> set CONTENT_METHODS"
    using up wire n by (simp_all add: channel_up_def CONTENT_METHODS_def)
  obtain k t h mb got where d: "drain_events n E None ?w1
      = on_inbound_method E (k, drain_events k E) (ch, Basic_Return, mb, Some got)
          (?w1\<lparr>fw := (fw ?w1)\<lparr>transport := t\<rparr>, fh := h\<rparr>)"
    and t: "unread t = rest" "steady_transport t" "same_sender (transport (fw ?w1)) t" "expected_types h ch = 1"
    and mb: "unpack_sig mb = Inr Basic_Return" "drop 4 mb = a"
    by (rule content_drained [OF 1(1-4) written parts ne 1(7) rd fmax 1(5,6), of E]) (rule that)
  let ?w2 = "?w1\<lparr>fw := (fw w)\<lparr>transport := t\<rparr>, fh := h\<rparr>"
  obtain tbl where tbl: "channels w = Some tbl" "map_of tbl ch = Some r" using up(1) by (auto simp: channel_up_def)
  have "dispatch_method E (listener E (k, drain_events k E)) r Basic_Return mb (Some got) ?w2
    = (Inl (Amqp (error_for_code code text Basic_Return ChannelError)), ?w2)"
    by (rule dispatch_return [OF up(3) _ _ _ return_arguments [OF args mb]])
      (use up(1) quiet in \<open>simp_all add: channel_up_def handlers_of_def install_other del: install.simps\<close>)
  then have run: "drain_events n E None ?w1 = (Inl (Amqp (error_for_code code text Basic_Return ChannelError)), ?w2)"
    using tbl by (simp add: d on_inbound_method_def)
  have 2: "0 < n" "conn_ref (objects w r)" using n up(1) by (simp_all add: channel_up_def)
  obtain w' where w': "wait (drainer n E) r ms cb None tuple w
      = (Inl (Amqp (error_for_code code text Basic_Return ChannelError)), w')"
    "fw w' = (fw w)\<lparr>transport := t\<rparr>" "fh w' = h" "call_done r ms w w'"
    by (rule wait_raised [OF run 2, where tuple = tuple]) (rule that)
  have "channel_up w' r ch" by (rule call_done_up [OF w'(4) up(1)]) (simp add: w'(3) t(4))
  then show thesis using that w' t by simp
qed

end
