(* ===== verification/Connecting.thy ===== *)
theory Connecting
  imports Transport_Facts
begin

text \<open>
  Connecting a TCP transport: addresses that refuse are passed over, their sockets closed; the first
  that accepts gets its options, and the protocol header is sent.
\<close>

section \<open>The options of a socket\<close>

definition sends_all :: "socket \<Rightarrow> bool" where
  "sends_all s \<longleftrightarrow> send_events s = [] \<and> (\<forall>l k. opt_error s l k = None)"

lemma set_options:
  assumes "sock t = Some s" and "\<forall>l k. opt_error s l k = None"
  shows "forA xs (\<lambda>(opt, v). on_socket (setsockopt l opt v)) t
    = (Inr (), t\<lparr>sock := Some (s\<lparr>sock_opts := sock_opts s @ map (Pair l) xs\<rparr>)\<rparr>)"
  using assms
proof (induction xs arbitrary: t s)
  case (Cons x xs)
  obtain opt v where x: "x = (opt, v)" by (cases x)
  let ?s = "s\<lparr>sock_opts := sock_opts s @ [(l, opt, v)]\<rparr>"
  have "on_socket (setsockopt l opt v) t = (Inr (), t\<lparr>sock := Some ?s\<rparr>)"
    using Cons.prems by (simp add: on_socket_def setsockopt_def)
  then show ?case
    using Cons.IH [of "t\<lparr>sock := Some ?s\<rparr>" ?s] Cons.prems(2) by (simp add: x bindA_def)
qed simp

text \<open>The timeouts the application asks the system for.\<close>

definition timeout_opts :: "tcp_transport \<Rightarrow> (string \<times> int \<times> int) list" where
  "timeout_opts t = concat (map (\<lambda>(opt, interval). case interval of
       None \<Rightarrow> [] | Some i \<Rightarrow> [(''SOL_SOCKET'', opt, timeval i)])
     [(SO_SNDTIMEO, write_timeout t), (SO_RCVTIMEO, read_timeout t)])"

lemma set_timeouts:
  assumes "sock t = Some s" and "\<forall>l k. opt_error s l k = None"
  shows "forA [(SO_SNDTIMEO, write_timeout t), (SO_RCVTIMEO, read_timeout t)] (\<lambda>(opt, interval). case interval of
        None \<Rightarrow> retA () | Some i \<Rightarrow> on_socket (setsockopt ''SOL_SOCKET'' opt (timeval i))) t
    = (Inr (), t\<lparr>sock := Some (s\<lparr>sock_opts := sock_opts s @ timeout_opts t\<rparr>)\<rparr>)"
  using assms
  by (auto simp: bindA_def on_socket_def setsockopt_def timeout_opts_def split: option.split)

section \<open>A socket that accepted\<close>

definition ready_socket :: "net \<Rightarrow> tcp_transport \<Rightarrow> socket \<Rightarrow> socket" where
  "ready_socket N t s = s\<lparr>sock_timeout := None,
     sock_opts := sock_opts s @ (''SOL_SOCKET'', SO_KEEPALIVE, 1)
       # map (Pair ''SOL_TCP'')
           (tcp_options (sock_consts N) (sock_getopt N) (tcp_opts N) (socket_settings t)) @ timeout_opts t,
     outgoing := outgoing s @ AMQP_PROTOCOL_HEADER\<rparr>"

lemma init_socket_tcp:
  assumes "\<not> is_ssl t" and "sock t = Some s" and "sends_all s"
  shows "init_socket N t = (Inr (), t\<lparr>sock := Some (ready_socket N t s), read_buffer := []\<rparr>)"
proof -
  let ?opts = "tcp_options (sock_consts N) (sock_getopt N) (tcp_opts N) (socket_settings t)"
  define s1 where "s1 = s\<lparr>sock_timeout := None, sock_opts := sock_opts s @ [(''SOL_SOCKET'', SO_KEEPALIVE, 1)]\<rparr>"
  define s2 where "s2 = s1\<lparr>sock_opts := sock_opts s1 @ map (Pair ''SOL_TCP'') ?opts\<rparr>"
  define s3 where "s3 = s2\<lparr>sock_opts := sock_opts s2 @ timeout_opts t\<rparr>"
  have no: "\<forall>l k. opt_error s l k = None" "\<forall>l k. opt_error s1 l k = None" "\<forall>l k. opt_error s2 l k = None"
    and ev: "send_events s3 = []"
    using assms(3) by (simp_all add: sends_all_def s1_def s2_def s3_def)
  have 0: "on_socket (modA (\<lambda>s. s\<lparr>sock_timeout := None\<rparr>)) t = (Inr (), t\<lparr>sock := Some (s\<lparr>sock_timeout := None\<rparr>)\<rparr>)"
    "on_socket (setsockopt ''SOL_SOCKET'' SO_KEEPALIVE 1) (t\<lparr>sock := Some (s\<lparr>sock_timeout := None\<rparr>)\<rparr>)
      = (Inr (), t\<lparr>sock := Some s1\<rparr>)"
    using assms(2) no(1) by (simp_all add: on_socket_def setsockopt_def s1_def)
  have 1: "forA ?opts (\<lambda>(opt, v). on_socket (setsockopt ''SOL_TCP'' opt v)) (t\<lparr>sock := Some s1\<rparr>)
      = (Inr (), t\<lparr>sock := Some s2\<rparr>)"
    using set_options [of "t\<lparr>sock := Some s1\<rparr>" s1 ?opts "''SOL_TCP''"] no(2) by (simp add: s2_def)
  have 2: "forA [(SO_SNDTIMEO, write_timeout t), (SO_RCVTIMEO, read_timeout t)] (\<lambda>(opt, interval). case interval of
        None \<Rightarrow> retA () | Some i \<Rightarrow> on_socket (setsockopt ''SOL_SOCKET'' opt (timeval i))) (t\<lparr>sock := Some s2\<rparr>)
      = (Inr (), t\<lparr>sock := Some s3\<rparr>)"
    using set_timeouts [of "t\<lparr>sock := Some s2\<rparr>" s2] no(3) by (simp add: timeout_opts_def s3_def del: forA.simps)
  have "ready_socket N t s = s3\<lparr>outgoing := outgoing s3 @ AMQP_PROTOCOL_HEADER\<rparr>"
    by (simp add: ready_socket_def s1_def s2_def s3_def)
  then show ?thesis
    by (simp add: init_socket_def bindA_def 0 1 2 assms(1) write_raw_def ev del: forA.simps)
qed

section \<open>The loop over the addresses\<close>

text \<open>An address that cannot be connected to, with an error of the operating system.\<close>

definition refused :: "int option option \<Rightarrow> rat option \<Rightarrow> io_error + socket \<Rightarrow> bool" where
  "refused fcntl timeout x \<longleftrightarrow> (case x of
     Inl e \<Rightarrow> is_OSError (io_exn e)
   | Inr s \<Rightarrow> close_error s = None \<and> (case open_socket fcntl timeout s of
       (Inl e, _) \<Rightarrow> is_OSError e | _ \<Rightarrow> False))"

lemma open_socket_close: "open_socket fcntl tmo s = (r, s') \<Longrightarrow> close_error s' = close_error s"
  by (auto simp: open_socket_def set_cloexec_def catchA_def bindA_def split: option.splits if_splits)

lemma connect_refused:
  assumes "refused fcntl tmo x" and "sock t = None"
  obtains e where "is_OSError e"
    and "\<And>es. connect_loop fcntl tmo (x # es) t
      = (if es = [] then (Inl e, t) else connect_loop fcntl tmo es t)"
proof (cases x)
  case (Inl e)
  then show thesis
    using that [of "io_exn e"] assms by (simp add: refused_def drop_sock_def)
next
  case (Inr s)
  obtain e s' where e: "open_socket fcntl tmo s = (Inl e, s')" "is_OSError e"
    using assms(1) Inr by (auto simp: refused_def split: prod.splits sum.splits)
  then have "close_error s' = None"
    using assms(1) Inr open_socket_close [OF e(1)] by (simp add: refused_def)
  moreover have "t\<lparr>sock := None\<rparr> = t" using assms(2) by (cases t) simp
  ultimately show thesis
    using that [of e] e Inr by (simp add: on_socket_def drop_sock_def)
qed

lemma connect_all_refused:
  assumes "\<forall>x \<in> set xs. refused fcntl tmo x" and "xs \<noteq> []" and "sock t = None"
  obtains e where "is_OSError e" and "connect_loop fcntl tmo xs t = (Inl e, t)"
  using assms
proof (induction xs)
  case (Cons x xs)
  obtain e where e: "is_OSError e"
    "\<And>es. connect_loop fcntl tmo (x # es) t = (if es = [] then (Inl e, t) else connect_loop fcntl tmo es t)"
    by (rule connect_refused [of fcntl tmo x t]) (use Cons.prems in auto)
  show ?case
  proof (cases "xs = []")
    case True
    then show ?thesis using Cons.prems(1) [OF e(1)] e(2) by simp
  next
    case False
    show ?thesis by (rule Cons.IH) (use Cons.prems e(2) False in auto)
  qed
qed simp

lemma connect_first:
  assumes "\<forall>x \<in> set xs. refused fcntl tmo x" and "sock t = None" and "open_socket fcntl tmo s = (Inr (), s')"
  shows "connect_loop fcntl tmo (xs @ Inr s # rest) t = (Inr (), t\<lparr>sock := Some s'\<rparr>)"
  using assms
proof (induction xs)
  case (Cons x xs)
  obtain e where "\<And>es. connect_loop fcntl tmo (x # es) t
      = (if es = [] then (Inl e, t) else connect_loop fcntl tmo es t)"
    by (rule connect_refused [of fcntl tmo x t]) (use Cons.prems in auto)
  then show ?case using Cons by simp
qed (simp add: on_socket_def)

text \<open>A socket without trouble is opened, and not inherited by the programs the process starts.\<close>

lemma open_socket_ok:
  assumes "connect_error s = None" and "fcntl_error s = None"
  shows "open_socket fcntl tmo s = (Inr (), s\<lparr>sock_timeout := tmo,
    fd_flags := (case fcntl of Some (Some FD_CLOEXEC) \<Rightarrow> fd_flags s OR FD_CLOEXEC | _ \<Rightarrow> fd_flags s)\<rparr>)"
  using assms
  by (auto simp: open_socket_def set_cloexec_def catchA_def bindA_def split: option.split)

end
