(* ===== verification/Reader_Types.thy ===== *)
theory Reader_Types
  imports Reader_Total
begin

text \<open>
  The types of what \<open>loads\<close> returns: each format letter stands for one type of value and one
  range, so a handler that was registered with a format gets arguments of those types.
\<close>

definition int_within :: "nat \<Rightarrow> pyval \<Rightarrow> bool" where
  "int_within n v \<longleftrightarrow> (\<exists>i. v = VInt i \<and> 0 \<le> i \<and> i < 2 ^ n)"

definition has_format :: "char \<Rightarrow> pyval \<Rightarrow> bool" where
  "has_format p v \<longleftrightarrow>
     p = CHR ''b'' \<and> (\<exists>b. v = VBool b)
   \<or> p = CHR ''o'' \<and> int_within 8 v \<or> p = CHR ''B'' \<and> int_within 16 v
   \<or> p = CHR ''l'' \<and> int_within 32 v \<or> p = CHR ''L'' \<and> int_within 64 v
   \<or> p = CHR ''f'' \<and> (\<exists>w. v = VFloat w)
   \<or> (p = CHR ''s'' \<or> p = CHR ''S'') \<and> (\<exists>s. v = VStr s)
   \<or> p = CHR ''x'' \<and> (\<exists>b. v = VBytes b)
   \<or> p = CHR ''F'' \<and> (\<exists>d. v = VDict d) \<or> p = CHR ''A'' \<and> (\<exists>xs. v = VList xs)
   \<or> p = CHR ''T'' \<and> (\<exists>t. v = VDateTime t 0 \<and> 0 \<le> t \<and> t \<le> max_timestamp)"

lemma sunpack_within: "sunpack_u n buf off = Inr i \<Longrightarrow> int_within (8 * n) (VInt i)"
  using unpack_u_range [of n buf off i]
  by (auto simp: int_within_def sunpack_u_def power_mult)

lemma loads_step_typed:
  assumes "loads_step p buf off bc bits = Inr (v, off', bc', bits')" shows "has_format p v"
proof -
  note within = sunpack_within [of 1 buf off] sunpack_within [of 2 buf off] sunpack_within [of 4 buf off]
    sunpack_within [of 8 buf off]
  have time: "\<exists>t. x = VDateTime t 0 \<and> 0 \<le> t \<and> t \<le> max_timestamp"
    if "from_timestamp i = Inr x" "int_within 64 (VInt i)" for i x
    using that by (auto simp: from_timestamp_def int_within_def split: if_splits)
  have str: "\<exists>s. x = VStr s" if "load_str n buf off = Inr (x, k)" for n x k
    using that by (auto simp: load_str_def bindE_eq_Inr)
  have tables: "read_table buf off = Inr (x, k) \<Longrightarrow> \<exists>d. x = VDict d"
    "read_array buf off = Inr (x, k) \<Longrightarrow> \<exists>xs. x = VList xs" for x k
    by (auto simp: read_table_def read_array_def bindE_eq_Inr)
  show ?thesis
    using assms within time str tables
    by (auto simp: loads_step_def Let_def bindE_eq_Inr has_format_def split: if_splits)
qed

lemma loads_loop_typed:
  "loads_loop fmt buf off bc bits = Inr (vs, k) \<Longrightarrow> list_all2 has_format fmt vs"
proof (induction fmt arbitrary: vs off bc bits)
  case (Cons p ps)
  then show ?case by (fastforce simp: bindE_eq_Inr dest: loads_step_typed)
qed simp

lemma loads_typed: "loads fmt buf off = Inr (vs, k) \<Longrightarrow> list_all2 has_format fmt vs"
  unfolding loads_def by (rule loads_loop_typed)

end
