(* ===== verification/Spec2Isabelle.thy ===== *)
theory Spec2Isabelle
  imports Samples Framing_Spec Server_Close Deliveries Channel_Revival Flow_Control Returned_Messages Connecting Reader_Types
begin

text \<open>
  A model of py-amqp, the AMQP 0-9-1 client library below celery and kombu (sources under
  src/amqp/), and its correctness properties. The program is layered, and so are the theories:

  \<^item> \<open>Prelude\<close>, \<open>Utf8\<close>, \<open>Struct_Pack\<close>, \<open>Values\<close>: what the program uses of Python. Bytes are
    \<open>8 word list\<close>, text is a list of code points, integers are unbounded, floats are their IEEE
    bits, a dict is an association list in insertion order, an exception is a value of \<open>exn\<close>, and
    code with effects is an \<open>act\<close>: a state to a result (\<open>Inl\<close> the exception) and a state.
  \<^item> \<open>Method_Spec\<close> (spec.py), \<open>Exceptions\<close> (exceptions.py): method signatures, the classes of
    the library's errors with their ancestry, and \<open>error_for_code\<close>.
  \<^item> \<open>Serialization\<close> (serialization.py, functions): \<open>dumps\<close>, \<open>loads\<close>, tables and arrays. The
    recursion of \<open>_read_item\<close> is bounded by fuel, one unit per octet left; \<open>Reader_Total\<close> shows it
    never runs out, \<open>Serialization_Roundtrip\<close> that the two directions agree, \<open>Reader_Types\<close> that
    what is read has the types the format names.
  \<^item> \<open>Content\<close> (\<open>GenericContent\<close>, \<open>Message\<close>, \<open>decode_properties_basic\<close>): content headers and
    bodies; \<open>Content_Roundtrip\<close> their round trip and the reassembly of a body.
  \<^item> \<open>Framing\<close> (method_framing.py): the closures \<open>on_frame\<close> and \<open>write_frame\<close> with their state
    as records. \<open>Framing_Inbound\<close> has the invariant of the handler and the independence of
    channels, \<open>Framing_Spec\<close> an abstract automaton per channel (idle, header expected, so many
    octets of body to come) that it refines, \<open>Framing_Outbound\<close> what is written, over any transport that is a \<open>byte_sink\<close>,
    \<open>Framing_Roundtrip\<close> the two together.
  \<^item> \<open>Platform\<close> (platform.py): the TCP options of the platform. \<open>Tls\<close> (\<open>SSLTransport\<close>): the context a
    TLS socket is wrapped with; what the \<open>ssl\<close> module does with its settings is written out, reading
    certificate files and the handshake itself are parameters (\<open>tls_module\<close>, \<open>do_handshake\<close>).
  \<^item> \<open>Transport\<close> (transport.py): TCP and TLS transports over a scripted socket, whose events are
    the data or errors that successive system calls meet; partial reads and writes, timeouts,
    addresses, socket options, connecting and closing, with \<open>utils.set_cloexec\<close>. \<open>Transport_Facts\<close> interprets \<open>byte_sink\<close> with
    it and shows what reading and writing do to the two byte streams, \<open>Connecting\<close> which of the
    addresses a TCP transport ends up with and what it has done to the socket.
  \<^item> \<open>Sasl\<close> (sasl.py): the mechanisms and the choice between them; the package behind GSSAPI is the
    parameter \<open>gss\<close>, and the default list of mechanisms is that of a machine without it.
  \<^item> \<open>World\<close>, \<open>Abstract_Channel\<close>, \<open>Channel\<close>, \<open>Connection\<close> (abstract_channel.py, channel.py,
    connection.py): the connection and channel objects in one \<open>world\<close>, calls that wait for an
    answer, the listeners, the handshake, closing, the event loop, heartbeats. An operation that
    blocks takes a \<open>drainer\<close>, the event loop it runs and the fuel of the loops around it;
    \<open>drain_events\<close> in \<open>Connection\<close> is the one of the program. A run that waits for more than the
    scripts hold ends with \<open>Waiting\<close>, one that needs more fuel with \<open>OutOfFuel\<close>.
  \<^item> \<open>Effects\<close>: the effects of an action as a relation on states, with an interface for actions
    composed from such parts; \<open>No_Fuel\<close>: the parts that cannot run out of fuel.
  \<^item> \<open>Client_Laws\<close>: the interface \<open>client\<close>, what a relation on worlds must satisfy on the steps the
    client is made of, and that every operation and every handler then satisfies it.
    \<open>Client_Invariant\<close> instantiates it with the invariant of the tables (\<open>client_ok\<close>: channel ids,
    channel table, channel objects, frame handler), for an event loop with any fuel.
    \<open>Client_Run\<close> has the runs: the requests an application can make, one operation each
    (\<open>perform\<close>), and the states they reach. \<open>Event_Loop\<close> instantiates the interface a second time,
    with the octets still to be read and the addresses still to be dialled, which every turn of
    the event loop makes fewer: fuel above that \<open>potential\<close> is never used up, so \<open>OutOfFuel\<close> is
    not an outcome of the program. \<open>Client_Behaviour\<close>: single steps of the client, what a call
    and its answer, a delivery, a close by the server, a heartbeat check lead to.
  \<^item> From the bytes of the server to the bytes of the client, over several turns of the event loop:
    \<open>Calls\<close> (a call and its answer, publishing with confirms), \<open>Handshake\<close> (connecting),
    \<open>Deliveries\<close> (a content and the callback of its consumer, or the call that waits for it),
    \<open>Flow_Control\<close> (the server asks a channel to stop), \<open>Returned_Messages\<close> (a message that could
    not be routed comes back), \<open>Channel_Revival\<close> (opening a channel, and one the server closes, which
    is opened again inside the handler), \<open>Server_Close\<close> (the server closes the connection while a
    call waits).
  \<^item> \<open>Samples\<close>: concrete values for the instances of the properties.

  The properties below are in groups: the two directions of the wire and the handler that puts
  contents together; the client on top of it; arguments, tables and properties of a content;
  frames in and out; the socket; authentication and errors; and last what the code does that it
  should not do, each shown on the model as it is.

  Not modelled: logging and the decorator \<open>coro\<close> of utils.py, which nothing uses,
  the text of \<open>__repr__\<close>, pickling, deprecation warnings, the package metadata and build scripts. Application
  callbacks are the parameter \<open>app\<close> of \<open>env\<close>; promises (the package vine) appear as the waiters of
  \<open>wait\<close> and as callbacks, and \<open>then\<close>, which adds a callback to such a promise, is left out.
\<close>

section \<open>From the wire to the handler\<close>

text \<open>
  C1: What \<open>write_frame\<close> sends for a method with a content, cut into packets in any way and
  read by \<open>read_frame\<close>, is delivered by \<open>on_frame\<close> exactly once, with the last frame: the same
  method, arguments and body, and the properties in canonical form. The rest of the stream is
  untouched and the channel is idle again.
\<close>

theorem content_travels:
  assumes "write_frame cdc write_bytes 1 ch (Some sig) (VBytes a) (Some msg) s = (Inr (), s', m')"
    and "content_parts cdc msg = (Inr (bdy, pb), msg')" and "bdy \<noteq> []"
    and "sig \<in> set CONTENT_METHODS" and "props_readable (properties msg') PROPERTIES"
    and "8 < frame_max s" and "steady_transport t"
    and "sent_bytes (transport s) @ unread t = sent_bytes (transport s') @ rest"
    and "expected_types h ch = 1"
  shows "\<exists>n fs t' mb got. read_frames n t = (Inr fs, t') \<and> unread t' = rest
    \<and> fst (run_frames fs h) = replicate (n - 1) (Inr None) @ [Inr (Some (ch, sig, mb, Some got))]
    \<and> unpack_sig mb = Inr sig \<and> drop 4 mb = a \<and> body got = VBytes bdy
    \<and> properties got = canon_props (properties msg') PROPERTIES
    \<and> expected_types (snd (run_frames fs h)) ch = 1"
proof -
  have "serialize_properties msg' = Inr pb"
    using assms(2) by (auto simp: content_parts_def elim!: bindA_cases)
  moreover obtain fs out where fs: "frame_list 1 ch (Some sig) (VBytes a) (Some (bdy, pb)) (frame_max s - 8) = Inr fs"
    "encode_frames fs = Inr out" "sent_bytes (transport s') = sent_bytes (transport s) @ out"
    using tx.write_frame_content [OF assms(1) _ assms(3), of pb] assms(2)
    by (auto simp: str_to_bytes_def)
  moreover have "unread t = out @ rest" using assms(8) fs(3) by simp
  ultimately show ?thesis
    using read_frames_steady [OF assms(7) fs(2)] assms(3-6,9)
      content_frames_delivered [OF fs(1) assms(4) _ assms(5) assms(9)] by fastforce
qed

lemma content_travels_witness:
  "\<exists>n fs t' mb got. read_frames n (sample_transport [Data (take 5 sample_wire), Data (drop 5 sample_wire)])
      = (Inr fs, t')
    \<and> fst (run_frames fs (frame_handler_init 0)) =
        replicate (n - 1) (Inr None) @ [Inr (Some (1, Basic_Deliver, mb, Some got))]
    \<and> body got = VBytes (replicate 9 1)"
proof -
  obtain s' where w: "write_frame no_codecs write_bytes 1 1 (Some Basic_Deliver) (VBytes [7, 8])
     (Some sample_message) (sample_writer 16) = (Inr (), s', Some sample_message)"
    and out: "sent_bytes (transport s') = sample_wire"
    using sample_sent by blast
  let ?t = "sample_transport [Data (take 5 sample_wire), Data (drop 5 sample_wire)]"
  have "unread ?t = sample_wire" "sent_bytes (transport (sample_writer 16)) = []"
    "steady_transport ?t" "expected_types (frame_handler_init 0) 1 = 1"
    "frame_max (sample_writer 16) = 16" "Basic_Deliver \<in> set CONTENT_METHODS"
    by (simp_all add: unread_def sock_data_def sample_transport_def sample_socket_def sample_writer_def
        sent_bytes_def steady_transport_def steady_def sample_wire_def frame_handler_init_def
        CONTENT_METHODS_def)
  then show ?thesis
    using content_travels [OF w sample_parts _ _ sample_readable, of ?t "[]" "frame_handler_init 0"] out
    by auto
qed

text \<open>
  C2: \<open>frame_handler\<close> implements its contract: for every sequence of frames, however the
  channels are interleaved and whatever errors occur, the results for each channel are those
  of the three-phase automaton run on that channel's frames alone.
\<close>

theorem handler_implements_phases:
  "map outcome_of (results_of ch fs (fst (run_frames fs (frame_handler_init n))))
    = phase_run Idle (map (\<lambda>(t, _, buf). (t, buf)) (frames_of ch fs))"
  by (rule run_refines)

text \<open>
  C3: However the stream is cut into packets, a sequence of encoded frames at its head is read
  back frame by frame, and what follows stays unread.
\<close>

theorem frames_any_segmentation:
  assumes "steady_transport t" and "encode_frames fs = Inr out" and "unread t = out @ rest"
  shows "\<exists>t'. read_frames (length fs) t = (Inr fs, t') \<and> unread t' = rest"
  using read_frames_steady [OF assms] by blast

lemma frames_any_segmentation_witness:
  "\<exists>t'. read_frames 2 (sample_transport [Data [8], Data [0, 0, 0, 0, 0, 0, 206, 8, 0, 1, 0, 0],
      Data [0, 1, 5], Data [206, 9]]) = (Inr [(8, 0, []), (8, 1, [5])], t') \<and> unread t' = [9]"
proof -
  let ?t = "sample_transport [Data [8], Data [0, 0, 0, 0, 0, 0, 206, 8, 0, 1, 0, 0],
      Data [0, 1, 5], Data [206, 9]]"
  have 1: "steady_transport ?t"
    by (simp add: steady_transport_def steady_def sample_transport_def sample_socket_def)
  have 2: "encode_frames [(8, 0, []), (8, 1, [5])]
      = Inr [8, 0, 0, 0, 0, 0, 0, 206, 8, 0, 1, 0, 0, 0, 1, 5, 206]" by code_simp
  have "unread ?t = [8, 0, 0, 0, 0, 0, 0, 206, 8, 0, 1, 0, 0, 0, 1, 5, 206] @ [9]" by code_simp
  from frames_any_segmentation [OF 1 2 this] show ?thesis by (simp add: numeral_2_eq_2)
qed

text \<open>
  C4: A read that times out, at whatever octet of a frame, loses nothing: the bytes still to be
  read are the same as before and the connection stays usable.
\<close>

theorem timeout_loses_nothing:
  assumes "read_frame t = (Inl SocketTimeout, t')"
  shows "unread t' = unread t \<and> connected t' = connected t"
  using assms by (rule read_frame_restores)

lemma timeout_loses_nothing_witness:
  "\<exists>t'. read_frame (sample_transport [Data [1, 0, 1], Recv_fails IO_timeout, Data [0, 0]])
      = (Inl SocketTimeout, t')
    \<and> unread t' = [1, 0, 1, 0, 0]"
proof -
  let ?t = "sample_transport [Data [1, 0, 1], Recv_fails IO_timeout, Data [0, 0]]"
  have "fst (read_frame ?t) = Inl SocketTimeout"
    by (simp add: read_frame_def read_frame_parts_def bindA_def with_buffer_def read_n_def read_loop.simps
        recv_def sample_transport_def sample_socket_def errnos_of_def is_OSError_def read_frame_failed_def
        EAGAIN_def EINTR_def exn_errno_def)
  moreover have "unread ?t = [1, 0, 1, 0, 0]" by code_simp
  ultimately show ?thesis
    using timeout_loses_nothing [of ?t "snd (read_frame ?t)"] by (cases "read_frame ?t") auto
qed

text \<open>
  C5: Channels do not disturb each other: from any state of the handler, the deliveries and
  errors of a channel are those it has when the frames of all other channels are left out.
\<close>

theorem channels_independent:
  "results_of ch fs (fst (run_frames fs h)) = fst (run_frames (frames_of ch fs) h)"
  using run_frames_local [of ch h h fs] by (simp add: same_channel_def)

section \<open>The client\<close>

text \<open>
  C6: However a client got where it is, by whatever calls, inbound frames and errors, its tables
  agree: the channel ids in use are distinct and between 1 and 65535, every channel object that
  is in use is found in the table under its own id, and every entry of the table has an id in use.
\<close>

theorem client_tables_agree:
  assumes "reachable E w" and "app_keeps E"
  shows "distinct (used_channel_ids w) \<and> (\<forall>i \<in> set (used_channel_ids w). 1 \<le> i \<and> i \<le> 65535)
    \<and> (\<forall>r. r \<noteq> 0 \<and> conn_ref (objects w r) \<longrightarrow> (\<exists>tbl i. channels w = Some tbl
        \<and> channel_id (objects w r) = Some i \<and> map_of tbl i = Some r))
    \<and> (\<forall>tbl i r. channels w = Some tbl \<longrightarrow> map_of tbl i = Some r \<longrightarrow> i \<noteq> 0 \<longrightarrow> i \<in> set (used_channel_ids w))
    \<and> handler_ok (fh w)"
  using reachable_ok [OF assms]
  by (fastforce simp: client_ok_def ids_ok_def ids_valid_def table_valid_def live_def)

lemma client_tables_agree_witness:
  "\<exists>w tbl. reachable sample_env w \<and> conn_ref (objects w 1) \<and> channels w = Some tbl
    \<and> map_of tbl 1 = Some 1 \<and> 1 \<in> set (used_channel_ids w)"
proof -
  let ?p = "perform sample_env (drainer 1 sample_env) (New_channel None None) sample_new"
  have "dumps ''s'' [VStr []] = Inr [0]" by code_simp
  then have "conn_ref (objects (snd ?p) 1) \<and> channel_id (objects (snd ?p) 1) = Some 1"
    by (simp add: sample_client_defs connection_channel_def channel_init_def get_free_channel_id_def
        append_id_def bindA_def fresh_chan_def channel_open_def send_wait_def send_method_def
        write_method_def need_def force_connect_def connection_connect_def conn_connected_def
        catchA_def connect_body_def dial_up_def new_transport_def is_OSError_def upto_rec1)
  moreover have r: "reachable sample_env (snd ?p)"
    by (rule reachable.request [OF reachable.fresh [OF sample_new_init] _ prod.collapse [symmetric]]) simp
  moreover have "app_keeps sample_env"
    by (simp add: app_keeps_def sample_env_def kept_def)
  ultimately show ?thesis
    using client_tables_agree [OF r] by fastforce
qed

text \<open>
  C7: A call gets the answer of the server. It sends one frame, that of its method; when the
  bytes that arrive, cut into packets in any way, are heartbeats followed by the method the call
  waits for, it returns the arguments of that method, and what comes after it stays unread.
\<close>

theorem answer_reaches_caller:
  assumes "channel_up w r ch" and "has_frame_writer w" and "channel_id (objects w r) = Some ch"
    and "steady_transport (transport (fw w))" and "writable (transport (fw w))"
    and "method_frame ch sig0 fmt xs = Inr d" and "int (length d) \<le> frame_max (fw w) - 8" and "fmt \<noteq> []"
    and "encode_frames (hbs @ [(1, ch, p)]) = Inr out" and "unread (transport (fw w)) = out @ rest"
    and "\<forall>(ft, _, _) \<in> set hbs. ft = 8"
    and "unpack_sig p = Inr sig" and "sig \<notin> set CONTENT_METHODS"
    and "METHODS r sig = Some m" and "\<not> m_content m" and "method_args m p None = Inr args"
    and "\<And>dr. listener E dr r sig = None" and "length hbs < n"
  shows "\<exists>w'. send_wait E (drainer n E) r sig0 fmt xs None [sig] tuple w = (Inr (shape_result tuple args), w')
    \<and> sent_bytes (transport (fw w')) = sent_bytes (transport (fw w)) @ d
    \<and> unread (transport (fw w')) = rest"
  by (rule call_answered [OF assms, where tuple = tuple]) blast

lemma answer_reaches_caller_witness:
  "\<exists>w'. queue_purge sample_env (drainer 2 sample_env) 1 (VStr [113]) (VBool False)
      (sample_client [Data [8, 0, 0, 0, 0, 0, 0, 206, 1, 0, 1, 0, 0, 0, 8, 0, 50, 0, 31, 0, 0, 0, 5, 206]])
    = (Inr (ROne (AV (VInt 5))), w')
    \<and> sent_bytes (transport (fw w')) = [1, 0, 1, 0, 0, 0, 9, 0, 50, 0, 30, 0, 0, 1, 113, 0, 206]"
proof -
  let ?d = "[8, 0, 0, 0, 0, 0, 0, 206, 1, 0, 1, 0, 0, 0, 8, 0, 50, 0, 31, 0, 0, 0, 5, 206]"
  let ?p = "[0, 50, 0, 31, 0, 0, 0, 5]" and ?w = "sample_client [Data ?d]"
  have 1: "method_frame 1 Queue_Purge ''Bsb'' [VInt 0, VStr [113], VBool False]
    = Inr [1, 0, 1, 0, 0, 0, 9, 0, 50, 0, 30, 0, 0, 1, 113, 0, 206]"
    and 2: "encode_frames ([(8, 0, [])] @ [(1, 1, ?p)]) = Inr ?d" by code_simp+
  have 3: "unpack_sig ?p = Inr Queue_PurgeOk" "Queue_PurgeOk \<notin> set CONTENT_METHODS" by code_simp+
  have 4: "METHODS 1 Queue_PurgeOk = Some (spec_method Queue_PurgeOk (Some ''l'') False)" by code_simp
  have "loads ''l'' ?p 4 = Inr ([VInt 5], 8)" by code_simp
  then have 5: "method_args (spec_method Queue_PurgeOk (Some ''l'') False) ?p None = Inr [AV (VInt 5)]"
    by (simp add: method_args_def spec_method_def)
  have 6: "listener sample_env dr 1 Queue_PurgeOk = None" for dr
    by (simp add: listener_def channel_listener_def sig_defs)
  have "channel_up ?w 1 1" by (simp add: channel_up_def)
  moreover have "channel_id (objects ?w 1) = Some 1" "writable (transport (fw ?w))" "frame_max (fw ?w) = 64"
    by (simp_all add: sample_client_defs writable_def send_script_def)
  moreover have "sent_bytes (transport (fw ?w)) = []" by (simp add: sample_client_defs sent_bytes_def)
  ultimately show ?thesis
    using answer_reaches_caller [where E = sample_env and n = 2 and rest = "[]" and tuple = False and w = ?w,
        OF _ _ _ _ _ 1 _ _ 2 _ _ 3 4 _ 5 6]
    by (auto simp: sample_steady spec_method_def shape_result_def queue_purge_def nowait_for_def)
qed

text \<open>
  C8: Connecting: once the socket is there, a server that sends Start, Tune and OpenOk, in packets
  of any size, gets StartOk (the negotiated client properties, the first mechanism that fits and
  its response), TuneOk and Open in answer; \<open>connect\<close> returns with the handshake complete and the
  tuned channel, frame and heartbeat limits, and reads nothing beyond OpenOk.
\<close>

theorem connect_shakes_hands:
  assumes "\<not> conn_connected w0" and "dial_up E w0 = (Inr (), w1)" and "new_closures w1 = (Inr (), w)"
    and "conn_up w" and "\<not> handshake_complete w" and "on_open (objects w 0) = None"
    and "encode_frames [(1, 0, p1), (1, 0, p2), (1, 0, p3)] = Inr out" and "unread (transport (fw w)) = out @ rest"
    and "unpack_sig p1 = Inr Connection_Start" and "unpack_sig p2 = Inr Connection_Tune"
    and "unpack_sig p3 = Inr Connection_OpenOk"
    and "loads ''ooFSS'' p1 4 = Inr ([major, minor, sprops, VStr mechs, VStr locs], k1)"
    and "loads ''BlB'' p2 4 = Inr ([VInt cmax, VInt fmax, VInt shb], k2)"
    and "encode_utf8 mechs = Inr mb"
    and "negotiate (negotiate_capabilities E) sprops (client_properties w) = Inr props"
    and "pick_authentication (split_at 32 mb) (authentication w) = Inr (Some (m, resp))"
    and "v = tuned cmax fmax shb w"
    and "method_frame 0 Connection_StartOk ''FsSs''
      [VDict props, VBytes m, VBytes resp, VStr (locale_name w)] = Inr d1"
    and "int (length d1) \<le> frame_max (fw w) - 8"
    and "method_frame 0 Connection_TuneOk ''BlB''
      [VInt (channel_max v), VInt (frame_max (fw v)), VInt (heartbeat v)] = Inr d2"
    and "int (length d2) \<le> frame_max (fw v) - 8"
    and "method_frame 0 Connection_Open ''ssb'' [VStr (virtual_host w), VStr [], VBool False] = Inr d3"
    and "int (length d3) \<le> frame_max (fw v) - 8" and "3 \<le> n"
  shows "\<exists>w'. connection_connect E (drainer n E) w0 = (Inr (), w') \<and> handshake_complete w'
    \<and> channel_max w' = channel_max v \<and> frame_max (fw w') = frame_max (fw v) \<and> heartbeat w' = heartbeat v
    \<and> sent_bytes (transport (fw w')) = sent_bytes (transport (fw w)) @ d1 @ d2 @ d3
    \<and> unread (transport (fw w')) = rest"
proof -
  have "connection_connect E (drainer n E) w0 = (case handshake_loop n (drain_events n E) w of
      (Inr x, w') \<Rightarrow> (Inr (), w')
    | (Inl e, w') \<Rightarrow> (if is_OSError e then bindA connection_collect (\<lambda>_. raiseA e) else raiseA e) w')"
    using assms(1-3)
    by (simp add: connection_connect_def catchA_def connect_body_def drainer_def split: prod.split sum.split)
  then show ?thesis using handshake [OF assms(4-24)] by fastforce
qed

lemma connect_shakes_hands_witness:
  "\<exists>w'. connection_connect sample_env (drainer 3 sample_env) sample_unconnected = (Inr (), w')
    \<and> handshake_complete w' \<and> channel_max w' = 5 \<and> frame_max (fw w') = 64 \<and> heartbeat w' = 7"
proof -
  let ?d = "dial_up sample_env sample_unconnected"
  let ?c = "new_closures (snd ?d)"
  let ?w = "snd ?c"
  have ok: "fst ?d = Inr ()" "fst ?c = Inr ()" by code_simp+
  then have 1: "?d = (Inr (), snd ?d)" and 2: "?c = (Inr (), ?w)" by (metis prod.collapse)+
  have w: "has_transport ?w" "has_inbound ?w" "has_frame_writer ?w" "conn_ref (objects ?w 0)"
    "\<not> is_closing (objects ?w 0)" "channel_id (objects ?w 0) = Some 0" "pending (objects ?w 0) = []"
    "channels ?w = Some [(0, 0)]" "expected_types (fh ?w) 0 = 1"
    "send_script (transport (fw ?w)) = Some []" "connect_timeout (transport (fw ?w)) = None"
    "\<not> handshake_complete ?w" "on_open (objects ?w 0) = None" "authentication ?w = [EXTERNAL, RAW [65] [66]]"
    "client_properties ?w = []" "locale_name ?w = []" "virtual_host ?w = []" "frame_max (fw ?w) = 64"
    "channel_max ?w = 2" "client_heartbeat ?w = 9" "\<not> conn_connected sample_unconnected"
    by code_simp+
  have "case sock (transport (fw ?w)) of None \<Rightarrow> False
     | Some s \<Rightarrow> incoming s = [Data (take 30 sample_server), Data (drop 30 sample_server)]" by code_simp
  moreover have "take 30 sample_server \<noteq> []" "drop 30 sample_server \<noteq> []" by code_simp+
  ultimately have "steady_transport (transport (fw ?w))"
    by (auto simp: steady_transport_def steady_def split: option.splits)
  then have up: "conn_up ?w" using w by (simp add: conn_up_def channel_up_def writable_def)
  have frames: "encode_frames [(1, 0, sample_start), (1, 0, sample_tune), (1, 0, sample_open_ok)] = Inr sample_server"
    "unread (transport (fw ?w)) = sample_server @ []" by code_simp+
  have sigs: "unpack_sig sample_start = Inr Connection_Start" "unpack_sig sample_tune = Inr Connection_Tune"
    "unpack_sig sample_open_ok = Inr Connection_OpenOk" by code_simp+
  have args: "loads ''ooFSS'' sample_start 4 = Inr ([VInt 0, VInt 9, VDict [], VStr [65], VStr []], 19)"
    "loads ''BlB'' sample_tune 4 = Inr ([VInt 5, VInt 64, VInt 7], 12)" by code_simp+
  have utf8: "encode_utf8 [65] = Inr [65]"
    by (simp add: encode_utf8_def utf8_encode_strict_def utf8_encode_def valid_str_def enc_cp_def is_surrogate_def)
  have neg: "negotiate (negotiate_capabilities sample_env) (VDict []) (client_properties ?w) = Inr []"
    "pick_authentication (split_at 32 [65]) (authentication ?w) = Inr (Some ([65], [66]))"
    unfolding w by code_simp+
  let ?d1 = "[1, 0, 0, 0, 0, 0, 16, 0, 10, 0, 11, 0, 0, 0, 0, 1, 65, 0, 0, 0, 1, 66, 0, 206]"
  let ?d2 = "[1, 0, 0, 0, 0, 0, 12, 0, 10, 0, 31, 0, 5, 0, 0, 0, 64, 0, 7, 206]"
  let ?d3 = "[1, 0, 0, 0, 0, 0, 7, 0, 10, 0, 40, 0, 0, 0, 206]"
  have sent: "method_frame 0 Connection_StartOk ''FsSs'' [VDict [], VBytes [65], VBytes [66], VStr []] = Inr ?d1"
    "method_frame 0 Connection_TuneOk ''BlB'' [VInt 5, VInt 64, VInt 7] = Inr ?d2"
    "method_frame 0 Connection_Open ''ssb'' [VStr [], VStr [], VBool False] = Inr ?d3" by code_simp+
  let ?v = "tuned 5 64 7 ?w"
  have v: "channel_max ?v = 5" "frame_max (fw ?v) = 64" "heartbeat ?v = 7"
    by (simp_all add: tuned_def w negotiate_heartbeat_def)
  show ?thesis
    using connect_shakes_hands [OF w(21) 1 2 up w(12,13) frames sigs args utf8 neg refl, where n = 3 and ?d1.0 = ?d1 and ?d2.0 = ?d2 and ?d3.0 = ?d3] sent v w(16-18)
    by auto
qed









text \<open>
  C13: When the server closes a channel, the channel is usable again by the time the application
  learns of it: the client acknowledges the close and opens the channel again under its id, waiting
  for the answer inside the event loop that is running, and then raises the error of the reply
  code. Nothing but the two frames is sent, and nothing after the server's answer is read.
\<close>

theorem closed_channel_revives:
  assumes "channel_up w r ch" and "has_frame_writer w" and "channel_id (objects w r) = Some ch" and "r \<noteq> 0"
    and "steady_transport (transport (fw w))" and "writable (transport (fw w))"
    and "\<not> is_closing (objects w 0)" and "on_open (objects w r) = None"
    and "map_of (pending (objects w r)) Channel_Close = None"
    and "method_frame ch Channel_CloseOk [] [] = Inr d1" and "int (length d1) \<le> frame_max (fw w) - 8"
    and "method_frame ch Channel_Open ''s'' [VStr []] = Inr d2" and "int (length d2) \<le> frame_max (fw w) - 8"
    and "encode_frames [(1, ch, p1), (1, ch, p2)] = Inr out" and "unread (transport (fw w)) = out @ rest"
    and "unpack_sig p1 = Inr Channel_Close" and "unpack_sig p2 = Inr Channel_OpenOk"
    and "loads ''BsBB'' p1 4 = Inr ([VInt code, VStr text, VInt c, VInt m], k)" and "2 \<le> n"
  shows "\<exists>w'. drain_events n E None w = (Inl (Amqp (error_for_code code text (c, m) ChannelError)), w')
    \<and> is_open (objects w' r) \<and> conn_ref (objects w' r) \<and> channel_id (objects w' r) = Some ch
    \<and> channels w' = channels w
    \<and> sent_bytes (transport (fw w')) = sent_bytes (transport (fw w)) @ d1 @ d2
    \<and> unread (transport (fw w')) = rest"
  by (rule channel_closed_by_server [OF assms])

lemma closed_channel_revives_witness:
  "\<exists>w'. drain_events 2 sample_env None (sample_client
      [Data [1, 0, 1, 0, 0, 0, 11, 0, 20, 0, 40, 1, 148, 0, 0, 50, 0, 10, 206, 1, 0, 1, 0, 0, 0, 4, 0, 20, 0, 11, 206]])
    = (Inl (Amqp (error_for_code 404 [] (50, 10) ChannelError)), w')
    \<and> is_open (objects w' 1)
    \<and> sent_bytes (transport (fw w'))
      = [1, 0, 1, 0, 0, 0, 4, 0, 20, 0, 41, 206, 1, 0, 1, 0, 0, 0, 5, 0, 20, 0, 10, 0, 206]"
proof -
  let ?p1 = "[0, 20, 0, 40, 1, 148, 0, 0, 50, 0, 10]" and ?p2 = "[0, 20, 0, 11]"
  let ?d = "[1, 0, 1, 0, 0, 0, 11, 0, 20, 0, 40, 1, 148, 0, 0, 50, 0, 10, 206, 1, 0, 1, 0, 0, 0, 4, 0, 20, 0, 11, 206]"
  let ?w = "sample_client [Data ?d]"
  have 1: "method_frame 1 Channel_CloseOk [] [] = Inr [1, 0, 1, 0, 0, 0, 4, 0, 20, 0, 41, 206]"
    "method_frame 1 Channel_Open ''s'' [VStr []] = Inr [1, 0, 1, 0, 0, 0, 5, 0, 20, 0, 10, 0, 206]"
    "encode_frames [(1, 1, ?p1), (1, 1, ?p2)] = Inr ?d"
    "unpack_sig ?p1 = Inr Channel_Close" "unpack_sig ?p2 = Inr Channel_OpenOk"
    "loads ''BsBB'' ?p1 4 = Inr ([VInt 404, VStr [], VInt 50, VInt 10], 11)"
    by code_simp+
  have 2: "channel_up ?w 1 1" "has_frame_writer ?w" "channel_id (objects ?w 1) = Some 1"
    "writable (transport (fw ?w))" "\<not> is_closing (objects ?w 0)" "on_open (objects ?w 1) = None"
    "map_of (pending (objects ?w 1)) Channel_Close = None" "frame_max (fw ?w) = 64"
    by (simp_all add: channel_up_def writable_def send_script_def sample_client_defs)
  have 3: "sent_bytes (transport (fw ?w)) = []" by (simp add: sample_client_defs sent_bytes_def)
  show ?thesis
    using closed_channel_revives [where E = sample_env and n = 2 and rest = "[]",
        OF 2(1-3) _ _ 2(4-7) 1(1) _ 1(2) _ 1(3) _ 1(4-6)] 2(8) 3
    by (auto simp: sample_steady)
qed

text \<open>
  C14: \<open>wait\<close> cleans up after itself: whatever arrives while it waits, nested waits included, and
  however it ends, the entries of its methods in \<open>_pending\<close> are those from before.
\<close>

theorem wait_leaves_pending:
  assumes "wait dr r methods cb tmo tuple w = (q, w')" and "distinct methods" and "sig \<in> set methods"
  shows "map_of (pending (objects w' r)) sig = map_of (pending (objects w r)) sig"
  by (rule wait_restores [OF assms])

lemma wait_leaves_pending_witness:
  "map_of (pending (objects (snd (wait (drainer 0 sample_env) 1 [Basic_Ack, Basic_Nack] No_callback None False
      (sample_client []))) 1)) Basic_Ack = None"
  using wait_leaves_pending [OF prod.collapse [symmetric], where sig = Basic_Ack and r = 1 and w = "sample_client []"
      and methods = "[Basic_Ack, Basic_Nack]"]
  by (simp add: sig_defs)



text \<open>
  C16: Asking for a new channel gives an open one: it takes the lowest id that is free, enters the
  channel into the table under it, sends Channel.Open on it, and returns it once the answer has
  arrived; what comes after the answer stays unread.
\<close>

theorem new_channel_opens:
  assumes "conn_up w" and "ids_ok w" and "channel_max w \<le> 65535"
    and "1 \<le> i" and "i \<le> channel_max w" and "i \<notin> set (used_channel_ids w)"
    and "\<forall>j. 1 \<le> j \<and> j < i \<longrightarrow> j \<in> set (used_channel_ids w)" and "expected_types (fh w) i = 1"
    and "method_frame i Channel_Open ''s'' [VStr []] = Inr d" and "int (length d) \<le> frame_max (fw w) - 8"
    and "encode_frames [(1, i, p)] = Inr out" and "unread (transport (fw w)) = out @ rest"
    and "unpack_sig p = Inr Channel_OpenOk" and "0 < n"
  shows "\<exists>w' tbl. connection_channel E (drainer n E) None None w = (Inr (RRef (next_ref w)), w')
    \<and> is_open (objects w' (next_ref w)) \<and> conn_ref (objects w' (next_ref w))
    \<and> channel_id (objects w' (next_ref w)) = Some i
    \<and> channels w' = Some tbl \<and> map_of tbl i = Some (next_ref w)
    \<and> sent_bytes (transport (fw w')) = sent_bytes (transport (fw w)) @ d
    \<and> unread (transport (fw w')) = rest"
  by (rule channel_opened [OF assms])

lemma new_channel_opens_witness:
  "\<exists>w'. connection_channel sample_env (drainer 1 sample_env) None None
      (sample_client [Data [1, 0, 2, 0, 0, 0, 4, 0, 20, 0, 11, 206]]) = (Inr (RRef 2), w')
    \<and> is_open (objects w' 2) \<and> channel_id (objects w' 2) = Some 2
    \<and> sent_bytes (transport (fw w')) = [1, 0, 2, 0, 0, 0, 5, 0, 20, 0, 10, 0, 206]"
proof -
  let ?p = "[0, 20, 0, 11]" and ?d = "[1, 0, 2, 0, 0, 0, 4, 0, 20, 0, 11, 206]"
  let ?w = "sample_client [Data ?d]"
  have 1: "method_frame 2 Channel_Open ''s'' [VStr []] = Inr [1, 0, 2, 0, 0, 0, 5, 0, 20, 0, 10, 0, 206]"
    "encode_frames [(1, 2, ?p)] = Inr ?d" "unpack_sig ?p = Inr Channel_OpenOk"
    by code_simp+
  have 2: "ids_ok ?w" by (auto simp: ids_ok_def ids_valid_def table_valid_def live_def sample_client_defs)
  have 3: "conn_up ?w" "frame_max (fw ?w) = 64" "channel_max ?w = 2" "used_channel_ids ?w = [1]" "next_ref ?w = 2"
    "sent_bytes (transport (fw ?w)) = []"
    using sample_steady [of ?d]
    by (simp_all add: conn_up_def channel_up_def sample_client_defs writable_def send_script_def sent_bytes_def)
  have 4: "\<forall>j. 1 \<le> j \<and> j < 2 \<longrightarrow> j \<in> set (used_channel_ids ?w)" by (auto simp: 3(4))
  show ?thesis
    using new_channel_opens [where w = ?w and i = 2 and n = 1 and rest = "[]" and E = sample_env,
        OF 3(1) 2 _ _ _ _ 4 _ 1(1) _ 1(2) _ 1(3)] 3(2-6)
    by (auto simp: sample_steady)
qed

text \<open>
  C17: Of the capabilities the client wants, those the server offers are announced with their
  value and the others are left as the application set them; an empty table is not announced.
\<close>

theorem capabilities_negotiated:
  assumes "negotiate wanted sprops cprops = Inr props" and "distinct (map fst wanted)"
  shows "(\<forall>c. capability props c = (case map_of wanted c of
      Some b \<Rightarrow> if offered sprops c then Some (VBool b) else capability cprops c
    | None \<Rightarrow> capability cprops c))
    \<and> map_of props capabilities_key \<noteq> Some (VDict [])"
  using negotiate_capability [OF assms] by blast

lemma capabilities_negotiated_witness:
  "\<exists>props. negotiate [([97], True), ([98], True)]
      (VDict [(capabilities_key, VDict [(KStr [98], VBool True)])]) [] = Inr props
    \<and> capability props [98] = Some (VBool True) \<and> capability props [97] = None"
proof -
  let ?s = "VDict [(capabilities_key, VDict [(KStr [98], VBool True)])]"
  have "\<not> isl (negotiate [([97], True), ([98], True)] ?s [])"
    by (simp add: negotiate_def dict_get_def py_or_def Let_def)
  then obtain props where p: "negotiate [([97], True), ([98], True)] ?s [] = Inr props"
    by (cases "negotiate [([97], True), ([98], True)] ?s []") auto
  have "offered ?s [98]" "\<not> offered ?s [97]" "capability [] [97] = None"
    by (simp_all add: offered_def dict_get_def capability_def)
  then show ?thesis using capabilities_negotiated [OF p] p by auto
qed



section \<open>Arguments, tables and properties\<close>

text \<open>
  C19: \<open>loads\<close> reads back what \<open>dumps\<close> wrote, at any offset of a longer buffer: the values in
  canonical form (flags as booleans, None as the empty value, bytes as text where they are
  text), and the offset just past them. The formats are those that do not put \<open>x\<close> or \<open>T\<close>
  behind pending flag bits.
\<close>

theorem arguments_roundtrip:
  assumes "dumps fmt vals = Inr bs" and "fmt_ok False fmt" and "length fmt = length vals"
    and "args_readable fmt vals"
  shows "loads fmt (pre @ bs @ post) (length pre) = Inr (args_canon fmt vals, length pre + length bs)"
  using assms by (rule loads_dumps)

lemma arguments_roundtrip_witness:
  "loads ''sbbl'' ([9] @ [1, 104, 1, 0, 0, 0, 7] @ [5]) (length [9 :: byte])
     = Inr ([VStr [104], VBool True, VBool False, VInt 7], 8)"
proof -
  have "dumps ''sbbl'' [VStr [104], VBool True, VBool False, VInt 7] = Inr [1, 104, 1, 0, 0, 0, 7]"
    by code_simp
  moreover have "args_readable ''sbbl'' [VStr [104], VBool True, VBool False, VInt 7]"
    "args_canon ''sbbl'' [VStr [104], VBool True, VBool False, VInt 7]
       = [VStr [104], VBool True, VBool False, VInt 7]"
    by (simp_all add: args_readable_def arg_readable_def args_canon_def arg_canon_def py_or_def valid_str_def)
  ultimately show ?thesis
    using arguments_roundtrip [of "''sbbl''" "[VStr [104], VBool True, VBool False, VInt 7]"
        "[1, 104, 1, 0, 0, 0, 7]" "[9]" "[5]"] by simp
qed

text \<open>
  C20: The property list \<open>_serialize_properties\<close> writes is read back by
  \<open>decode_properties_basic\<close>: the properties that are set, in the order of the table, in
  canonical form.
\<close>

theorem properties_roundtrip:
  assumes "serialize_properties msg = Inr bs" and "props_readable (properties msg) PROPERTIES"
  shows "decode_properties_basic (pre @ bs @ post) (length pre)
    = Inr (canon_props (properties msg) PROPERTIES, length pre + length bs)"
  using assms by (rule decode_serialize)

lemma properties_roundtrip_witness:
  "decode_properties_basic ([] @ [16, 0, 2] @ []) (length ([] :: bytes))
     = Inr ([(''delivery_mode'', VInt 2)], 3)"
proof -
  have "serialize_properties sample_message = Inr [16, 0, 2]"
    "canon_props (properties sample_message) PROPERTIES = [(''delivery_mode'', VInt 2)]"
    by code_simp+
  then show ?thesis using properties_roundtrip [OF _ sample_readable, of "[16, 0, 2]" "[]" "[]"] by simp
qed

text \<open>
  C21: Every reader of \<open>serialization.py\<close> terminates: on any bytes, however truncated or
  hostile, \<open>loads\<close> and \<open>_read_item\<close> return a value or raise; the fuel of the model never
  runs out.
\<close>

theorem readers_total:
  "loads fmt buf off \<noteq> Inl OutOfFuel \<and> read_item buf off \<noteq> Inl OutOfFuel
    \<and> read_table buf off \<noteq> Inl OutOfFuel \<and> read_array buf off \<noteq> Inl OutOfFuel"
  by (simp add: loads_def loads_loop_no_fuel read_item_no_fuel read_table_no_fuel read_array_no_fuel)

text \<open>
  C22: What \<open>loads\<close> returns fits its format: one value for each letter, of the type of that letter
  and in its range (an octet, a 16-bit, 32-bit or 64-bit unsigned integer, a flag, a double, text,
  bytes, a table, an array, a date without fraction of a second), whatever the bytes were.
\<close>

theorem loads_values_typed:
  assumes "loads fmt buf off = Inr (vs, k)"
  shows "list_all2 has_format fmt vs"
  using assms by (rule loads_typed)

lemma loads_values_typed_witness: "list_all2 has_format ''oBx'' [VInt 7, VInt 515, VBytes []]"
proof -
  have "loads ''oBx'' [7, 2, 3, 0, 0, 0, 0] 0 = Inr ([VInt 7, VInt 515, VBytes []], 7)" by code_simp
  then show ?thesis by (rule loads_values_typed)
qed



section \<open>Frames in and out\<close>

text \<open>
  C24: Whatever frames arrive, the tables of the handler stay consistent: a channel expects a
  header or a body exactly when it has an unfinished message, whose counters agree with the
  chunks it holds.
\<close>

theorem handler_stays_consistent: "handler_ok (snd (run_frames fs (frame_handler_init n)))"
  by (rule run_frames_ok [OF handler_init_ok])

text \<open>
  C25: \<open>FRAME_OVERHEAD\<close> is enough: a content the writer decides to pack into its buffer always
  fits there, and all its frames go out in one write.
\<close>

theorem small_content_one_write:
  assumes "content_parts cdc msg = (Inr (bdy, props), msg')"
    and "int (length a + length props + length bdy) + FRAME_OVERHEAD \<le> frame_max s - 8"
    and "frame_list ftype ch sig (VBytes a) (Some (bdy, props)) (frame_max s - 8) = Inr fs"
    and "encode_frames fs = Inr out"
  shows "\<exists>buf. write_frame cdc put ftype ch sig (VBytes a) (Some msg) s = (case put out (transport s) of
      (r, t) \<Rightarrow> (r, s\<lparr>buffer_store := buf, transport := t,
        bytes_sent := bytes_sent s + (if r = Inr () then 1 else 0)\<rparr>, Some msg'))"
  by (rule write_frame_small [OF assms])

lemma small_content_one_write_witness:
  "\<exists>fs out buf. frame_list 1 1 (Some Basic_Publish) (VBytes [7, 8]) (Some (replicate 9 1, [16, 0, 2])) 56 = Inr fs
    \<and> encode_frames fs = Inr out
    \<and> write_frame no_codecs write_bytes 1 1 (Some Basic_Publish) (VBytes [7, 8]) (Some sample_message)
        (sample_writer 64) = (case write_bytes out (transport (sample_writer 64)) of
      (r, t) \<Rightarrow> (r, (sample_writer 64)\<lparr>buffer_store := buf, transport := t,
        bytes_sent := bytes_sent (sample_writer 64) + (if r = Inr () then 1 else 0)\<rparr>, Some sample_message))"
proof -
  let ?fs = "[(1, 1, [0, 60, 0, 40, 7, 8]), (2, 1, [0, 60, 0, 0, 0, 0, 0, 0, 0, 0, 0, 9, 16, 0, 2]),
    (3, 1, [1, 1, 1, 1, 1, 1, 1, 1, 1])] :: frame list"
  have 1: "frame_list 1 1 (Some Basic_Publish) (VBytes [7, 8]) (Some (replicate 9 1, [16, 0, 2])) 56 = Inr ?fs"
    by code_simp
  have "\<not> isl (encode_frames ?fs)" by code_simp
  then obtain out where 2: "encode_frames ?fs = Inr out" by (cases "encode_frames ?fs") auto
  have "frame_max (sample_writer 64) = 64" by (simp add: sample_writer_def)
  then show ?thesis
    using small_content_one_write [OF sample_parts, where s = "sample_writer 64" and fs = ?fs and out = out
        and ch = 1 and ftype = 1 and sig = "Some Basic_Publish" and put = write_bytes and a = "[7, 8]"] 1 2
    by (auto simp: FRAME_OVERHEAD_def)
qed

section \<open>Reading and writing the socket\<close>

text \<open>
  C26: A frame that \<open>read_frame\<close> returns is exactly what was taken off the stream, end octet
  included, and reading sends nothing and leaves the socket's timeout alone.
\<close>

theorem read_frame_exact:
  assumes "read_frame t = (Inr (ft, ch, p), t')"
  shows "\<exists>d. pack_frame ft ch p = Inr d \<and> unread t = d @ unread t'
    \<and> sent_bytes t' = sent_bytes t \<and> timeout_of t' = timeout_of t"
  using read_frame_takes_frame(1,2) [OF assms] by (auto simp: same_sender_def)

lemma read_frame_exact_witness:
  "\<exists>t' d. read_frame (sample_transport [Data [8, 0, 0, 0, 0, 0], Data [0, 206, 1]]) = (Inr (8, 0, []), t')
    \<and> pack_frame 8 0 [] = Inr d \<and> [8, 0, 0, 0, 0, 0, 0, 206, 1] = d @ unread t'"
proof -
  let ?t = "sample_transport [Data [8, 0, 0, 0, 0, 0], Data [0, 206, 1]]"
  have u: "unread ?t = [8, 0, 0, 0, 0, 0, 0, 206] @ [1]" by code_simp
  moreover have "steady_transport ?t"
    by (simp add: steady_transport_def steady_def sample_transport_def sample_socket_def)
  moreover have "pack_frame 8 0 [] = Inr [8, 0, 0, 0, 0, 0, 0, 206]" by code_simp
  ultimately obtain t' where "read_frame ?t = (Inr (8, 0, []), t')"
    using read_frame_steady by blast
  from read_frame_exact [OF this] this u show ?thesis by auto
qed

text \<open>
  C27: What a write puts on the socket is always a prefix of what it was given, the whole of it
  when it succeeds, and it consumes nothing of what is to be read.
\<close>

theorem write_sends_prefix:
  assumes "write_bytes d t = (r, t')"
  shows "\<exists>out rest. d = out @ rest \<and> sent_bytes t' = sent_bytes t @ out
    \<and> (r = Inr () \<longrightarrow> rest = []) \<and> unread t' = unread t"
  using write_bytes_sent(1,2) [OF assms] by blast

lemma write_sends_prefix_witness:
  "\<exists>out rest. [1, 2, 3] = out @ rest
    \<and> sent_bytes (snd (write_bytes [1, 2, 3] (sample_transport []))) = sent_bytes (sample_transport []) @ out"
  using write_sends_prefix [of "[1, 2, 3]" "sample_transport []", OF prod.collapse [symmetric]] by blast

text \<open>
  C28: A TCP transport connects to the first address that accepts, whatever operating system
  errors the addresses before it gave. The socket is closed when the process starts a program,
  if the platform has the flag, it is blocking again, has the options of the library and of the
  application, and the protocol header is all that was sent on it. When every address refuses, the
  error is raised and the transport is as it was, with no socket left open.
\<close>

theorem first_address_connects:
  assumes "\<not> connected t" and "\<not> is_ssl t" and "sock t = None"
    and "\<forall>x \<in> set fails. refused (fcntl_module N) (connect_timeout t) x"
    and "sends_all s" and "connect_error s = None" and "fcntl_error s = None"
  shows "connect (Inr (fails @ Inr s # rest)) N t = (Inr (), t\<lparr>connected := True, read_buffer := [],
      sock := Some (ready_socket N t (s\<lparr>fd_flags := case fcntl_module N of
        Some (Some FD_CLOEXEC) \<Rightarrow> fd_flags s OR FD_CLOEXEC | _ \<Rightarrow> fd_flags s\<rparr>))\<rparr>)
    \<and> (fails \<noteq> [] \<longrightarrow> (\<exists>e. is_OSError e \<and> connect (Inr fails) N t = (Inl e, t)))"
proof (rule conjI)
  let ?s = "s\<lparr>sock_timeout := connect_timeout t, fd_flags := (case fcntl_module N of
      Some (Some FD_CLOEXEC) \<Rightarrow> fd_flags s OR FD_CLOEXEC | _ \<Rightarrow> fd_flags s)\<rparr>"
  have loop: "connect_loop (fcntl_module N) (connect_timeout t) (fails @ Inr s # rest) t
      = (Inr (), t\<lparr>sock := Some ?s\<rparr>)"
    by (rule connect_first [OF assms(4,3) open_socket_ok [OF assms(6,7)]])
  have "init_socket N (t\<lparr>sock := Some ?s\<rparr>) = (Inr (), t\<lparr>sock := Some (ready_socket N (t\<lparr>sock := Some ?s\<rparr>) ?s), read_buffer := []\<rparr>)"
    using init_socket_tcp [of "t\<lparr>sock := Some ?s\<rparr>" ?s N] assms(2,5) by (simp add: sends_all_def)
  then show "connect (Inr (fails @ Inr s # rest)) N t = (Inr (), t\<lparr>connected := True, read_buffer := [],
      sock := Some (ready_socket N t (s\<lparr>fd_flags := case fcntl_module N of
        Some (Some FD_CLOEXEC) \<Rightarrow> fd_flags s OR FD_CLOEXEC | _ \<Rightarrow> fd_flags s\<rparr>))\<rparr>)"
    using assms(1) by (simp add: connect_def bindA_def loop ready_socket_def timeout_opts_def)
  show "fails \<noteq> [] \<longrightarrow> (\<exists>e. is_OSError e \<and> connect (Inr fails) N t = (Inl e, t))"
  proof
    assume ne: "fails \<noteq> []"
    obtain e where e: "is_OSError e" "connect_loop (fcntl_module N) (connect_timeout t) fails t = (Inl e, t)"
      by (rule connect_all_refused [OF assms(4) ne assms(3)])
    then show "\<exists>e. is_OSError e \<and> connect (Inr fails) N t = (Inl e, t)"
      using assms(1,3) by (intro exI [of _ e]) (simp add: connect_def bindA_def drop_sock_def)
  qed
qed

lemma first_address_connects_witness:
  "let t = (sample_transport [])\<lparr>connected := False, sock := None, connect_timeout := Some 2\<rparr>;
       refusing = Inr ((sample_socket [])\<lparr>connect_error := Some (IO_error (Some 111))\<rparr>)
   in (\<exists>t'. connect (Inr [refusing, Inl IO_timeout, Inr (sample_socket [])]) sample_net t = (Inr (), t') \<and> connected t'
       \<and> map_option fd_flags (sock t') = Some 1 \<and> map_option outgoing (sock t') = Some AMQP_PROTOCOL_HEADER)
     \<and> (\<exists>e. connect (Inr [refusing, Inl IO_timeout]) sample_net t = (Inl e, t))"
proof -
  let ?t = "(sample_transport [])\<lparr>connected := False, sock := None, connect_timeout := Some 2\<rparr>"
  let ?r = "Inr ((sample_socket [])\<lparr>connect_error := Some (IO_error (Some 111))\<rparr>)"
  have 1: "\<not> connected ?t" "\<not> is_ssl ?t" "sock ?t = None" "sends_all (sample_socket [])"
    "connect_error (sample_socket []) = None" "fcntl_error (sample_socket []) = None"
    by (simp_all add: sample_transport_def sample_socket_def sends_all_def)
  have 2: "\<forall>x \<in> set [?r, Inl IO_timeout]. refused (fcntl_module sample_net) (connect_timeout ?t) x"
    by (simp add: refused_def open_socket_def set_cloexec_def catchA_def bindA_def sample_net_def
        sample_socket_def is_OSError_def)
  show ?thesis
    using first_address_connects [OF 1(1-3) 2 1(4-6), of "[]"]
    by (auto simp: Let_def ready_socket_def sample_net_def sample_socket_def)
qed

text \<open>
  C29: A TLS client with a host name, whose options say nothing else, checks the name and requires
  a certificate; without a host name it still requires a certificate but accepts any name. The
  requirements it is given are kept, except that checking a name cannot go with no certificate.
\<close>

theorem tls_client_context:
  assumes "tls_files_ok M opts" and "opt_server_side opts = None" and "opt_ssl_version opts = None"
    and "opt_context opts = None"
    and "opt_cert_reqs opts \<noteq> Some CERT_NONE \<or> opt_server_hostname opts = None"
    and "opt_server_hostname opts \<noteq> Some []" and "HAS_SNI M"
  shows "\<exists>s. wrap_socket M opts = Inr s \<and> server_hostname s = opt_server_hostname opts
    \<and> check_hostname (tls_ctx s) = (opt_server_hostname opts \<noteq> None)
    \<and> verify_mode (tls_ctx s) = arg_or CERT_REQUIRED (opt_cert_reqs opts)
    \<and> verify_locations (tls_ctx s) = opt_ca_certs opts"
  using client_session [OF assms] by blast

lemma tls_client_context_witness:
  "\<exists>s. wrap_socket (ssl_module sample_net) (no_ssl_opts\<lparr>opt_cert_reqs := Some CERT_NONE\<rparr>) = Inr s
    \<and> \<not> check_hostname (tls_ctx s) \<and> verify_mode (tls_ctx s) = CERT_NONE"
  using tls_client_context [of "ssl_module sample_net" "no_ssl_opts\<lparr>opt_cert_reqs := Some CERT_NONE\<rparr>"]
  by (auto simp: sample_net_def tls_files_ok_def no_ssl_opts_def arg_or_def)

section \<open>Authentication and errors\<close>

text \<open>
  C30: The response of PLAIN is a zero octet, the user name, a zero octet and the password, each
  recovered by splitting at the zeros, for any text in which the name has no zero character.
\<close>

theorem plain_response_parses:
  assumes "plain_start (Some u) (Some p) = Inr (Some r)" and "0 \<notin> set u" and "valid_str u"
    and "valid_str p"
  shows "\<exists>ub pb. plain_parse r = ([], ub, pb) \<and> utf8_decode ub = Some u \<and> utf8_decode pb = Some p"
  using assms by (rule plain_start_parses)

lemma plain_response_parses_witness:
  "\<exists>ub pb. plain_parse [0, 117, 0, 112, 113] = ([], ub, pb) \<and> utf8_decode ub = Some [117]
    \<and> utf8_decode pb = Some [112, 113]"
proof -
  have "plain_start (Some [117]) (Some [112, 113]) = Inr (Some [0, 117, 0, 112, 113])"
    by (simp add: plain_start_def encode_utf8_def utf8_encode_strict_def utf8_encode_def is_surrogate_def
        enc_cp_def)
  then show ?thesis by (rule plain_response_parses) (simp_all add: valid_str_def)
qed

section \<open>Behaviour that loses data or resources\<close>

text \<open>
  C31: A content with an empty body whose arguments and properties do not fit the buffer is sent
  without its header: only the method frame goes out, and the peer waits for a header.
\<close>

theorem empty_body_loses_header:
  assumes "write_frame cdc write_bytes ftype ch sig (VBytes a) (Some msg) s = (Inr (), s', m')"
    and "content_parts cdc msg = (Inr ([], props), msg')"
    and "frame_max s - 8 < int (length a + length props) + FRAME_OVERHEAD"
  shows "\<exists>m d. method_payload ftype sig (VBytes a) = Inr m \<and> pack_frame ftype ch m = Inr d
    \<and> sent_bytes (transport s') = sent_bytes (transport s) @ d"
proof -
  obtain t where "write_slow write_bytes ftype ch sig (VBytes a) [] props (frame_max s - 8) s = (Inr (), t)"
    and "s' = t\<lparr>bytes_sent := bytes_sent t + 1\<rparr>"
    using assms
    by (cases "write_slow write_bytes ftype ch sig (VBytes a) [] props (frame_max s - 8) s")
      (auto simp: write_frame_def Let_def str_to_bytes_def as_bytes_def split: sum.splits)
  then show ?thesis using tx.write_slow_empty_body by fastforce
qed

lemma empty_body_loses_header_witness:
  "\<exists>s'. fst (snd (write_frame no_codecs write_bytes 1 1 (Some Basic_Publish) (VBytes [7, 8])
       (Some (message_init None [] (VBytes []) [])) (sample_writer 16))) = s'
    \<and> sent_bytes (transport s') = [1, 0, 1, 0, 0, 0, 6, 0, 60, 0, 40, 7, 8, 206]"
proof -
  let ?msg = "message_init None [] (VBytes []) []"
  let ?w = "write_frame no_codecs write_bytes 1 1 (Some Basic_Publish) (VBytes [7, 8]) (Some ?msg) (sample_writer 16)"
  have 1: "fst ?w = Inr ()" by code_simp
  have 2: "content_parts no_codecs ?msg = (Inr ([], [0, 0]), ?msg)" by code_simp
  have 3: "method_payload 1 (Some Basic_Publish) (VBytes [7, 8]) = Inr [0, 60, 0, 40, 7, 8]"
    "pack_frame 1 1 [0, 60, 0, 40, 7, 8] = Inr [1, 0, 1, 0, 0, 0, 6, 0, 60, 0, 40, 7, 8, 206]"
    by code_simp+
  have "frame_max (sample_writer 16) = 16" "sent_bytes (transport (sample_writer 16)) = []"
    by (simp_all add: sample_writer_def sent_bytes_def sample_transport_def sample_socket_def)
  then show ?thesis
    using empty_body_loses_header [where s = "sample_writer 16" and ftype = 1 and ch = 1
        and sig = "Some Basic_Publish" and a = "[7, 8]", OF _ 2] 1 3
    by (cases ?w) (auto simp: FRAME_OVERHEAD_def)
qed




text \<open>
  C34: When the server offers no mechanism the client has, \<open>connect\<close> raises ConnectionError, but the
  socket stays open and the connection counts as connected: calling \<open>connect\<close> again returns at once,
  without a handshake, and the connection then passes for one that can be used.
\<close>

theorem refused_mechanism_looks_connected:
  assumes "\<not> conn_connected w0" and "dial_up E w0 = (Inr (), w1)" and "new_closures w1 = (Inr (), w)"
    and "conn_up w" and "\<not> handshake_complete w" and "connected (transport (fw w))"
    and "encode_frames [(1, 0, p)] = Inr out" and "unread (transport (fw w)) = out @ rest"
    and "unpack_sig p = Inr Connection_Start"
    and "loads ''ooFSS'' p 4 = Inr ([major, minor, sprops, VStr mechs, VStr locs], k)"
    and "encode_utf8 mechs = Inr mb"
    and "negotiate (negotiate_capabilities E) sprops (client_properties w) = Inr props"
    and "pick_authentication (split_at 32 mb) (authentication w) = Inr None" and "0 < n"
  shows "\<exists>e w'. connection_connect E (drainer n E) w0 = (Inl e, w') \<and> is_instance e ConnectionError
    \<and> \<not> handshake_complete w' \<and> sent_bytes (transport (fw w')) = sent_bytes (transport (fw w))
    \<and> conn_connected w' \<and> connection_connect E (drainer n E) w' = (Inr (), w')"
proof -
  obtain e w' where e: "drain_events n E None w = (Inl e, w')" "is_instance e ConnectionError" "\<not> is_OSError e"
    and w': "has_transport w' = has_transport w" "connected (transport (fw w')) = connected (transport (fw w))"
      "handshake_complete w' = handshake_complete w" "sent_bytes (transport (fw w')) = sent_bytes (transport (fw w))"
    by (rule serve_refused [OF assms(4,7-14)]) (rule that)
  obtain j where j: "n = Suc j" using assms(14) by (cases n) auto
  have "connect_timeout (transport (fw w)) = None" "has_transport w" using assms(4) by (simp_all add: conn_up_def channel_up_def)
  then have "handshake_loop n (drain_events n E) w = (Inl e, w')" and c: "conn_connected w'"
    using e(1) w' assms(5,6) by (simp_all add: j bindA_def conn_connected_def del: drain_events.simps)
  then have "connection_connect E (drainer n E) w0 = (Inl e, w')"
    using assms(1-3) e(3)
    by (simp add: connection_connect_def catchA_def connect_body_def drainer_def bindA_def)
  then show ?thesis using e(2) w' assms(5) c by (auto simp: connection_connect_def)
qed

lemma refused_mechanism_looks_connected_witness:
  "\<exists>e w'. connection_connect sample_env (drainer 3 sample_env) sample_unwelcome = (Inl e, w')
     \<and> is_instance e ConnectionError \<and> \<not> handshake_complete w' \<and> connection_connect sample_env (drainer 3 sample_env) w' = (Inr (), w')"
proof -
  let ?d = "dial_up sample_env sample_unwelcome"
  let ?c = "new_closures (snd ?d)"
  let ?w = "snd ?c"
  have ok: "fst ?d = Inr ()" "fst ?c = Inr ()" by code_simp+
  then have 1: "?d = (Inr (), snd ?d)" and 2: "?c = (Inr (), ?w)" by (metis prod.collapse)+
  have w: "has_transport ?w" "has_inbound ?w" "has_frame_writer ?w" "conn_ref (objects ?w 0)"
    "\<not> is_closing (objects ?w 0)" "channel_id (objects ?w 0) = Some 0" "pending (objects ?w 0) = []"
    "channels ?w = Some [(0, 0)]" "expected_types (fh ?w) 0 = 1"
    "send_script (transport (fw ?w)) = Some []" "connect_timeout (transport (fw ?w)) = None"
    "\<not> handshake_complete ?w" "connected (transport (fw ?w))" "authentication ?w = [EXTERNAL]"
    "client_properties ?w = []" "\<not> conn_connected sample_unwelcome"
    by code_simp+
  have "case sock (transport (fw ?w)) of None \<Rightarrow> False
     | Some s \<Rightarrow> incoming s = [Data (take 30 sample_server), Data (drop 30 sample_server)]" by code_simp
  moreover have "take 30 sample_server \<noteq> []" "drop 30 sample_server \<noteq> []" by code_simp+
  ultimately have "steady_transport (transport (fw ?w))"
    by (auto simp: steady_transport_def steady_def split: option.splits)
  then have up: "conn_up ?w" using w by (simp add: conn_up_def channel_up_def writable_def)
  have frames: "encode_frames [(1, 0, sample_start)] = Inr (take 27 sample_server)"
    "unread (transport (fw ?w)) = take 27 sample_server @ drop 27 sample_server" by code_simp+
  have sig: "unpack_sig sample_start = Inr Connection_Start"
    and args: "loads ''ooFSS'' sample_start 4 = Inr ([VInt 0, VInt 9, VDict [], VStr [65], VStr []], 19)" by code_simp+
  have utf8: "encode_utf8 [65] = Inr [65]"
    by (simp add: encode_utf8_def utf8_encode_strict_def utf8_encode_def valid_str_def enc_cp_def is_surrogate_def)
  have neg: "negotiate (negotiate_capabilities sample_env) (VDict []) (client_properties ?w) = Inr []"
    "pick_authentication (split_at 32 [65]) (authentication ?w) = Inr None"
    unfolding w by code_simp+
  show ?thesis
    using refused_mechanism_looks_connected [OF w(16) 1 2 up w(12,13) frames sig args utf8 neg, of 3] by auto
qed



text \<open>
  C36: Publishing with confirms sends the content and then lets the next Ack or Nack of the channel
  decide: the call returns for an Ack and raises MessageNacked for a Nack. The delivery tag is not
  looked at, so the confirmation of an earlier message is taken for that of this one.
\<close>

theorem next_confirm_decides:
  assumes "channel_up w r ch" and "has_frame_writer w" and "channel_id (objects w r) = Some ch" and "r \<noteq> 0"
    and "steady_transport (transport (fw w))"
    and "confirm_selected (objects w r)" and "wants_blocked (client_properties w) = Inr False"
    and "codecs_ok (codecs E)" and "dumps ''Bssbb'' [VInt 0, ex, rk, md, im] = Inr a"
    and "write_frame (codecs E) write_bytes 1 ch (Some Basic_Publish) (VBytes a) (Some msg) (fw w) = (Inr (), f, m')"
    and "encode_frames (hbs @ [(1, ch, p)]) = Inr out" and "unread (transport (fw w)) = out @ rest"
    and "\<forall>(ft, _, _) \<in> set hbs. ft = 8"
    and "unpack_sig p = Inr sig" and "sig \<in> {Basic_Ack, Basic_Nack}" and "loads ''Lb'' p 4 = Inr ([tag, multiple], k)"
    and "handlers_of r ''basic_ack'' w = []" and "handlers_of r ''basic_nack'' w = []" and "length hbs < n"
  shows "\<exists>w'. basic_publish_confirm E (drainer n E) r msg ex rk md im None None w
      = (if sig = Basic_Ack then Inr RPromise else Inl MessageNacked, w')
    \<and> sent_bytes (transport (fw w')) = sent_bytes (transport f) \<and> unread (transport (fw w')) = rest"
  by (rule publish_confirm [OF assms]) blast

lemma next_confirm_decides_witness:
  "\<exists>w'. basic_publish_confirm sample_env (drainer 1 sample_env) 1 sample_message (VStr []) (VStr [107]) (VBool False)
      (VBool False) None None (confirming_client [Data [1, 0, 1, 0, 0, 0, 13, 0, 60, 0, 120, 0, 0, 0, 0, 0, 0, 0, 99, 0, 206]])
    = (Inl MessageNacked, w')"
proof -
  let ?d = "[1, 0, 1, 0, 0, 0, 13, 0, 60, 0, 120, 0, 0, 0, 0, 0, 0, 0, 99, 0, 206]"
  let ?p = "[0, 60, 0, 120, 0, 0, 0, 0, 0, 0, 0, 99, 0]" and ?w = "confirming_client [Data ?d]"
  let ?wf = "write_frame no_codecs write_bytes 1 1 (Some Basic_Publish) (VBytes [0, 0, 0, 1, 107, 0])
    (Some sample_message) (fw ?w)"
  have 1: "dumps ''Bssbb'' [VInt 0, VStr [], VStr [107], VBool False, VBool False] = Inr [0, 0, 0, 1, 107, 0]"
    "fst ?wf = Inr ()" "encode_frames ([] @ [(1, 1, ?p)]) = Inr ?d" "unpack_sig ?p = Inr Basic_Nack"
    "loads ''Lb'' ?p 4 = Inr ([VInt 99, VBool False], 13)" "Basic_Nack \<noteq> Basic_Ack"
    by code_simp+
  then obtain f m' where wf: "?wf = (Inr (), f, m')" by (metis prod.collapse)
  have 2: "channel_up ?w 1 1" "has_frame_writer ?w" "channel_id (objects ?w 1) = Some 1"
    "steady_transport (transport (fw ?w))" "confirm_selected (objects ?w 1)"
    "wants_blocked (client_properties ?w) = Inr False" "unread (transport (fw ?w)) = ?d @ []"
    "handlers_of 1 ''basic_ack'' ?w = []" "handlers_of 1 ''basic_nack'' ?w = []"
    by (simp_all add: confirming_client_def channel_up_def upd_obj_def sample_client_defs unread_def sock_data_def
        steady_transport_def steady_def handlers_of_def wants_blocked_def)
  have 3: "codecs sample_env = no_codecs" "codecs_ok no_codecs"
    by (simp_all add: sample_env_def codecs_ok_def no_codecs_def)
  show ?thesis
    using next_confirm_decides [where E = sample_env and n = 1 and rest = "[]",
        OF 2(1-3) _ 2(4-6) _ 1(1) wf [folded 3(1)] 1(3) 2(7) _ 1(4) _ 1(5) 2(8,9)] 1(6) 3
    by auto
qed



text \<open>
  C38: When the server asks a channel to stop sending contents (Channel.Flow with \<open>False\<close>), the
  channel answers FlowOk and notes the request, as documented; but nothing looks at the note, and a
  message published next goes out as if it had not been asked to wait.
\<close>

theorem flow_stop_ignored:
  assumes "channel_up w r ch" and "has_frame_writer w" and "channel_id (objects w r) = Some ch" and "r \<noteq> 0"
    and "steady_transport (transport (fw w))" and "writable (transport (fw w))"
    and "map_of (pending (objects w r)) Channel_Flow = None"
    and "method_frame ch Channel_FlowOk ''b'' [VBool False] = Inr d" and "int (length d) \<le> frame_max (fw w) - 8"
    and "encode_frames (hbs @ [(1, ch, p)]) = Inr out" and "unread (transport (fw w)) = out @ rest"
    and "\<forall>(ft, _, _) \<in> set hbs. ft = 8"
    and "unpack_sig p = Inr Channel_Flow" and "loads ''b'' p 4 = Inr ([VBool False], k)" and "length hbs < n"
    and "\<not> publish_confirms (objects w r)" and "wants_blocked (client_properties w) = Inr False"
    and "dumps ''Bssbb'' [VInt 0, ex, rk, md, im] = Inr a"
    and "content_parts (codecs E) msg = (Inr (bdy, pb), msg')"
    and "int (length a + length pb + length bdy) + FRAME_OVERHEAD \<le> frame_max (fw w) - 8"
    and "frame_list 1 ch (Some Basic_Publish) (VBytes a) (Some (bdy, pb)) (frame_max (fw w) - 8) = Inr fs"
    and "encode_frames fs = Inr content"
  shows "\<exists>w1 w2. drain_events n E None w = (Inr (), w1) \<and> active (objects w1 r) = VBool False
    \<and> sent_bytes (transport (fw w1)) = sent_bytes (transport (fw w)) @ d
    \<and> basic_publish E (drainer n E) r msg ex rk md im None None w1 = (Inr RPromise, w2)
    \<and> sent_bytes (transport (fw w2)) = sent_bytes (transport (fw w1)) @ content"
proof -
  obtain f h where 1: "drain_events n E None w = (Inr (),
      w\<lparr>objects := (objects w)(r := (objects w r)\<lparr>active := VBool False\<rparr>), fw := f, fh := h\<rparr>)"
    and 2: "sent_bytes (transport f) = sent_bytes (transport (fw w)) @ d" "frame_max f = frame_max (fw w)"
      "writable (transport f)"
    by (rule flow_requested [OF assms(1-15)]) (rule that)
  let ?w = "w\<lparr>objects := (objects w)(r := (objects w r)\<lparr>active := VBool False\<rparr>), fw := f, fh := h\<rparr>"
  obtain g where g: "write_frame (codecs E) write_bytes 1 ch (Some Basic_Publish) (VBytes a) (Some msg) f = (Inr (), g, Some msg')"
    "sent_on f content g"
    by (rule write_small_content [OF 2(3) assms(19) assms(20-22) [folded 2(2)]]) (rule that)
  have "plain_publish E (drainer n E) r msg ex rk md im None ?w = (Inr RPromise, ?w\<lparr>fw := g\<rparr>)"
    by (rule plain_published [where ch = ch and a = a and m' = "Some msg'"])
      (use assms(1-3,17,18) g(1) in \<open>simp_all add: channel_up_def\<close>)
  then have "basic_publish E (drainer n E) r msg ex rk md im None None ?w = (Inr RPromise, ?w\<lparr>fw := g\<rparr>)"
    using assms(16) by (simp add: basic_publish_def)
  then show ?thesis using 1 2 g(2) by (intro exI [of _ ?w] exI [of _ "?w\<lparr>fw := g\<rparr>"]) (simp add: sent_on_def)
qed

lemma flow_stop_ignored_witness:
  "let w = sample_client [Data [1, 0, 1, 0, 0, 0, 5, 0, 20, 0, 20, 0, 206]]
   in \<exists>w1 w2. drain_events 1 sample_env None w = (Inr (), w1) \<and> active (objects w1 1) = VBool False
    \<and> basic_publish sample_env (drainer 1 sample_env) 1 (message_init None [] (VBytes [1]) []) (VStr []) (VStr [107]) (VBool False) (VBool False)
        None None w1 = (Inr RPromise, w2)
    \<and> length (sent_bytes (transport (fw w2))) = 13 + 49"
proof -
  let ?d = "[1, 0, 1, 0, 0, 0, 5, 0, 20, 0, 20, 0, 206]" and ?p = "[0, 20, 0, 20, 0]"
  let ?w = "sample_client [Data ?d]"
  let ?fs = "[(1, 1, [0, 60, 0, 40, 0, 0, 0, 1, 107, 0]), (2, 1, [0, 60, 0, 0, 0, 0, 0, 0, 0, 0, 0, 1, 0, 0]),
    (3, 1, [1])] :: frame list"
  have 1: "method_frame 1 Channel_FlowOk ''b'' [VBool False] = Inr [1, 0, 1, 0, 0, 0, 5, 0, 20, 0, 21, 0, 206]"
    "encode_frames ([] @ [(1, 1, ?p)]) = Inr ?d" "unpack_sig ?p = Inr Channel_Flow"
    "loads ''b'' ?p 4 = Inr ([VBool False], 5)"
    "dumps ''Bssbb'' [VInt 0, VStr [], VStr [107], VBool False, VBool False] = Inr [0, 0, 0, 1, 107, 0]"
    "frame_list 1 1 (Some Basic_Publish) (VBytes [0, 0, 0, 1, 107, 0]) (Some ([1], [0, 0])) 56 = Inr ?fs"
    by code_simp+
  have "case encode_frames ?fs of Inl _ \<Rightarrow> False | Inr out \<Rightarrow> length out = 49" by code_simp
  then obtain out where 2: "encode_frames ?fs = Inr out" "length out = 49" by (cases "encode_frames ?fs") auto
  have 3: "channel_up ?w 1 1" "has_frame_writer ?w" "channel_id (objects ?w 1) = Some 1"
    "steady_transport (transport (fw ?w))" "writable (transport (fw ?w))"
    "map_of (pending (objects ?w 1)) Channel_Flow = None" "frame_max (fw ?w) = 64"
    "unread (transport (fw ?w)) = ?d @ []" "\<not> publish_confirms (objects ?w 1)"
    "wants_blocked (client_properties ?w) = Inr False" "sent_bytes (transport (fw ?w)) = []"
    by (simp_all add: channel_up_def sample_client_defs unread_def sock_data_def steady_transport_def steady_def
        writable_def send_script_def wants_blocked_def sent_bytes_def)
  have "content_parts no_codecs (message_init None [] (VBytes [1]) [])
    = (Inr ([1], [0, 0]), message_init None [] (VBytes [1]) [])" by code_simp
  then have parts: "content_parts (codecs sample_env) (message_init None [] (VBytes [1]) [])
    = (Inr ([1], [0, 0]), message_init None [] (VBytes [1]) [])" by (simp add: sample_env_def)
  show ?thesis
    using flow_stop_ignored [OF 3(1-3) _ 3(4-6) 1(1) _ 1(2) 3(8) _ 1(3,4) _ 3(9,10) 1(5) parts _ _ 2(1), of 1]
      3(7,11) 1(6) 2(2) by (auto simp: Let_def FRAME_OVERHEAD_def)
qed

text \<open>
  C39: A method frame that the negotiated frame size allows is refused when it does not fit the
  buffer together with its seven octets of header and its end octet: \<open>pack_into\<close> raises
  struct.error and nothing is sent.
\<close>

theorem large_method_refused:
  assumes "frame_max s - 8 < int (length a) + 12" and "int (length (buffer_store s)) \<le> frame_max s - 8"
  shows "\<exists>s'. write_frame cdc put 1 ch (Some sig) (VBytes a) None s = (Inl StructError, s', None)
    \<and> transport s' = transport s"
proof -
  define s0 where "s0 = (if frame_max s - 8 > int (length (buffer_store s))
      then s\<lparr>buffer_store := replicate (nat (frame_max s - 8)) 0\<rparr> else s)"
  have len: "length (buffer_store s0) < length a + 12"
    using assms by (auto simp: s0_def)
  have "pack_next 1 ch p 0 s0 = (Inl StructError, s0)" if "length p = 4 + length a" for p
    using pack_next_overflow [of s0 0 p 1 ch] that len by simp
  then have "write_fast put 1 ch (Some sig) (VBytes a) None (frame_max s - 8) s = (Inl StructError, s0)"
    using method_payload_cases [of sig a]
    by (auto simp: write_fast_def bindA_def s0_def [symmetric] split: sum.splits)
  moreover have "transport s0 = transport s" by (simp add: s0_def)
  ultimately show ?thesis by (simp add: write_frame_def Let_def str_to_bytes_def)
qed

lemma large_method_refused_witness:
  "\<exists>s'. write_frame no_codecs write_bytes 1 1 (Some Queue_Bind) (VBytes (replicate 60 0)) None (sample_writer 72)
      = (Inl StructError, s', None)
    \<and> transport s' = transport (sample_writer 72)"
  by (rule large_method_refused) (simp_all add: sample_writer_def)


end
